(* ===== verification/External.thy ===== *)
theory External
  imports Auth_Prelude
begin

text \<open>
  What the source takes from outside its own tree. Data of third-party crates appears as
  types with only the shape the source relies on (\<open>Uuid\<close>, the fabric's \<open>KvKey\<close>,
  \<open>Revision\<close> and \<open>FabricError\<close>, the kernel's \<open>Actor\<close>, JSON values, JWT headers and
  keys). Their pure functions are the fields of one record, \<open>lib\<close>: every definition of the
  model that calls one takes the record as its first argument, so nothing is assumed about
  the body of such a function. The documented behaviour that a property needs is a named
  predicate on the record (\<open>uuid_ok\<close>, \<open>kv_key_ok\<close>, \<open>http_ok\<close>, \<open>jwt_ok\<close>,
  \<open>core_auth_ok\<close>, \<open>aead_ok\<close>, \<open>aead_binds\<close>, \<open>b64_ok\<close>, \<open>json_text_ok\<close>, \<open>actor_json_ok\<close>), which the property has as a hypothesis.
\<close>

section \<open>Data of the third-party crates\<close>

type_synonym uuid = "128 word"
type_synonym revision = nat

datatype kv_key = KvKey (key_str: string)

text \<open>
  \<open>FabricError\<close>: the source tells apart a lost compare-and-swap, an undecodable value (with
  the subject it names), and everything else. The last argument is the \<open>Display\<close> text.
\<close>

datatype fabric_error =
    RevisionConflict string
  | Decode string string
  | FabricFailure string

fun fabric_error_to_string :: "fabric_error \<Rightarrow> string" where
  "fabric_error_to_string (RevisionConflict m) = m"
| "fabric_error_to_string (Decode _ m) = m"
| "fabric_error_to_string (FabricFailure m) = m"

datatype actor = Human uuid | Service uuid

fun is_human :: "actor \<Rightarrow> bool" where
  "is_human (Human _) = True"
| "is_human (Service _) = False"

fun actor_id :: "actor \<Rightarrow> uuid" where
  "actor_id (Human i) = i"
| "actor_id (Service i) = i"

datatype json =
    JNull
  | JBool bool
  | JInt int
  | JStr string
  | JArr "json list"
  | JObj "(string \<times> json) list"

text \<open>\<open>serde_json::Value::as_str\<close> and field access on an object.\<close>

fun json_as_str :: "json \<Rightarrow> string option" where
  "json_as_str (JStr s) = Some s"
| "json_as_str _ = None"

fun json_field :: "json \<Rightarrow> string \<Rightarrow> json option" where
  "json_field (JObj fs) k = map_of fs k"
| "json_field _ k = None"

text \<open>Points in time: \<open>DateTime<Utc>\<close> in nanoseconds since the epoch; \<open>timestamp\<close> is seconds.\<close>

type_synonym datetime = int
type_synonym instant = nat  \<comment> \<open>monotonic clock, nanoseconds\<close>

definition timestamp :: "datetime \<Rightarrow> i64" where
  "timestamp t = word_of_int (t div 1000000000)"

section \<open>JWT data\<close>

datatype algorithm =
  HS256 | RS256 | RS384 | RS512 | ES256 | ES384 | PS256 | PS384 | PS512 | EdDSA | OtherAlg string

datatype key_algorithm =
  KA_RS256 | KA_RS384 | KA_RS512 | KA_ES256 | KA_ES384 | KA_PS256 | KA_PS384 | KA_PS512
  | KA_EdDSA | KA_Other string

record jwk =
  jwk_key_id :: "string option"
  jwk_key_algorithm :: "key_algorithm option"
  jwk_material :: bytes

type_synonym jwk_set = "jwk list"

record jwt_header =
  hdr_alg :: algorithm
  hdr_kid :: "string option"

text \<open>The fields of \<open>jsonwebtoken::Validation\<close> that the source sets or relies on.\<close>

record validation =
  v_algorithms :: "algorithm list"
  v_iss :: "string list option"
  v_aud :: "string list option"
  v_required :: "string list"
  v_leeway :: u64

datatype jwt_kind = ExpiredSignature string | OtherKind string

fun jwt_kind_to_string :: "jwt_kind \<Rightarrow> string" where
  "jwt_kind_to_string (ExpiredSignature m) = m"
| "jwt_kind_to_string (OtherKind m) = m"

record discovery_document =
  dd_issuer :: string
  dd_jwks_uri :: string

section \<open>The pure functions of the third-party crates\<close>

record lib =
  \<comment> \<open>uuid\<close>
  uuid_to_string :: "uuid \<Rightarrow> string"
  uuid_parse_str :: "string \<Rightarrow> uuid option"
  \<comment> \<open>br-util-nats-fabric: \<open>KvKey::new\<close>\<close>
  kv_key_new :: "string \<Rightarrow> string + kv_key"
  \<comment> \<open>br-core-auth\<close>
  core_session_cookie_name :: "bool \<Rightarrow> string"
  core_extract_session_id :: "string \<Rightarrow> bool \<Rightarrow> string option"
  core_bearer_token_key :: "string \<Rightarrow> string"
  \<comment> \<open>http: \<open>HeaderValue::to_str\<close> and \<open>str::parse::<HeaderValue>\<close>\<close>
  header_to_str :: "string \<Rightarrow> string option"
  header_value_parse :: "string \<Rightarrow> string option"
  \<comment> \<open>base64: \<open>STANDARD\<close> and \<open>URL_SAFE_NO_PAD\<close>\<close>
  b64_encode :: "bytes \<Rightarrow> string"
  b64_decode :: "string \<Rightarrow> bytes option"
  b64url_decode :: "string \<Rightarrow> bytes option"
  \<comment> \<open>chacha20poly1305: key, nonce, associated data, message\<close>
  aead_encrypt :: "bytes \<Rightarrow> bytes \<Rightarrow> bytes \<Rightarrow> bytes \<Rightarrow> bytes option"
  aead_decrypt :: "bytes \<Rightarrow> bytes \<Rightarrow> bytes \<Rightarrow> bytes \<Rightarrow> bytes option"
  \<comment> \<open>serde\_json, on documents: rendering and reading\<close>
  json_to_vec :: "json \<Rightarrow> string + bytes"
  json_from_slice :: "bytes \<Rightarrow> string + json"
  serde_error :: "json \<Rightarrow> string"  \<comment> \<open>the text reported for a document of the wrong shape\<close>
  \<comment> \<open>br-core-kernel: the serde form of \<open>Actor\<close>\<close>
  actor_to_json :: "actor \<Rightarrow> json"
  actor_of_json :: "json \<Rightarrow> actor option"
  \<comment> \<open>jsonwebtoken: secret or key, validation, acceptance by the target type, clock, token\<close>
  jwt_encode :: "bytes \<Rightarrow> json \<Rightarrow> string + string"
  jwt_decode :: "bytes \<Rightarrow> validation \<Rightarrow> (json \<Rightarrow> bool) \<Rightarrow> i64 \<Rightarrow> string \<Rightarrow> jwt_kind + json"
  jwt_decode_header :: "string \<Rightarrow> string + jwt_header"
  jwt_key_from_jwk :: "jwk \<Rightarrow> string + bytes"
  jwt_validation_default :: validation
  jwt_validation_new :: "algorithm \<Rightarrow> validation"
  \<comment> \<open>reqwest: \<open>Response::json\<close> on the bodies of the two documents it fetches\<close>
  discovery_from_body :: "string \<Rightarrow> string + discovery_document"
  jwks_from_body :: "string \<Rightarrow> string + jwk_set"
  \<comment> \<open>the conformance battery: \<open>KvPrefix::new\<close>, \<open>Uuid::simple\<close>, \<open>Debug\<close> of \<open>Actor\<close>, base64's error text\<close>
  kv_prefix_new :: "string \<Rightarrow> string + string"
  uuid_simple :: "uuid \<Rightarrow> string"
  actor_debug :: "actor \<Rightarrow> string"
  b64_error :: "string \<Rightarrow> string"

section \<open>Documented behaviour, as predicates\<close>

definition token_char :: "char \<Rightarrow> bool" where
  "token_char c \<longleftrightarrow> ascii_visible c \<and> c \<noteq> CHR '';'' \<and> c \<noteq> CHR '' ''"

text \<open>uuid: a rendered uuid parses back; its text is hexadecimal digits and hyphens.\<close>

definition uuid_ok :: "lib \<Rightarrow> bool" where
  "uuid_ok L \<longleftrightarrow>
     (\<forall>u. uuid_parse_str L (uuid_to_string L u) = Some u) \<and>
     (\<forall>u. list_all token_char (uuid_to_string L u))"

text \<open>fabric: an accepted key is kept verbatim.\<close>

definition kv_key_ok :: "lib \<Rightarrow> bool" where
  "kv_key_ok L \<longleftrightarrow> (\<forall>s k. kv_key_new L s = Inr k \<longrightarrow> k = KvKey s)"

text \<open>
  http: \<open>to_str\<close> accepts ASCII only and yields the bytes themselves; visible ASCII text is a
  header value, and is kept as it is.
\<close>

definition is_ascii :: "char \<Rightarrow> bool" where
  "is_ascii c \<longleftrightarrow> (of_char c :: nat) < 128"

definition http_ok :: "lib \<Rightarrow> bool" where
  "http_ok L \<longleftrightarrow>
     (\<forall>v s. header_to_str L v = Some s \<longrightarrow> s = v \<and> list_all is_ascii s) \<and>
     (\<forall>v. list_all ascii_visible v \<longrightarrow> header_to_str L v = Some v) \<and>
     (\<forall>s. list_all ascii_visible s \<longrightarrow> header_value_parse L s = Some s)"

text \<open>
  jsonwebtoken: when the claims of a token satisfy a validation, but for the expiry. The crate knows
  the claim names exp, sub, iss, aud and nbf as required ones and ignores other names. An issuer or an
  audience is a text or a list of texts (anything else counts as absent). It is compared when it is
  there; that it be there is demanded only by naming it among the required claims. With no audience
  to expect, a token must name none.
\<close>

definition known_claims :: "string list" where
  "known_claims = [''exp'', ''sub'', ''iss'', ''aud'', ''nbf'']"

definition claim_texts :: "json \<Rightarrow> string \<Rightarrow> string list option" where
  "claim_texts j n =
     (case json_field j n of
        Some (JStr s) \<Rightarrow> Some [s]
      | Some (JArr vs) \<Rightarrow> those (map json_as_str vs)
      | _ \<Rightarrow> None)"

definition claim_present :: "json \<Rightarrow> string \<Rightarrow> bool" where
  "claim_present j n \<longleftrightarrow>
     (if n = ''iss'' \<or> n = ''aud'' then claim_texts j n \<noteq> None
      else if n = ''sub'' then Option.bind (json_field j n) json_as_str \<noteq> None
      else json_field j n \<noteq> None)"

definition claim_allows :: "json \<Rightarrow> string \<Rightarrow> string list \<Rightarrow> bool" where
  "claim_allows j n xs \<longleftrightarrow>
     (case claim_texts j n of None \<Rightarrow> True | Some ys \<Rightarrow> list_ex (\<lambda>y. y \<in> set xs) ys)"

definition claims_shape_ok :: "validation \<Rightarrow> json \<Rightarrow> bool" where
  "claims_shape_ok v j \<longleftrightarrow>
     list_all (\<lambda>n. n \<in> set known_claims \<longrightarrow> claim_present j n) (v_required v) \<and>
     (case v_iss v of None \<Rightarrow> True | Some xs \<Rightarrow> claim_allows j ''iss'' xs) \<and>
     (case v_aud v of None \<Rightarrow> claim_texts j ''aud'' = None | Some xs \<Rightarrow> claim_allows j ''aud'' xs)"

definition claims_alive :: "validation \<Rightarrow> i64 \<Rightarrow> int \<Rightarrow> bool" where
  "claims_alive v now e \<longleftrightarrow> sint now - uint (v_leeway v) \<le> e"

definition jwt_default_ok :: "lib \<Rightarrow> bool" where
  "jwt_default_ok L \<longleftrightarrow>
     v_algorithms (jwt_validation_default L) = [HS256] \<and> v_aud (jwt_validation_default L) = None"

definition jwt_complete :: "lib \<Rightarrow> bool" where
  "jwt_complete L \<longleftrightarrow>
     (\<forall>key j t v acc now e.
        jwt_encode L key j = Inr t \<and> HS256 \<in> set (v_algorithms v) \<and> acc j \<and>
        claims_shape_ok v j \<and> json_field j ''exp'' = Some (JInt e) \<and> 0 \<le> e \<and> 0 \<le> sint now \<longrightarrow>
        (if claims_alive v now e then jwt_decode L key v acc now t = Inr j
         else \<exists>m. jwt_decode L key v acc now t = Inl (ExpiredSignature m)))"

definition jwt_sound :: "lib \<Rightarrow> bool" where
  "jwt_sound L \<longleftrightarrow>
     (\<forall>key j t v acc now. jwt_decode L key v acc now t = Inr j \<longrightarrow>
        acc j \<and> claims_shape_ok v j \<and>
        (\<forall>e. json_field j ''exp'' = Some (JInt e) \<longrightarrow> claims_alive v now e))"

definition jwt_text_ok :: "lib \<Rightarrow> bool" where
  "jwt_text_ok L \<longleftrightarrow> (\<forall>key j t. jwt_encode L key j = Inr t \<longrightarrow> t \<noteq> [] \<and> list_all token_char t)"

text \<open>The claims of a token are its payload: they depend on nothing but the token.\<close>

definition jwt_stable :: "lib \<Rightarrow> bool" where
  "jwt_stable L \<longleftrightarrow> (\<forall>k1 v1 a1 n1 j1 k2 v2 a2 n2 j2 t.
     jwt_decode L k1 v1 a1 n1 t = Inr j1 \<and> jwt_decode L k2 v2 a2 n2 t = Inr j2 \<longrightarrow> j1 = j2)"

definition jwt_ok :: "lib \<Rightarrow> bool" where
  "jwt_ok L \<longleftrightarrow>
     jwt_default_ok L \<and> jwt_complete L \<and> jwt_sound L \<and> jwt_text_ok L \<and> jwt_stable L"

text \<open>
  The verdict on the claims is the crate's own: a token accepted under one validation is accepted under
  any other with the same algorithms, required names and leeway that its claims satisfy.
\<close>

definition jwt_modular :: "lib \<Rightarrow> bool" where
  "jwt_modular L \<longleftrightarrow> (\<forall>key v v' acc now t j.
     jwt_decode L key v acc now t = Inr j \<and> v_algorithms v' = v_algorithms v \<and> v_required v' = v_required v \<and>
     v_leeway v' = v_leeway v \<and> claims_shape_ok v' j \<longrightarrow> jwt_decode L key v' acc now t = Inr j)"

text \<open>
  br-core-auth: the name of the session cookie is text without separators and none of the names
  of the token cookies.
\<close>

definition core_auth_ok :: "lib \<Rightarrow> bool" where
  "core_auth_ok L \<longleftrightarrow> (\<forall>secure.
     list_all token_char (core_session_cookie_name L secure) \<and>
     CHR ''='' \<notin> set (core_session_cookie_name L secure) \<and>
     core_session_cookie_name L secure \<notin>
       {''access_token'', ''refresh_token'', ''__Host-access_token'', ''__Host-refresh_token''})"

text \<open>
  chacha20poly1305: what is sealed opens under the same key, nonce and associated data, and
  an opened ciphertext is the sealing of its plaintext (the tag is a function of key, nonce,
  associated data and ciphertext). base64 and JSON round trips.
\<close>

definition aead_ok :: "lib \<Rightarrow> bool" where
  "aead_ok L \<longleftrightarrow>
     (\<forall>k n a m c. aead_encrypt L k n a m = Some c \<longrightarrow> aead_decrypt L k n a c = Some m) \<and>
     (\<forall>k n a m c. aead_decrypt L k n a c = Some m \<longrightarrow> aead_encrypt L k n a m = Some c)"

text \<open>Opening with other associated data than a value was sealed with fails.\<close>

definition aead_binds :: "lib \<Rightarrow> bool" where
  "aead_binds L \<longleftrightarrow> (\<forall>k n a a' m m' c.
     aead_encrypt L k n a m = Some c \<and> aead_decrypt L k n a' c = Some m' \<longrightarrow> a' = a)"

definition b64_ok :: "lib \<Rightarrow> bool" where
  "b64_ok L \<longleftrightarrow> (\<forall>b. b64_decode L (b64_encode L b) = Some b)"

definition actor_json_ok :: "lib \<Rightarrow> bool" where
  "actor_json_ok L \<longleftrightarrow> (\<forall>a. actor_of_json L (actor_to_json L a) = Some a)"

definition json_text_ok :: "lib \<Rightarrow> bool" where
  "json_text_ok L \<longleftrightarrow> (\<forall>j b. json_to_vec L j = Inr b \<longrightarrow> json_from_slice L b = Inr j)"

section \<open>Consequences\<close>

lemma uuid_to_string_inj:
  "uuid_ok L \<Longrightarrow> uuid_to_string L u = uuid_to_string L u' \<longleftrightarrow> u = u'"
  unfolding uuid_ok_def by (metis option.inject)

lemma kv_key_newD: "kv_key_ok L \<Longrightarrow> kv_key_new L s = Inr k \<Longrightarrow> k = KvKey s"
  by (simp add: kv_key_ok_def)

lemma header_value_parse_visible:
  "http_ok L \<Longrightarrow> list_all ascii_visible s \<Longrightarrow> header_value_parse L s = Some s"
  by (simp add: http_ok_def)

lemma jwt_decode_fresh:
  assumes "jwt_ok L" "jwt_encode L key j = Inr t" "HS256 \<in> set (v_algorithms v)" "acc j"
    "claims_shape_ok v j" "json_field j ''exp'' = Some (JInt e)" "0 \<le> e" "0 \<le> sint now"
    "claims_alive v now e"
  shows "jwt_decode L key v acc now t = Inr j"
proof -
  have "jwt_complete L" using assms(1) by (simp add: jwt_ok_def)
  from this[unfolded jwt_complete_def, rule_format, of key j t v acc e now] show ?thesis
    using assms(2-) by simp
qed

lemma jwt_decode_expired:
  assumes "jwt_ok L" "jwt_encode L key j = Inr t" "HS256 \<in> set (v_algorithms v)" "acc j"
    "claims_shape_ok v j" "json_field j ''exp'' = Some (JInt e)" "0 \<le> e" "0 \<le> sint now"
    "\<not> claims_alive v now e"
  shows "\<exists>m. jwt_decode L key v acc now t = Inl (ExpiredSignature m)"
proof -
  have "jwt_complete L" using assms(1) by (simp add: jwt_ok_def)
  from this[unfolded jwt_complete_def, rule_format, of key j t v acc e now] show ?thesis
    using assms(2-) by simp
qed

lemma jwt_decode_sound:
  assumes "jwt_ok L" "jwt_decode L key v acc now t = Inr j"
  shows "acc j \<and> claims_shape_ok v j \<and>
    (\<forall>e. json_field j ''exp'' = Some (JInt e) \<longrightarrow> claims_alive v now e)"
proof -
  have "jwt_sound L" using assms(1) by (simp add: jwt_ok_def)
  from this[unfolded jwt_sound_def, rule_format, OF assms(2)] show ?thesis .
qed

lemma jwt_decode_stable:
  "jwt_ok L \<Longrightarrow> jwt_decode L k v a n t = Inr j \<Longrightarrow> jwt_decode L k' v' a' n' t = Inr j' \<Longrightarrow> j = j'"
  unfolding jwt_ok_def jwt_stable_def by blast

lemma jwt_encode_text:
  assumes "jwt_ok L" "jwt_encode L key j = Inr t"
  shows "t \<noteq> [] \<and> list_all token_char t"
  using assms unfolding jwt_ok_def jwt_text_ok_def by blast

end
