(* ===== verification/Effects.thy ===== *)
theory Effects
  imports External
begin

text \<open>
  Handlers as programs over requests. An \<open>async\<close> function of the source is a tree: it returns,
  it panics, or it makes a request of the outside (the clock, the uuid generator, the random
  generator, a KV bucket, the HTTP client) or of the state its tasks share (the JWKS cache of a
  provider), and goes on with the reply. Every request is one atomic step; a suspended task is
  the rest of its tree. The same program is run alone (\<open>exec\<close>), against any replies at all
  (\<open>runs\<close>, \<open>steps\<close>), or interleaved with others on one world (\<open>pool_exec\<close>). Logging and metrics
  are not modelled.
\<close>

section \<open>Records kept in the buckets\<close>

text \<open>\<open>src/refresh_store.rs\<close>: \<open>RefreshToken\<close>, \<open>RevokedFamily\<close>; \<open>br-auth-contract\<close>: \<open>SealedBearer\<close>.\<close>

record refresh_token =
  rt_id :: uuid
  rt_email :: string
  rt_family_id :: uuid
  rt_used_at :: "datetime option"
  rt_replaced_by :: "uuid option"
  rt_created_at :: datetime

record revoked_family =
  revoked_at :: datetime

record sealed_bearer =
  sb_nonce :: string
  sb_ciphertext :: string

section \<open>Requests and replies\<close>

datatype request =
    UtcNow
  | MonoNow
  | NowV7
  | GenNonce
  | TokPut kv_key refresh_token
  | TokGet kv_key
  | TokUpdateIf kv_key refresh_token revision
  | TokStatus
  | FamPut kv_key revoked_family
  | FamGet kv_key
  | PlGet kv_key
  | PlPut kv_key sealed_bearer
  | PlRetract kv_key
  | JwksRead nat
  | JwksWrite nat jwk_set
  | LastRead nat
  | LastWrite nat instant
  | HttpGet string
  \<comment> \<open>the test harness of the conformance battery\<close>
  | NatsStart
  | NatsShutdown
  | PlPutJson kv_key json
  | PlEntries string
  | PlJsonEntries string

datatype reply =
    RUnit
  | RUtc datetime
  | RMono instant
  | RUuid uuid
  | RNonce bytes
  | RDone "fabric_error + unit"
  | RTok "fabric_error + (refresh_token \<times> revision) option"
  | RFam "fabric_error + (revoked_family \<times> revision) option"
  | RSealed "fabric_error + sealed_bearer option"
  | RJwks jwk_set
  | RHttp "string + (string + string)"
  | REntries "fabric_error + (kv_key \<times> sealed_bearer) list"
  | RJsonEntries "fabric_error + (kv_key \<times> json) list"

fun well_kinded :: "request \<Rightarrow> reply \<Rightarrow> bool" where
  "well_kinded UtcNow r = (case r of RUtc _ \<Rightarrow> True | _ \<Rightarrow> False)"
| "well_kinded MonoNow r = (case r of RMono _ \<Rightarrow> True | _ \<Rightarrow> False)"
| "well_kinded NowV7 r = (case r of RUuid _ \<Rightarrow> True | _ \<Rightarrow> False)"
| "well_kinded GenNonce r = (case r of RNonce n \<Rightarrow> length n = 12 | _ \<Rightarrow> False)"
| "well_kinded (TokPut _ _) r = (case r of RDone _ \<Rightarrow> True | _ \<Rightarrow> False)"
| "well_kinded (TokGet _) r = (case r of RTok _ \<Rightarrow> True | _ \<Rightarrow> False)"
| "well_kinded (TokUpdateIf _ _ _) r = (case r of RDone _ \<Rightarrow> True | _ \<Rightarrow> False)"
| "well_kinded TokStatus r = (case r of RDone _ \<Rightarrow> True | _ \<Rightarrow> False)"
| "well_kinded (FamPut _ _) r = (case r of RDone _ \<Rightarrow> True | _ \<Rightarrow> False)"
| "well_kinded (FamGet _) r = (case r of RFam _ \<Rightarrow> True | _ \<Rightarrow> False)"
| "well_kinded (PlGet _) r = (case r of RSealed _ \<Rightarrow> True | _ \<Rightarrow> False)"
| "well_kinded (PlPut _ _) r = (case r of RDone _ \<Rightarrow> True | _ \<Rightarrow> False)"
| "well_kinded (PlRetract _) r = (case r of RDone _ \<Rightarrow> True | _ \<Rightarrow> False)"
| "well_kinded (JwksRead _) r = (case r of RJwks _ \<Rightarrow> True | _ \<Rightarrow> False)"
| "well_kinded (JwksWrite _ _) r = (r = RUnit)"
| "well_kinded (LastRead _) r = (case r of RMono _ \<Rightarrow> True | _ \<Rightarrow> False)"
| "well_kinded (LastWrite _ _) r = (r = RUnit)"
| "well_kinded (HttpGet _) r = (case r of RHttp _ \<Rightarrow> True | _ \<Rightarrow> False)"
| "well_kinded NatsStart r = (r = RUnit)"
| "well_kinded NatsShutdown r = (r = RUnit)"
| "well_kinded (PlPutJson _ _) r = (case r of RDone _ \<Rightarrow> True | _ \<Rightarrow> False)"
| "well_kinded (PlEntries _) r = (case r of REntries _ \<Rightarrow> True | _ \<Rightarrow> False)"
| "well_kinded (PlJsonEntries _) r = (case r of RJsonEntries _ \<Rightarrow> True | _ \<Rightarrow> False)"

type_synonym event = "request \<times> reply"

section \<open>Programs\<close>

datatype 'a prog =
    Ret 'a
  | Panic
  | Call request "reply \<Rightarrow> 'a prog"

primrec bind :: "'a prog \<Rightarrow> ('a \<Rightarrow> 'b prog) \<Rightarrow> 'b prog" where
  "bind (Ret x) f = f x"
| "bind Panic f = Panic"
| "bind (Call q k) f = Call q (\<lambda>r. bind (k r) f)"

text \<open>
  One function per request, with the reply at its own type. A reply of another kind cannot
  occur (\<open>well_kinded\<close> is part of every world's laws); it is sent to \<open>Panic\<close>.
\<close>

definition utc_now :: "(datetime \<Rightarrow> 'a prog) \<Rightarrow> 'a prog" where
  "utc_now f = Call UtcNow (\<lambda>r. case r of RUtc t \<Rightarrow> f t | _ \<Rightarrow> Panic)"

definition instant_now :: "(instant \<Rightarrow> 'a prog) \<Rightarrow> 'a prog" where
  "instant_now f = Call MonoNow (\<lambda>r. case r of RMono t \<Rightarrow> f t | _ \<Rightarrow> Panic)"

definition now_v7 :: "(uuid \<Rightarrow> 'a prog) \<Rightarrow> 'a prog" where
  "now_v7 f = Call NowV7 (\<lambda>r. case r of RUuid u \<Rightarrow> f u | _ \<Rightarrow> Panic)"

definition gen_nonce :: "(bytes \<Rightarrow> 'a prog) \<Rightarrow> 'a prog" where
  "gen_nonce f = Call GenNonce (\<lambda>r. case r of RNonce b \<Rightarrow> f b | _ \<Rightarrow> Panic)"

definition done_call :: "request \<Rightarrow> (fabric_error + unit \<Rightarrow> 'a prog) \<Rightarrow> 'a prog" where
  "done_call q f = Call q (\<lambda>r. case r of RDone x \<Rightarrow> f x | _ \<Rightarrow> Panic)"

definition tok_put :: "kv_key \<Rightarrow> refresh_token \<Rightarrow> (fabric_error + unit \<Rightarrow> 'a prog) \<Rightarrow> 'a prog" where
  "tok_put k v f = done_call (TokPut k v) f"

definition tok_get ::
  "kv_key \<Rightarrow> (fabric_error + (refresh_token \<times> revision) option \<Rightarrow> 'a prog) \<Rightarrow> 'a prog" where
  "tok_get k f = Call (TokGet k) (\<lambda>r. case r of RTok x \<Rightarrow> f x | _ \<Rightarrow> Panic)"

definition tok_update_if ::
  "kv_key \<Rightarrow> refresh_token \<Rightarrow> revision \<Rightarrow> (fabric_error + unit \<Rightarrow> 'a prog) \<Rightarrow> 'a prog" where
  "tok_update_if k v n f = done_call (TokUpdateIf k v n) f"

definition tok_status :: "(fabric_error + unit \<Rightarrow> 'a prog) \<Rightarrow> 'a prog" where
  "tok_status f = done_call TokStatus f"

definition fam_put :: "kv_key \<Rightarrow> revoked_family \<Rightarrow> (fabric_error + unit \<Rightarrow> 'a prog) \<Rightarrow> 'a prog" where
  "fam_put k v f = done_call (FamPut k v) f"

definition fam_get ::
  "kv_key \<Rightarrow> (fabric_error + (revoked_family \<times> revision) option \<Rightarrow> 'a prog) \<Rightarrow> 'a prog" where
  "fam_get k f = Call (FamGet k) (\<lambda>r. case r of RFam x \<Rightarrow> f x | _ \<Rightarrow> Panic)"

definition pl_get :: "kv_key \<Rightarrow> (fabric_error + sealed_bearer option \<Rightarrow> 'a prog) \<Rightarrow> 'a prog" where
  "pl_get k f = Call (PlGet k) (\<lambda>r. case r of RSealed x \<Rightarrow> f x | _ \<Rightarrow> Panic)"

definition pl_put :: "kv_key \<Rightarrow> sealed_bearer \<Rightarrow> (fabric_error + unit \<Rightarrow> 'a prog) \<Rightarrow> 'a prog" where
  "pl_put k v f = done_call (PlPut k v) f"

definition pl_retract :: "kv_key \<Rightarrow> (fabric_error + unit \<Rightarrow> 'a prog) \<Rightarrow> 'a prog" where
  "pl_retract k f = done_call (PlRetract k) f"

definition jwks_read :: "nat \<Rightarrow> (jwk_set \<Rightarrow> 'a prog) \<Rightarrow> 'a prog" where
  "jwks_read i f = Call (JwksRead i) (\<lambda>r. case r of RJwks x \<Rightarrow> f x | _ \<Rightarrow> Panic)"

definition jwks_write :: "nat \<Rightarrow> jwk_set \<Rightarrow> 'a prog \<Rightarrow> 'a prog" where
  "jwks_write i x p = Call (JwksWrite i x) (\<lambda>r. case r of RUnit \<Rightarrow> p | _ \<Rightarrow> Panic)"

definition last_read :: "nat \<Rightarrow> (instant \<Rightarrow> 'a prog) \<Rightarrow> 'a prog" where
  "last_read i f = Call (LastRead i) (\<lambda>r. case r of RMono x \<Rightarrow> f x | _ \<Rightarrow> Panic)"

definition last_write :: "nat \<Rightarrow> instant \<Rightarrow> 'a prog \<Rightarrow> 'a prog" where
  "last_write i x p = Call (LastWrite i x) (\<lambda>r. case r of RUnit \<Rightarrow> p | _ \<Rightarrow> Panic)"

definition http_get :: "string \<Rightarrow> (string + (string + string) \<Rightarrow> 'a prog) \<Rightarrow> 'a prog" where
  "http_get u f = Call (HttpGet u) (\<lambda>r. case r of RHttp x \<Rightarrow> f x | _ \<Rightarrow> Panic)"

definition nats_start :: "'a prog \<Rightarrow> 'a prog" where
  "nats_start p = Call NatsStart (\<lambda>r. case r of RUnit \<Rightarrow> p | _ \<Rightarrow> Panic)"

definition nats_shutdown :: "'a prog \<Rightarrow> 'a prog" where
  "nats_shutdown p = Call NatsShutdown (\<lambda>r. case r of RUnit \<Rightarrow> p | _ \<Rightarrow> Panic)"

definition pl_put_json :: "kv_key \<Rightarrow> json \<Rightarrow> (fabric_error + unit \<Rightarrow> 'a prog) \<Rightarrow> 'a prog" where
  "pl_put_json k v f = done_call (PlPutJson k v) f"

definition pl_entries :: "string \<Rightarrow> (fabric_error + (kv_key \<times> sealed_bearer) list \<Rightarrow> 'a prog) \<Rightarrow> 'a prog" where
  "pl_entries p f = Call (PlEntries p) (\<lambda>r. case r of REntries x \<Rightarrow> f x | _ \<Rightarrow> Panic)"

definition pl_json_entries :: "string \<Rightarrow> (fabric_error + (kv_key \<times> json) list \<Rightarrow> 'a prog) \<Rightarrow> 'a prog" where
  "pl_json_entries p f = Call (PlJsonEntries p) (\<lambda>r. case r of RJsonEntries x \<Rightarrow> f x | _ \<Rightarrow> Panic)"

lemmas call_defs =
  utc_now_def instant_now_def now_v7_def gen_nonce_def done_call_def tok_put_def tok_get_def
  tok_update_if_def tok_status_def fam_put_def fam_get_def pl_get_def pl_put_def pl_retract_def
  jwks_read_def jwks_write_def last_read_def last_write_def http_get_def
  nats_start_def nats_shutdown_def pl_put_json_def pl_entries_def pl_json_entries_def

section \<open>Steps against any replies\<close>

text \<open>
  \<open>steps p tr p'\<close>: with the replies of \<open>tr\<close>, \<open>p\<close> has come to \<open>p'\<close>. A task that is dropped at a
  suspension point (the client hung up, the process died) is a \<open>p'\<close> that never moves again, so a
  property of every \<open>steps\<close> holds at every point where a task can stop. \<open>runs p tr x\<close>: it returned \<open>x\<close>.
\<close>

inductive steps :: "'a prog \<Rightarrow> event list \<Rightarrow> 'a prog \<Rightarrow> bool" where
  here: "steps p [] p"
| call: "steps (k r) tr p' \<Longrightarrow> steps (Call q k) ((q, r) # tr) p'"

inductive_cases steps_NilE: "steps p [] p'"
inductive_cases steps_ConsE: "steps p (e # tr) p'"
inductive_simps steps_Call_iff: "steps (Call q k) tr p'"
inductive_simps steps_Ret_iff: "steps (Ret x) tr p'"
inductive_simps steps_Panic_iff: "steps Panic tr p'"
inductive_simps steps_Nil_iff: "steps p [] p'"
inductive_simps steps_Cons_iff: "steps p (e # tr) p'"

definition runs :: "'a prog \<Rightarrow> event list \<Rightarrow> 'a \<Rightarrow> bool" where
  "runs p tr x \<longleftrightarrow> steps p tr (Ret x)"

lemma runs_Ret [simp]: "runs (Ret x) tr y \<longleftrightarrow> tr = [] \<and> y = x"
  by (auto simp: runs_def steps_Ret_iff)

lemma runs_Panic [simp]: "\<not> runs Panic tr y"
  by (auto simp: runs_def steps_Panic_iff)

lemma runs_Call [runs_simps]:
  "runs (Call q k) tr y \<longleftrightarrow> (\<exists>r tr'. tr = (q, r) # tr' \<and> runs (k r) tr' y)"
  by (auto simp: runs_def steps_Call_iff)

lemma steps_append: "steps p t1 p' \<Longrightarrow> steps p' t2 p'' \<Longrightarrow> steps p (t1 @ t2) p''"
  by (induction rule: steps.induct) (auto intro: steps.intros)

lemma steps_snoc: "steps p tr (Call q k) \<Longrightarrow> steps p (tr @ [(q, r)]) (k r)"
  by (rule steps_append) (auto intro: steps.intros)

lemma runs_bind [runs_simps]:
  "runs (bind m f) tr y \<longleftrightarrow> (\<exists>t1 t2 x. tr = t1 @ t2 \<and> runs m t1 x \<and> runs (f x) t2 y)"
proof (induction m arbitrary: tr)
  case (Call q k)
  then have IH: "runs (bind (k r) f) t y \<longleftrightarrow>
    (\<exists>t1 t2 x. t = t1 @ t2 \<and> runs (k r) t1 x \<and> runs (f x) t2 y)" for r t by auto
  show ?case
    by (auto simp: runs_Call IH Cons_eq_append_conv) blast+
qed auto

lemma runs_bindI: "runs m t1 x \<Longrightarrow> runs (f x) t2 y \<Longrightarrow> runs (bind m f) (t1 @ t2) y"
  by (auto simp: runs_bind)

lemma runs_bindE:
  assumes "runs (bind m f) tr y"
  obtains t1 t2 x where "tr = t1 @ t2" "runs m t1 x" "runs (f x) t2 y"
  using assms unfolding runs_bind by (elim exE conjE) (rule that)

text \<open>A step whose failure is returned as a failure: the result was a success, so the step was one.\<close>

lemma runs_try_bindE:
  assumes "runs (bind m (\<lambda>r. case r of Inl e \<Rightarrow> Ret (Inl (f e)) | Inr x \<Rightarrow> g x)) tr (Inr y)"
  obtains t1 t2 x where "tr = t1 @ t2" "runs m t1 (Inr x)" "runs (g x) t2 (Inr y)"
proof -
  from assms obtain t1 t2 r where r: "tr = t1 @ t2" "runs m t1 r"
    "runs (case r of Inl e \<Rightarrow> Ret (Inl (f e)) | Inr x \<Rightarrow> g x) t2 (Inr y)" by (rule runs_bindE)
  then obtain x where "r = Inr x" by (cases r) auto
  with r that show thesis by simp
qed

lemma bind_assoc: "bind (bind m f) g = bind m (\<lambda>x. bind (f x) g)"
  by (induction m) auto

lemma bind_Ret [simp]: "bind m Ret = m"
  by (induction m) auto

text \<open>Symbolic execution of one typed request.\<close>

lemma runs_calls [runs_simps]:
  "runs (utc_now f1) tr y \<longleftrightarrow> (\<exists>t tr'. tr = (UtcNow, RUtc t) # tr' \<and> runs (f1 t) tr' y)"
  "runs (instant_now f2) tr y \<longleftrightarrow> (\<exists>t tr'. tr = (MonoNow, RMono t) # tr' \<and> runs (f2 t) tr' y)"
  "runs (now_v7 f3) tr y \<longleftrightarrow> (\<exists>u tr'. tr = (NowV7, RUuid u) # tr' \<and> runs (f3 u) tr' y)"
  "runs (gen_nonce f4) tr y \<longleftrightarrow> (\<exists>b tr'. tr = (GenNonce, RNonce b) # tr' \<and> runs (f4 b) tr' y)"
  "runs (tok_put k v f5) tr y \<longleftrightarrow> (\<exists>x tr'. tr = (TokPut k v, RDone x) # tr' \<and> runs (f5 x) tr' y)"
  "runs (tok_get k f6) tr y \<longleftrightarrow> (\<exists>x tr'. tr = (TokGet k, RTok x) # tr' \<and> runs (f6 x) tr' y)"
  "runs (tok_update_if k v n f5) tr y \<longleftrightarrow>
     (\<exists>x tr'. tr = (TokUpdateIf k v n, RDone x) # tr' \<and> runs (f5 x) tr' y)"
  "runs (tok_status f5) tr y \<longleftrightarrow> (\<exists>x tr'. tr = (TokStatus, RDone x) # tr' \<and> runs (f5 x) tr' y)"
  "runs (fam_put k w f5) tr y \<longleftrightarrow> (\<exists>x tr'. tr = (FamPut k w, RDone x) # tr' \<and> runs (f5 x) tr' y)"
  "runs (fam_get k f7) tr y \<longleftrightarrow> (\<exists>x tr'. tr = (FamGet k, RFam x) # tr' \<and> runs (f7 x) tr' y)"
  "runs (pl_get k f8) tr y \<longleftrightarrow> (\<exists>x tr'. tr = (PlGet k, RSealed x) # tr' \<and> runs (f8 x) tr' y)"
  "runs (pl_put k s f5) tr y \<longleftrightarrow> (\<exists>x tr'. tr = (PlPut k s, RDone x) # tr' \<and> runs (f5 x) tr' y)"
  "runs (pl_retract k f5) tr y \<longleftrightarrow> (\<exists>x tr'. tr = (PlRetract k, RDone x) # tr' \<and> runs (f5 x) tr' y)"
  "runs (jwks_read i f9) tr y \<longleftrightarrow> (\<exists>x tr'. tr = (JwksRead i, RJwks x) # tr' \<and> runs (f9 x) tr' y)"
  "runs (jwks_write i ks p) tr y \<longleftrightarrow> (\<exists>tr'. tr = (JwksWrite i ks, RUnit) # tr' \<and> runs p tr' y)"
  "runs (last_read i f2) tr y \<longleftrightarrow> (\<exists>x tr'. tr = (LastRead i, RMono x) # tr' \<and> runs (f2 x) tr' y)"
  "runs (last_write i t p) tr y \<longleftrightarrow> (\<exists>tr'. tr = (LastWrite i t, RUnit) # tr' \<and> runs p tr' y)"
  "runs (http_get u f10) tr y \<longleftrightarrow> (\<exists>x tr'. tr = (HttpGet u, RHttp x) # tr' \<and> runs (f10 x) tr' y)"
  "runs (nats_start p) tr y \<longleftrightarrow> (\<exists>tr'. tr = (NatsStart, RUnit) # tr' \<and> runs p tr' y)"
  "runs (nats_shutdown p) tr y \<longleftrightarrow> (\<exists>tr'. tr = (NatsShutdown, RUnit) # tr' \<and> runs p tr' y)"
  "runs (pl_put_json k j f5) tr y \<longleftrightarrow> (\<exists>x tr'. tr = (PlPutJson k j, RDone x) # tr' \<and> runs (f5 x) tr' y)"
  "runs (pl_entries u f11) tr y \<longleftrightarrow> (\<exists>x tr'. tr = (PlEntries u, REntries x) # tr' \<and> runs (f11 x) tr' y)"
  "runs (pl_json_entries u f12) tr y \<longleftrightarrow> (\<exists>x tr'. tr = (PlJsonEntries u, RJsonEntries x) # tr' \<and> runs (f12 x) tr' y)"
  by (auto simp: call_defs runs_Call split: reply.split_asm)

lemma runs_case_sum [runs_simps]:
  "runs (case s of Inl e \<Rightarrow> f e | Inr x \<Rightarrow> g x) tr y \<longleftrightarrow>
     (\<exists>e. s = Inl e \<and> runs (f e) tr y) \<or> (\<exists>x. s = Inr x \<and> runs (g x) tr y)"
  by (auto split: sum.splits)

lemma runs_case_option [runs_simps]:
  "runs (case s of None \<Rightarrow> f | Some x \<Rightarrow> g x) tr y \<longleftrightarrow>
     (s = None \<and> runs f tr y) \<or> (\<exists>x. s = Some x \<and> runs (g x) tr y)"
  by (auto split: option.splits)

lemma runs_if [runs_simps]:
  "runs (if b then p else q) tr y \<longleftrightarrow> (b \<and> runs p tr y) \<or> (\<not> b \<and> runs q tr y)"
  by auto

lemma runs_case_prod [runs_simps]:
  "runs (case s of (a, b) \<Rightarrow> f a b) tr y \<longleftrightarrow> (\<exists>a b. s = (a, b) \<and> runs (f a b) tr y)"
  by (auto split: prod.splits)

section \<open>Normal forms\<close>

text \<open>\<open>bind\<close> moves inside the constructs a program is made of.\<close>

named_theorems bind_simps \<open>bind on the constructs of a program\<close>

lemma bind_calls [bind_simps]:
  "bind (utc_now f1) h = utc_now (\<lambda>x. bind (f1 x) h)"
  "bind (instant_now f2) h = instant_now (\<lambda>x. bind (f2 x) h)"
  "bind (now_v7 f3) h = now_v7 (\<lambda>x. bind (f3 x) h)"
  "bind (gen_nonce f4) h = gen_nonce (\<lambda>x. bind (f4 x) h)"
  "bind (tok_put k v f5) h = tok_put k v (\<lambda>x. bind (f5 x) h)"
  "bind (tok_get k f6) h = tok_get k (\<lambda>x. bind (f6 x) h)"
  "bind (tok_update_if k v n f5) h = tok_update_if k v n (\<lambda>x. bind (f5 x) h)"
  "bind (tok_status f5) h = tok_status (\<lambda>x. bind (f5 x) h)"
  "bind (fam_put k w f5) h = fam_put k w (\<lambda>x. bind (f5 x) h)"
  "bind (fam_get k f7) h = fam_get k (\<lambda>x. bind (f7 x) h)"
  "bind (pl_get k f8) h = pl_get k (\<lambda>x. bind (f8 x) h)"
  "bind (pl_put k s f5) h = pl_put k s (\<lambda>x. bind (f5 x) h)"
  "bind (pl_retract k f5) h = pl_retract k (\<lambda>x. bind (f5 x) h)"
  "bind (jwks_read i f9) h = jwks_read i (\<lambda>x. bind (f9 x) h)"
  "bind (jwks_write i ks p) h = jwks_write i ks (bind p h)"
  "bind (last_read i f2) h = last_read i (\<lambda>x. bind (f2 x) h)"
  "bind (last_write i t p) h = last_write i t (bind p h)"
  "bind (http_get u f10) h = http_get u (\<lambda>x. bind (f10 x) h)"
  "bind (nats_start p) h = nats_start (bind p h)"
  "bind (nats_shutdown p) h = nats_shutdown (bind p h)"
  "bind (pl_put_json k j f5) h = pl_put_json k j (\<lambda>x. bind (f5 x) h)"
  "bind (pl_entries u f11) h = pl_entries u (\<lambda>x. bind (f11 x) h)"
  "bind (pl_json_entries u f12) h = pl_json_entries u (\<lambda>x. bind (f12 x) h)"
  by (auto simp: call_defs fun_eq_iff split: reply.splits)

lemma bind_cases [bind_simps]:
  "bind (case s of Inl e \<Rightarrow> a e | Inr x \<Rightarrow> b x) h = (case s of Inl e \<Rightarrow> bind (a e) h | Inr x \<Rightarrow> bind (b x) h)"
  "bind (case oo of None \<Rightarrow> p | Some x \<Rightarrow> c x) h = (case oo of None \<Rightarrow> bind p h | Some x \<Rightarrow> bind (c x) h)"
  "bind (case pr of (x, y) \<Rightarrow> d x y) h = (case pr of (x, y) \<Rightarrow> bind (d x y) h)"
  "bind (if t then p else q) h = (if t then bind p h else bind q h)"
  by (auto split: sum.splits option.splits prod.splits)

section \<open>Requests a program may make\<close>

text \<open>
  \<open>obeys G h p\<close>: after the history \<open>h\<close>, every request \<open>q\<close> that \<open>p\<close> can come to make, whatever
  the replies, satisfies \<open>G\<close> at the history it is made at.
\<close>

primrec obeys :: "(event list \<Rightarrow> request \<Rightarrow> bool) \<Rightarrow> event list \<Rightarrow> 'a prog \<Rightarrow> bool" where
  "obeys G h (Ret x) = True"
| "obeys G h Panic = True"
| "obeys G h (Call q k) = (G h q \<and> (\<forall>r. obeys G (h @ [(q, r)]) (k r)))"

definition guarded :: "(event list \<Rightarrow> request \<Rightarrow> bool) \<Rightarrow> event list \<Rightarrow> bool" where
  "guarded G tr \<longleftrightarrow> (\<forall>t1 q r t2. tr = t1 @ (q, r) # t2 \<longrightarrow> G t1 q)"

lemma obeys_steps:
  assumes "steps p tr p'" "obeys G h p" "tr = t1 @ (q, r) # t2"
  shows "G (h @ t1) q"
  using assms
proof (induction arbitrary: h t1 rule: steps.induct)
  case (call k r' tr p' q')
  show ?case
  proof (cases t1)
    case Nil then show ?thesis using call.prems by simp
  next
    case (Cons e t)
    then have "tr = t @ (q, r) # t2" "e = (q', r')" using call.prems by auto
    with call.IH[of "h @ [(q', r')]" t] call.prems Cons show ?thesis by simp
  qed
qed simp

lemma obeys_guarded: "steps p tr p' \<Longrightarrow> obeys G [] p \<Longrightarrow> guarded G tr"
  unfolding guarded_def using obeys_steps[where h = "[]"] by fastforce

lemma obeys_bind:
  assumes "obeys G h m" "\<And>tr x. runs m tr x \<Longrightarrow> obeys G (h @ tr) (f x)"
  shows "obeys G h (bind m f)"
  using assms
proof (induction m arbitrary: h)
  case (Ret x)
  then show ?case using Ret(2)[of "[]" x] by simp
next
  case (Call q k)
  show ?case
    unfolding bind.simps obeys.simps
  proof (intro conjI allI)
    show "G h q" using Call.prems by simp
    fix r
    show "obeys G (h @ [(q, r)]) (bind (k r) f)"
    proof (rule Call.IH)
      show "obeys G (h @ [(q, r)]) (k r)" using Call.prems by simp
      show "obeys G ((h @ [(q, r)]) @ tr) (f x)" if "runs (k r) tr x" for tr x
        using Call.prems(2)[of "(q, r) # tr" x] that by (simp add: runs_Call)
    qed simp
  qed
qed simp

lemma guarded_Nil [simp]: "guarded G []"
  by (simp add: guarded_def)

lemma guarded_snoc: "guarded G (tr @ [(q, r)]) \<longleftrightarrow> guarded G tr \<and> G tr q"
  unfolding guarded_def
proof (intro iffI conjI allI impI)
  assume *: "\<forall>t1 q' r' t2. tr @ [(q, r)] = t1 @ (q', r') # t2 \<longrightarrow> G t1 q'"
  show "G tr q" using * by blast
  fix t1 q' r' t2 assume "tr = t1 @ (q', r') # t2"
  then show "G t1 q'" using * by simp
next
  fix t1 q' r' t2
  assume *: "(\<forall>t1 q r t2. tr = t1 @ (q, r) # t2 \<longrightarrow> G t1 q) \<and> G tr q"
    and eq: "tr @ [(q, r)] = t1 @ (q', r') # t2"
  show "G t1 q'"
  proof (cases t2 rule: rev_cases)
    case Nil then show ?thesis using * eq by simp
  next
    case (snoc t e) then show ?thesis using * eq by auto
  qed
qed

lemma obeys_calls [bind_simps]:
  "obeys G h (utc_now f1) \<longleftrightarrow> G h UtcNow \<and> (\<forall>x. obeys G (h @ [(UtcNow, RUtc x)]) (f1 x))"
  "obeys G h (now_v7 f3) \<longleftrightarrow> G h NowV7 \<and> (\<forall>x. obeys G (h @ [(NowV7, RUuid x)]) (f3 x))"
  "obeys G h (tok_put k v f5) \<longleftrightarrow> G h (TokPut k v) \<and> (\<forall>x. obeys G (h @ [(TokPut k v, RDone x)]) (f5 x))"
  "obeys G h (tok_get k f6) \<longleftrightarrow> G h (TokGet k) \<and> (\<forall>x. obeys G (h @ [(TokGet k, RTok x)]) (f6 x))"
  "obeys G h (tok_update_if k v n f5) \<longleftrightarrow>
     G h (TokUpdateIf k v n) \<and> (\<forall>x. obeys G (h @ [(TokUpdateIf k v n, RDone x)]) (f5 x))"
  "obeys G h (fam_put k w f5) \<longleftrightarrow> G h (FamPut k w) \<and> (\<forall>x. obeys G (h @ [(FamPut k w, RDone x)]) (f5 x))"
  "obeys G h (fam_get k f7) \<longleftrightarrow> G h (FamGet k) \<and> (\<forall>x. obeys G (h @ [(FamGet k, RFam x)]) (f7 x))"
  by (auto simp: call_defs split: reply.split)

lemma obeys_cases [bind_simps]:
  "obeys G h (case s of Inl e \<Rightarrow> a e | Inr x \<Rightarrow> b x) \<longleftrightarrow>
     (\<forall>e. s = Inl e \<longrightarrow> obeys G h (a e)) \<and> (\<forall>x. s = Inr x \<longrightarrow> obeys G h (b x))"
  "obeys G h (case oo of None \<Rightarrow> p | Some x \<Rightarrow> c x) \<longleftrightarrow>
     (oo = None \<longrightarrow> obeys G h p) \<and> (\<forall>x. oo = Some x \<longrightarrow> obeys G h (c x))"
  "obeys G h (case pr of (x, y) \<Rightarrow> d x y) \<longleftrightarrow> (\<forall>x y. pr = (x, y) \<longrightarrow> obeys G h (d x y))"
  "obeys G h (if t then p else q) \<longleftrightarrow> (t \<longrightarrow> obeys G h p) \<and> (\<not> t \<longrightarrow> obeys G h q)"
  by (auto split: sum.splits option.splits prod.splits)

section \<open>A world, and running a program on it\<close>

text \<open>The outside answers a request and moves on: an argument of everything that runs.\<close>

type_synonym 'w world = "request \<Rightarrow> 'w \<Rightarrow> reply \<times> 'w"

primrec exec :: "'w world \<Rightarrow> 'a prog \<Rightarrow> 'w \<Rightarrow> 'a option \<times> 'w" where
  "exec W (Ret x) = (\<lambda>w. (Some x, w))"
| "exec W Panic = (\<lambda>w. (None, w))"
| "exec W (Call q k) = (\<lambda>w. case W q w of (r, w') \<Rightarrow> exec W (k r) w')"

text \<open>\<open>follows W w log w'\<close>: the world gave these replies to these requests, one after the other.\<close>

inductive follows :: "'w world \<Rightarrow> 'w \<Rightarrow> event list \<Rightarrow> 'w \<Rightarrow> bool" for W where
  start: "follows W w [] w"
| reply: "W q w = (r, w1) \<Longrightarrow> follows W w1 log w' \<Longrightarrow> follows W w ((q, r) # log) w'"

inductive_simps follows_Nil_iff [simp]: "follows W w [] w'"
inductive_cases follows_ConsE: "follows W w (e # log) w'"

lemma follows_Cons_iff:
  "follows W w ((q, r) # log) w' \<longleftrightarrow> (\<exists>w1. W q w = (r, w1) \<and> follows W w1 log w')"
  by (auto elim: follows_ConsE intro: follows.intros)

lemma follows_append_iff:
  "follows W w (l1 @ l2) w' \<longleftrightarrow> (\<exists>w1. follows W w l1 w1 \<and> follows W w1 l2 w')"
proof (induction l1 arbitrary: w)
  case (Cons e l1)
  then show ?case by (cases e) (auto simp: follows_Cons_iff)
qed simp

lemma exec_runs: "exec W p w = (Some x, w') \<Longrightarrow> \<exists>tr. runs p tr x \<and> follows W w tr w'"
proof (induction p arbitrary: w)
  case (Call q k)
  obtain r w1 where r: "W q w = (r, w1)" by (cases "W q w") auto
  with Call.prems have "exec W (k r) w1 = (Some x, w')" by simp
  with Call.IH[of "k r"] obtain tr where "runs (k r) tr x" "follows W w1 tr w'" by auto
  with r show ?case
    by (intro exI[of _ "(q, r) # tr"]) (auto simp: runs_Call follows_Cons_iff)
qed auto

lemma runs_exec: "runs p tr x \<Longrightarrow> follows W w tr w' \<Longrightarrow> exec W p w = (Some x, w')"
proof (induction p arbitrary: tr w)
  case (Call q k)
  then obtain r tr' where tr: "tr = (q, r) # tr'" "runs (k r) tr' x" by (auto simp: runs_Call)
  with Call.prems obtain w1 where "W q w = (r, w1)" "follows W w1 tr' w'"
    by (auto simp: follows_Cons_iff)
  with tr Call.IH[of "k r"] show ?case by auto
qed auto

lemma exec_iff: "exec W p w = (Some x, w') \<longleftrightarrow> (\<exists>tr. runs p tr x \<and> follows W w tr w')"
  using exec_runs runs_exec by metis

lemma exec_bind:
  "exec W (bind m f) w = (case exec W m w of (None, w') \<Rightarrow> (None, w') | (Some x, w') \<Rightarrow> exec W (f x) w')"
  by (induction m arbitrary: w) (auto split: prod.splits)

section \<open>Concurrent tasks\<close>

text \<open>
  A pool of tasks, numbered; a schedule names the task that moves next. One move is one request
  answered by the world. A task that has returned or panicked does not move. The result also
  lists what happened, with the task that did it.
\<close>

type_synonym 'a pool = "nat \<Rightarrow> 'a prog"

fun pool_exec ::
  "'w world \<Rightarrow> nat list \<Rightarrow> 'a pool \<Rightarrow> 'w \<Rightarrow> 'a pool \<times> 'w \<times> (nat \<times> event) list" where
  "pool_exec W [] P w = (P, w, [])"
| "pool_exec W (i # is) P w =
     (case P i of
        Call q k \<Rightarrow>
          (case W q w of (r, w1) \<Rightarrow>
             case pool_exec W is (P(i := k r)) w1 of (P', w', log) \<Rightarrow> (P', w', (i, q, r) # log))
      | _ \<Rightarrow> pool_exec W is P w)"

definition by_task :: "nat \<Rightarrow> (nat \<times> event) list \<Rightarrow> event list" where
  "by_task i log = map snd (filter (\<lambda>e. fst e = i) log)"

lemma by_task_simps [simp]:
  "by_task i [] = []"
  "by_task i ((j, e) # log) = (if i = j then e # by_task i log else by_task i log)"
  "by_task i (l1 @ l2) = by_task i l1 @ by_task i l2"
  by (auto simp: by_task_def)

text \<open>What a pool does is a log of the world in which each task sees a run of its own program.\<close>

lemma pool_exec_follows:
  "pool_exec W sched P w = (P', w', log) \<Longrightarrow> follows W w (map snd log) w'"
proof (induction W sched P w arbitrary: P' w' log rule: pool_exec.induct)
  case (2 W i "is" P w)
  show ?case
  proof (cases "P i")
    case (Call q k)
    obtain r w1 where r: "W q w = (r, w1)" by (cases "W q w") auto
    obtain Q v l where Q: "pool_exec W is (P(i := k r)) w1 = (Q, v, l)" by (metis prod_cases3)
    with "2.prems" Call r have "P' = Q" "w' = v" "log = (i, q, r) # l" by auto
    with "2.IH"(3)[OF Call r[symmetric] Q] r show ?thesis by (auto simp: follows_Cons_iff)
  qed (use 2 in auto)
qed auto

lemma pool_exec_steps:
  "pool_exec W sched P w = (P', w', log) \<Longrightarrow> steps (P i) (by_task i log) (P' i)"
proof (induction W sched P w arbitrary: P' w' log rule: pool_exec.induct)
  case (2 W j "is" P w)
  show ?case
  proof (cases "P j")
    case (Call q k)
    obtain r w1 where r: "W q w = (r, w1)" by (cases "W q w") auto
    obtain Q v l where Q: "pool_exec W is (P(j := k r)) w1 = (Q, v, l)" by (metis prod_cases3)
    with "2.prems" Call r have eq: "P' = Q" "w' = v" "log = (j, q, r) # l" by auto
    have "steps ((P(j := k r)) i) (by_task i l) (Q i)"
      using "2.IH"(3)[OF Call r[symmetric] Q] .
    then show ?thesis using eq Call by (auto split: if_splits intro: steps.call)
  qed (use 2 in auto)
qed (auto intro: steps.here)

section \<open>Replaying a run\<close>

text \<open>\<open>feed p tr\<close> replays \<open>p\<close> on recorded replies: the executable form of \<open>steps\<close>.\<close>

fun feed :: "'a prog \<Rightarrow> event list \<Rightarrow> 'a prog option" where
  "feed p [] = Some p"
| "feed (Call q k) ((q', r) # tr) = (if q = q' then feed (k r) tr else None)"
| "feed _ _ = None"

lemma feed_steps: "feed p tr = Some p' \<longleftrightarrow> steps p tr p'"
proof (induction p tr rule: feed.induct)
  case (2 q k q' r tr)
  then show ?case by (auto simp: steps_Call_iff)
qed (auto simp: steps_Nil_iff steps_Ret_iff steps_Panic_iff)

definition feed_result :: "'a prog \<Rightarrow> event list \<Rightarrow> 'a option" where
  "feed_result p tr = (case feed p tr of Some (Ret x) \<Rightarrow> Some x | _ \<Rightarrow> None)"

lemma feed_runs: "runs p tr x \<longleftrightarrow> feed_result p tr = Some x"
  by (auto simp: runs_def feed_steps[symmetric] feed_result_def split: option.splits prog.splits)

text \<open>A program does one thing on the replies it gets.\<close>

lemma runs_unique: "runs p tr x \<Longrightarrow> runs p tr y \<Longrightarrow> x = y"
  by (simp add: feed_runs)

text \<open>
  Replaying a log: the world must give the logged replies. A log that the world replays, and in
  which each task makes the steps of its own program, is what the pool does under its schedule.
\<close>

fun replay :: "'w world \<Rightarrow> 'w \<Rightarrow> event list \<Rightarrow> 'w option" where
  "replay W w [] = Some w"
| "replay W w ((q, r) # log) = (case W q w of (r', w1) \<Rightarrow> if r' = r then replay W w1 log else None)"

lemma replay_follows: "replay W w log = Some w' \<longleftrightarrow> follows W w log w'"
  by (induction W w log rule: replay.induct) (auto simp: follows_Cons_iff split: prod.splits)

lemma pool_of_steps:
  assumes "follows W w (map snd log) w'" "\<And>i. steps (P i) (by_task i log) (P' i)"
  shows "pool_exec W (map fst log) P w = (P', w', log)"
  using assms
proof (induction log arbitrary: P w)
  case Nil
  then have "P i = P' i" for i by (simp add: steps_Nil_iff)
  with Nil show ?case by auto
next
  case (Cons e log)
  obtain i q r where e: "e = (i, q, r)" by (cases e)
  from Cons.prems(1) obtain w1 where w1: "W q w = (r, w1)" "follows W w1 (map snd log) w'"
    by (auto simp: e follows_Cons_iff)
  have "steps (P i) ((q, r) # by_task i log) (P' i)" using Cons.prems(2)[of i] by (simp add: e)
  then obtain k where k: "P i = Call q k" "steps (k r) (by_task i log) (P' i)"
    by (cases "P i") (auto simp: steps_Call_iff steps_Ret_iff steps_Panic_iff)
  have "steps ((P(i := k r)) j) (by_task j log) (P' j)" for j
    using Cons.prems(2)[of j] k(2) by (cases "j = i") (simp_all add: e)
  then have "pool_exec W (map fst log) (P(i := k r)) w1 = (P', w', log)" by (rule Cons.IH[OF w1(2)])
  with k(1) w1(1) show ?case by (simp only: e list.map fst_conv pool_exec.simps prog.case prod.case)
qed

end
