(* ===== verification/Bearer.thy ===== *)
theory Bearer
  imports Effects
begin

text \<open>
  The bearer wire and its two ends: \<open>crates/br-auth-contract\<close> (key, destination, entry, \<open>seal\<close>
  and \<open>open\<close>), \<open>crates/br-auth-identity-util\<close> (\<open>BearerPublisher\<close>) and
  \<open>src/bearer_validator.rs\<close> (\<open>BearerValidator\<close>). The publisher and the validator share a bucket
  with other writers; what ties a sealed value to its token is the associated data.
\<close>

section \<open>Errors\<close>

datatype auth_contract_error =
    InvalidKeyLength nat
  | NonceNotBase64
  | CiphertextNotBase64
  | InvalidNonceLength nat
  | Serialize string
  | AeadFailed
  | Deserialize string

fun contract_error_to_string :: "auth_contract_error \<Rightarrow> string" where
  "contract_error_to_string (InvalidKeyLength n) = ''seal key must be 32 bytes, got '' @ show_nat n"
| "contract_error_to_string NonceNotBase64 = ''sealed nonce is not valid base64''"
| "contract_error_to_string CiphertextNotBase64 = ''sealed ciphertext is not valid base64''"
| "contract_error_to_string (InvalidNonceLength n) = ''sealed nonce must be 12 bytes, got '' @ show_nat n"
| "contract_error_to_string (Serialize m) = ''serializing the bearer entry failed: '' @ m"
| "contract_error_to_string AeadFailed =
     ''the sealed bearer could not be opened (wrong key or tampered ciphertext)''"
| "contract_error_to_string (Deserialize m) =
     ''the opened plaintext is not a valid bearer entry: '' @ m"

section \<open>Key and destination\<close>

definition BEARER_SEAL_KEY_LEN :: nat where "BEARER_SEAL_KEY_LEN = 32"

datatype bearer_seal_key = BearerSealKey (seal_key_bytes: bytes)

definition seal_key_from_bytes :: "bytes \<Rightarrow> auth_contract_error + bearer_seal_key" where
  "seal_key_from_bytes b =
     (if length b = BEARER_SEAL_KEY_LEN then Inr (BearerSealKey b)
      else Inl (InvalidKeyLength (length b)))"

definition BEARER_TOKENS_KEY_PREFIX :: string where
  "BEARER_TOKENS_KEY_PREFIX = ''identity/bearer_tokens/''"

definition bearer_token_kv_key :: "lib \<Rightarrow> string \<Rightarrow> string" where
  "bearer_token_kv_key L token = BEARER_TOKENS_KEY_PREFIX @ core_bearer_token_key L token"

section \<open>The entry\<close>

record bearer_entry =
  be_actor :: actor
  be_token_id :: uuid

definition bearer_entry_to_json :: "lib \<Rightarrow> bearer_entry \<Rightarrow> json" where
  "bearer_entry_to_json L e =
     JObj [(''actor'', actor_to_json L (be_actor e)),
           (''token_id'', JStr (uuid_to_string L (be_token_id e)))]"

text \<open>
  The derived \<open>Deserialize\<close> with \<open>deny_unknown_fields\<close>. serde\_json reads a struct from an object
  or from an array of its fields in order, and refuses a field given twice.
\<close>

definition closed_struct :: "string list \<Rightarrow> json \<Rightarrow> (string \<times> json) list option" where
  "closed_struct names j =
     (case j of
        JObj fs \<Rightarrow> if list_all (\<lambda>f. fst f \<in> set names) fs \<and> distinct (map fst fs) then Some fs else None
      | JArr vs \<Rightarrow> if length vs = length names then Some (zip names vs) else None
      | _ \<Rightarrow> None)"

definition bearer_entry_of_json :: "lib \<Rightarrow> json \<Rightarrow> string + bearer_entry" where
  "bearer_entry_of_json L j =
     (case closed_struct [''actor'', ''token_id''] j of
        Some fs \<Rightarrow>
          (case (Option.bind (map_of fs ''actor'') (actor_of_json L),
                 Option.bind (Option.bind (map_of fs ''token_id'') json_as_str) (uuid_parse_str L)) of
             (Some a, Some i) \<Rightarrow> Inr \<lparr>be_actor = a, be_token_id = i\<rparr>
           | _ \<Rightarrow> Inl (serde_error L j))
      | None \<Rightarrow> Inl (serde_error L j))"

section \<open>Sealing and opening\<close>

definition NONCE_LEN :: nat where "NONCE_LEN = 12"

definition seal ::
  "lib \<Rightarrow> bearer_seal_key \<Rightarrow> string \<Rightarrow> bearer_entry \<Rightarrow> (auth_contract_error + sealed_bearer) prog" where
  "seal L key token entry =
     (case json_to_vec L (bearer_entry_to_json L entry) of
        Inl e \<Rightarrow> Ret (Inl (Serialize e))
      | Inr plaintext \<Rightarrow>
          (let aad = core_bearer_token_key L token in
           gen_nonce (\<lambda>nonce.
             Ret (case aead_encrypt L (seal_key_bytes key) nonce (as_bytes aad) plaintext of
                    None \<Rightarrow> Inl AeadFailed
                  | Some ciphertext \<Rightarrow>
                      Inr \<lparr>sb_nonce = b64_encode L nonce, sb_ciphertext = b64_encode L ciphertext\<rparr>))))"

definition open_sealed ::
  "lib \<Rightarrow> bearer_seal_key \<Rightarrow> string \<Rightarrow> sealed_bearer \<Rightarrow> auth_contract_error + bearer_entry" where
  "open_sealed L key token sealed =
     (case b64_decode L (sb_nonce sealed) of
        None \<Rightarrow> Inl NonceNotBase64
      | Some nonce_bytes \<Rightarrow>
          if length nonce_bytes \<noteq> NONCE_LEN then Inl (InvalidNonceLength (length nonce_bytes))
          else (case b64_decode L (sb_ciphertext sealed) of
             None \<Rightarrow> Inl CiphertextNotBase64
           | Some ciphertext \<Rightarrow>
               (let aad = core_bearer_token_key L token in
                case aead_decrypt L (seal_key_bytes key) nonce_bytes (as_bytes aad) ciphertext of
                  None \<Rightarrow> Inl AeadFailed
                | Some plaintext \<Rightarrow>
                    (case json_from_slice L plaintext of
                       Inl e \<Rightarrow> Inl (Deserialize e)
                     | Inr j \<Rightarrow>
                         (case bearer_entry_of_json L j of
                            Inl e \<Rightarrow> Inl (Deserialize e)
                          | Inr entry \<Rightarrow> Inr entry)))))"

section \<open>src/bearer\_validator.rs\<close>

definition HEALTH_PROBE_KEY :: string where
  "HEALTH_PROBE_KEY = ''identity/bearer_tokens/__health_probe__''"

datatype bearer_validator_error =
    BearerOpen fabric_error
  | BearerKey string
  | BearerRead fabric_error

definition resolve ::
  "lib \<Rightarrow> bearer_seal_key \<Rightarrow> string \<Rightarrow> (bearer_validator_error + bearer_entry option) prog" where
  "resolve L key token =
     (case kv_key_new L (bearer_token_kv_key L token) of
        Inl e \<Rightarrow> Ret (Inl (BearerKey e))
      | Inr kv_key \<Rightarrow> pl_get kv_key (\<lambda>res.
          Ret (case res of
                 Inr (Some sealed) \<Rightarrow>
                   Inr (case open_sealed L key token sealed of Inr e \<Rightarrow> Some e | Inl _ \<Rightarrow> None)
               | Inr None \<Rightarrow> Inr None
               | Inl e \<Rightarrow> Inl (BearerRead e))))"

definition bearer_is_healthy :: "lib \<Rightarrow> bool prog" where
  "bearer_is_healthy L =
     (case kv_key_new L HEALTH_PROBE_KEY of
        Inr probe \<Rightarrow> pl_get probe (\<lambda>res. Ret (case res of Inr _ \<Rightarrow> True | Inl _ \<Rightarrow> False))
      | Inl _ \<Rightarrow> Ret False)"

section \<open>crates/br-auth-identity-util\<close>

datatype bearer_publish_error =
  Bind string | PubSeal string | PubKey string | PubPut string | PubDelete string

text \<open>\<open>BearerPublisher::open\<close>: the fabric binds the bucket; the publisher keeps the seal key.\<close>

definition publisher_open :: "fabric_error + unit \<Rightarrow> bearer_seal_key \<Rightarrow> bearer_publish_error + bearer_seal_key" where
  "publisher_open publisher key =
     (case publisher of Inl e \<Rightarrow> Inl (Bind (fabric_error_to_string e)) | Inr _ \<Rightarrow> Inr key)"

definition bearer_kv_key :: "lib \<Rightarrow> string \<Rightarrow> bearer_publish_error + kv_key" where
  "bearer_kv_key L token =
     (case kv_key_new L (bearer_token_kv_key L token) of Inl e \<Rightarrow> Inl (PubKey e) | Inr k \<Rightarrow> Inr k)"

definition put_bearer ::
  "lib \<Rightarrow> bearer_seal_key \<Rightarrow> string \<Rightarrow> bearer_entry \<Rightarrow> (bearer_publish_error + unit) prog" where
  "put_bearer L key token entry =
     bind (seal L key token entry) (\<lambda>res.
       case res of
         Inl e \<Rightarrow> Ret (Inl (PubSeal (contract_error_to_string e)))
       | Inr sealed \<Rightarrow>
           (case bearer_kv_key L token of
              Inl e \<Rightarrow> Ret (Inl e)
            | Inr kv_key \<Rightarrow> pl_put kv_key sealed (\<lambda>res.
                Ret (case res of Inl e \<Rightarrow> Inl (PubPut (fabric_error_to_string e)) | Inr u \<Rightarrow> Inr u))))"

definition delete_bearer :: "lib \<Rightarrow> string \<Rightarrow> (bearer_publish_error + unit) prog" where
  "delete_bearer L token =
     (case bearer_kv_key L token of
        Inl e \<Rightarrow> Ret (Inl e)
      | Inr kv_key \<Rightarrow> pl_retract kv_key (\<lambda>res.
          Ret (case res of Inl e \<Rightarrow> Inl (PubDelete (fabric_error_to_string e)) | Inr u \<Rightarrow> Inr u)))"

section \<open>Lemmas\<close>

lemma bearer_entry_roundtrip:
  assumes "uuid_ok L" "actor_json_ok L"
  shows "bearer_entry_of_json L (bearer_entry_to_json L e) = Inr e"
  using assms by (simp add: bearer_entry_of_json_def bearer_entry_to_json_def closed_struct_def uuid_ok_def actor_json_ok_def)

lemma bearer_entry_of_json_closed:
  "bearer_entry_of_json L (JObj fs) = Inr e \<Longrightarrow> fst ` set fs \<subseteq> {''actor'', ''token_id''}"
  by (auto simp: bearer_entry_of_json_def closed_struct_def list_all_iff split: if_splits)

text \<open>What \<open>seal\<close> returns is a fresh nonce and a ciphertext bound to key, nonce and token hash.\<close>

lemma runs_seal_ok:
  "runs (seal L key token entry) tr (Inr s) \<longleftrightarrow>
     (\<exists>p n c. json_to_vec L (bearer_entry_to_json L entry) = Inr p \<and>
        tr = [(GenNonce, RNonce n)] \<and>
        aead_encrypt L (seal_key_bytes key) n (as_bytes (core_bearer_token_key L token)) p = Some c \<and>
        s = \<lparr>sb_nonce = b64_encode L n, sb_ciphertext = b64_encode L c\<rparr>)"
  by (auto simp: seal_def Let_def runs_simps split: option.split_asm)

lemma open_sealed_ok:
  "open_sealed L key token s = Inr e \<longleftrightarrow>
     (\<exists>n c p j. b64_decode L (sb_nonce s) = Some n \<and> length n = NONCE_LEN \<and>
        b64_decode L (sb_ciphertext s) = Some c \<and>
        aead_decrypt L (seal_key_bytes key) n (as_bytes (core_bearer_token_key L token)) c = Some p \<and>
        json_from_slice L p = Inr j \<and> bearer_entry_of_json L j = Inr e)"
  by (auto simp: open_sealed_def Let_def split: option.splits sum.splits if_splits)

lemma runs_resolve:
  "runs (resolve L key token) tr res \<longleftrightarrow>
     (\<exists>e. kv_key_new L (bearer_token_kv_key L token) = Inl e \<and> tr = [] \<and> res = Inl (BearerKey e)) \<or>
     (\<exists>k x. kv_key_new L (bearer_token_kv_key L token) = Inr k \<and> tr = [(PlGet k, RSealed x)] \<and>
        res = (case x of
                 Inr (Some s) \<Rightarrow> Inr (case open_sealed L key token s of Inr e \<Rightarrow> Some e | Inl _ \<Rightarrow> None)
               | Inr None \<Rightarrow> Inr None
               | Inl e \<Rightarrow> Inl (BearerRead e)))"
  by (auto simp: resolve_def runs_simps)

lemma runs_resolve_Some:
  "runs (resolve L key token) tr (Inr (Some e)) \<longleftrightarrow>
     (\<exists>k s. kv_key_new L (bearer_token_kv_key L token) = Inr k \<and> tr = [(PlGet k, RSealed (Inr (Some s)))] \<and>
        open_sealed L key token s = Inr e)"
  unfolding runs_resolve by (auto split: sum.split_asm option.split_asm)

text \<open>What a publisher seals opens again under the same key, for the same token.\<close>

definition bearer_laws :: "lib \<Rightarrow> bool" where
  "bearer_laws L \<longleftrightarrow> aead_ok L \<and> b64_ok L \<and> json_text_ok L \<and> uuid_ok L \<and> actor_json_ok L"

definition nonces_ok :: "event list \<Rightarrow> bool" where
  "nonces_ok tr \<longleftrightarrow> (\<forall>n. (GenNonce, RNonce n) \<in> set tr \<longrightarrow> length n = NONCE_LEN)"

lemma nonces_ok_simps [simp]:
  "nonces_ok []" "nonces_ok (t1 @ t2) \<longleftrightarrow> nonces_ok t1 \<and> nonces_ok t2"
  "nonces_ok ((GenNonce, RNonce n) # tr) \<longleftrightarrow> length n = NONCE_LEN \<and> nonces_ok tr"
  by (auto simp: nonces_ok_def)

lemma encrypted_opens:
  assumes "bearer_laws L" "json_to_vec L (bearer_entry_to_json L e) = Inr p" "length n = NONCE_LEN"
    "aead_encrypt L (seal_key_bytes key) n (as_bytes (core_bearer_token_key L token)) p = Some c"
  shows "open_sealed L key token \<lparr>sb_nonce = b64_encode L n, sb_ciphertext = b64_encode L c\<rparr> = Inr e"
proof -
  have "json_from_slice L p = Inr (bearer_entry_to_json L e)"
    "aead_decrypt L (seal_key_bytes key) n (as_bytes (core_bearer_token_key L token)) c = Some p"
    "b64_decode L (b64_encode L b) = Some b" for b
    using assms(1,2,4) unfolding bearer_laws_def json_text_ok_def aead_ok_def b64_ok_def by blast+
  then show ?thesis using assms(1,3) by (simp add: open_sealed_ok bearer_laws_def bearer_entry_roundtrip)
qed

lemma seal_opens:
  assumes "bearer_laws L" "runs (seal L key token e) tr (Inr s)" "nonces_ok tr"
  shows "open_sealed L key token s = Inr e"
  using assms(2,3) unfolding runs_seal_ok by (auto intro!: encrypted_opens[OF assms(1)])

lemma runs_put_bearer_ok:
  "runs (put_bearer L key token e) tr (Inr ()) \<longleftrightarrow>
     (\<exists>t s k. runs (seal L key token e) t (Inr s) \<and> kv_key_new L (bearer_token_kv_key L token) = Inr k \<and>
        tr = t @ [(PlPut k s, RDone (Inr ()))])"
  by (auto simp: put_bearer_def bearer_kv_key_def runs_simps split: sum.split_asm) blast

lemma runs_delete_bearer_ok:
  "runs (delete_bearer L token) tr (Inr ()) \<longleftrightarrow>
     (\<exists>k. kv_key_new L (bearer_token_kv_key L token) = Inr k \<and> tr = [(PlRetract k, RDone (Inr ()))])"
  by (auto simp: delete_bearer_def bearer_kv_key_def runs_simps split: sum.split_asm)

text \<open>
  What opens for a token was sealed for it: its ciphertext is the encryption, under the key and
  with the token's own hash as associated data, of a document that reads as the entry.
\<close>

lemma opened_was_sealed:
  assumes "aead_ok L" "open_sealed L key token s = Inr e"
  shows "\<exists>n c p j. b64_decode L (sb_nonce s) = Some n \<and> length n = NONCE_LEN \<and>
    b64_decode L (sb_ciphertext s) = Some c \<and>
    aead_encrypt L (seal_key_bytes key) n (as_bytes (core_bearer_token_key L token)) p = Some c \<and>
    json_from_slice L p = Inr j \<and> bearer_entry_of_json L j = Inr e"
proof -
  have "aead_decrypt L k n a c = Some m \<Longrightarrow> aead_encrypt L k n a m = Some c" for k n a m c
    using assms(1) unfolding aead_ok_def by blast
  with assms(2) show ?thesis unfolding open_sealed_ok by metis
qed

lemma as_bytes_inj: "as_bytes s = as_bytes t \<longleftrightarrow> s = t"
proof
  have "(of_char c :: nat) = unat (word_of_nat (of_char c) :: 8 word)" for c
    using nat_of_char_less_256[of c] by (simp add: unat_of_nat take_bit_eq_mod)
  then have "inj (\<lambda>c. word_of_nat (of_char c) :: 8 word)" by (metis injI of_char_eq_iff)
  moreover assume "as_bytes s = as_bytes t"
  ultimately show "s = t" unfolding as_bytes_def by (simp add: inj_map_eq_map)
qed simp

text \<open>A sealed value that is moved under another token's key does not open there.\<close>

lemma relocated_fails:
  assumes "aead_binds L" "b64_ok L" "runs (seal L key a e) tr (Inr s)"
    "core_bearer_token_key L b \<noteq> core_bearer_token_key L a"
  shows "open_sealed L key b s \<noteq> Inr e'"
proof
  assume "open_sealed L key b s = Inr e'"
  moreover from assms(3) obtain p n c where "aead_encrypt L (seal_key_bytes key) n (as_bytes (core_bearer_token_key L a)) p = Some c"
    "s = \<lparr>sb_nonce = b64_encode L n, sb_ciphertext = b64_encode L c\<rparr>"
    unfolding runs_seal_ok by blast
  ultimately obtain p' where "aead_encrypt L (seal_key_bytes key) n (as_bytes (core_bearer_token_key L a)) p = Some c"
    "aead_decrypt L (seal_key_bytes key) n (as_bytes (core_bearer_token_key L b)) c = Some p'"
    using assms(2) by (auto simp: open_sealed_ok b64_ok_def)
  then have "as_bytes (core_bearer_token_key L b) = as_bytes (core_bearer_token_key L a)"
    using assms(1) unfolding aead_binds_def by blast
  with assms(4) show False by (simp add: as_bytes_inj)
qed

end
