(* ===== verification/Oidc.thy ===== *)
theory Oidc
  imports Effects
begin

text \<open>
  \<open>src/oidc_validator.rs\<close>: discovery of the providers, selection of the provider by the
  unverified issuer, resolution of the signing key through the JWKS cache (with its
  cooldown-gated refresh), verification of the id token and extraction of the e-mail. The cache
  (\<open>RwLock<JwkSet>\<close>) and the refresh time (\<open>Mutex<Instant>\<close>) of a provider are shared by all
  tasks: they are requests, addressed by the provider's index, and each guard scope is one step.
\<close>

section \<open>State\<close>

record oidc_provider_config =
  pc_name :: string
  pc_discovery_url :: string
  pc_client_id :: string
  pc_email_claim :: string

record oidc_provider =
  op_name :: string
  op_issuer :: string
  op_client_id :: string
  op_email_claim :: string
  op_jwks_uri :: string
  op_refresh_cooldown :: nat  \<comment> \<open>nanoseconds\<close>

type_synonym oidc_validator = "oidc_provider list"

record oidc_claims =
  oc_email :: string

text \<open>Message text: a value in single quotes.\<close>

definition quoted :: "string \<Rightarrow> string" where
  "quoted s = [CHR 0x27] @ s @ [CHR 0x27]"

section \<open>Discovery\<close>

definition trim_end_slashes :: "string \<Rightarrow> string" where
  "trim_end_slashes s = rev (dropWhile (\<lambda>c. c = CHR ''/'') (rev s))"

definition discover_one ::
  "lib \<Rightarrow> nat \<Rightarrow> oidc_provider_config \<Rightarrow> (string + oidc_provider \<times> jwk_set \<times> instant) prog" where
  "discover_one L cooldown cfg =
     http_get (trim_end_slashes (pc_discovery_url cfg) @ ''/.well-known/openid-configuration'') (\<lambda>sent.
       case sent of
         Inl e \<Rightarrow> Ret (Inl (''OIDC discovery failed for '' @ pc_name cfg @ '': '' @ e))
       | Inr (Inl e) \<Rightarrow> Ret (Inl (''OIDC discovery parse failed for '' @ pc_name cfg @ '': '' @ e))
       | Inr (Inr body) \<Rightarrow>
         (case discovery_from_body L body of
            Inl e \<Rightarrow> Ret (Inl (''OIDC discovery parse failed for '' @ pc_name cfg @ '': '' @ e))
          | Inr discovery \<Rightarrow>
              http_get (dd_jwks_uri discovery) (\<lambda>sent.
                case sent of
                  Inl e \<Rightarrow> Ret (Inl (''JWKS fetch failed for '' @ pc_name cfg @ '': '' @ e))
                | Inr (Inl e) \<Rightarrow> Ret (Inl (''JWKS parse failed for '' @ pc_name cfg @ '': '' @ e))
                | Inr (Inr b) \<Rightarrow>
                    (case jwks_from_body L b of
                       Inl e \<Rightarrow> Ret (Inl (''JWKS parse failed for '' @ pc_name cfg @ '': '' @ e))
                     | Inr initial_jwks \<Rightarrow> instant_now (\<lambda>now.
                         Ret (Inr (\<lparr>op_name = pc_name cfg, op_issuer = dd_issuer discovery,
                                op_client_id = pc_client_id cfg, op_email_claim = pc_email_claim cfg,
                                op_jwks_uri = dd_jwks_uri discovery, op_refresh_cooldown = cooldown\<rparr>,
                              initial_jwks, now)))))))"

fun discover_all ::
  "lib \<Rightarrow> nat \<Rightarrow> oidc_provider_config list \<Rightarrow> (string + (oidc_provider \<times> jwk_set \<times> instant) list) prog" where
  "discover_all L cooldown [] = Ret (Inr [])"
| "discover_all L cooldown (cfg # cfgs) =
     bind (discover_one L cooldown cfg) (\<lambda>res.
       case res of
         Inl e \<Rightarrow> Ret (Inl e)
       | Inr p \<Rightarrow> bind (discover_all L cooldown cfgs) (\<lambda>rest.
           case rest of Inl e \<Rightarrow> Ret (Inl e) | Inr ps \<Rightarrow> Ret (Inr (p # ps))))"

text \<open>\<open>client\<close>: the result of building the \<open>reqwest\<close> client.\<close>

definition discover ::
  "lib \<Rightarrow> string + unit \<Rightarrow> oidc_provider_config list \<Rightarrow> nat \<Rightarrow>
     (string + (oidc_provider \<times> jwk_set \<times> instant) list) prog" where
  "discover L client cfgs cooldown =
     (case client of
        Inl e \<Rightarrow> Ret (Inl (''failed to build HTTP client: '' @ e))
      | Inr _ \<Rightarrow> discover_all L cooldown cfgs)"

section \<open>Keys\<close>

definition find_key :: "jwk_set \<Rightarrow> string \<Rightarrow> jwk option" where
  "find_key jwks kid = find (\<lambda>k. jwk_key_id k = Some kid) jwks"

fun key_algorithm_to_jwt :: "key_algorithm \<Rightarrow> algorithm option" where
  "key_algorithm_to_jwt KA_RS256 = Some RS256"
| "key_algorithm_to_jwt KA_RS384 = Some RS384"
| "key_algorithm_to_jwt KA_RS512 = Some RS512"
| "key_algorithm_to_jwt KA_ES256 = Some ES256"
| "key_algorithm_to_jwt KA_ES384 = Some ES384"
| "key_algorithm_to_jwt KA_PS256 = Some PS256"
| "key_algorithm_to_jwt KA_PS384 = Some PS384"
| "key_algorithm_to_jwt KA_PS512 = Some PS512"
| "key_algorithm_to_jwt KA_EdDSA = Some EdDSA"
| "key_algorithm_to_jwt (KA_Other _) = None"

text \<open>\<open>Instant::elapsed\<close> saturates at zero, as subtraction on \<open>nat\<close> does.\<close>

definition refresh_jwks :: "lib \<Rightarrow> nat \<Rightarrow> oidc_provider \<Rightarrow> (string + unit) prog" where
  "refresh_jwks L i p =
     last_read i (\<lambda>last. instant_now (\<lambda>now.
       if now - last < op_refresh_cooldown p then Ret (Inr ())
       else http_get (op_jwks_uri p) (\<lambda>sent.
         case sent of
           Inl e \<Rightarrow> Ret (Inl (''JWKS fetch failed for '' @ op_name p @ '': '' @ e))
         | Inr (Inl e) \<Rightarrow> Ret (Inl (''JWKS parse failed for '' @ op_name p @ '': '' @ e))
         | Inr (Inr body) \<Rightarrow>
             (case jwks_from_body L body of
                Inl e \<Rightarrow> Ret (Inl (''JWKS parse failed for '' @ op_name p @ '': '' @ e))
              | Inr new_keys \<Rightarrow>
                  jwks_write i new_keys (instant_now (\<lambda>now. last_write i now (Ret (Inr ()))))))))"

definition resolve_key :: "lib \<Rightarrow> nat \<Rightarrow> oidc_provider \<Rightarrow> string \<Rightarrow> (string + jwk) prog" where
  "resolve_key L i p kid =
     jwks_read i (\<lambda>keys.
       case find_key keys kid of
         Some jwk \<Rightarrow> Ret (Inr jwk)
       | None \<Rightarrow>
           bind (refresh_jwks L i p) (\<lambda>res.
             case res of
               Inl e \<Rightarrow> Ret (Inl e)
             | Inr _ \<Rightarrow> jwks_read i (\<lambda>keys.
                 Ret (case find_key keys kid of
                        Some jwk \<Rightarrow> Inr jwk
                      | None \<Rightarrow> Inl (''kid '' @ quoted kid @ '' not found in JWKS for provider '' @ op_name p @
                               '' (even after refresh)'')))))"

definition resolve_single_key :: "nat \<Rightarrow> oidc_provider \<Rightarrow> (string + jwk) prog" where
  "resolve_single_key i p =
     jwks_read i (\<lambda>keys.
       Ret (case keys of
              [k] \<Rightarrow> Inr k
            | [] \<Rightarrow> Inl (''JWKS for provider '' @ op_name p @ '' has no keys'')
            | _ \<Rightarrow> Inl (''id_token has no kid and JWKS for provider '' @ op_name p @ '' has '' @
                        show_nat (length keys) @ '' keys '' @ em_dash @ '' cannot pick one'')))"

section \<open>Tokens\<close>

definition decode_jwt_payload_unverified :: "lib \<Rightarrow> string \<Rightarrow> string + json" where
  "decode_jwt_payload_unverified L token =
     (let parts = split_on CHR ''.'' token in
      if length parts \<noteq> 3 then Inl ''invalid token format''
      else (case b64url_decode L (parts ! 1) of
              None \<Rightarrow> Inl ''invalid token encoding''
            | Some b \<Rightarrow>
                (case json_from_slice L b of
                   Inr (JObj fs) \<Rightarrow> Inr (JObj fs)
                 | _ \<Rightarrow> Inl ''invalid token payload'')))"

definition extract_email_from_payload :: "json \<Rightarrow> string \<Rightarrow> string + string" where
  "extract_email_from_payload payload email_claim =
     (let email = (case Option.bind (json_field payload email_claim) json_as_str of
                     Some e \<Rightarrow> e
                   | None \<Rightarrow> (case Option.bind (json_field payload ''email'') json_as_str of
                                Some e \<Rightarrow> e | None \<Rightarrow> []))
      in if email = [] then Inl (''no '' @ quoted email_claim @ '' or '' @ quoted ''email'' @ '' claim found in id_token'')
         else Inr email)"

section \<open>Verification of an id token\<close>

definition id_token_validation :: "lib \<Rightarrow> oidc_provider \<Rightarrow> algorithm \<Rightarrow> validation" where
  "id_token_validation L p alg =
     (jwt_validation_new L alg)\<lparr>v_iss := Some [op_issuer p], v_aud := Some [op_client_id p]\<rparr>"

text \<open>\<open>providers.iter().find(..)\<close>, with the index that addresses the provider's cache.\<close>

fun find_provider :: "nat \<Rightarrow> string \<Rightarrow> oidc_validator \<Rightarrow> (nat \<times> oidc_provider) option" where
  "find_provider i issuer [] = None"
| "find_provider i issuer (p # ps) =
     (if op_issuer p = issuer then Some (i, p) else find_provider (Suc i) issuer ps)"

definition is_json_object :: "json \<Rightarrow> bool" where
  "is_json_object j = (case j of JObj _ \<Rightarrow> True | _ \<Rightarrow> False)"

text \<open>The part of \<open>verify_id_token\<close> after the key is resolved; it reads the clock once.\<close>

definition verify_with_key ::
  "lib \<Rightarrow> oidc_provider \<Rightarrow> jwt_header \<Rightarrow> json \<Rightarrow> jwk \<Rightarrow> string \<Rightarrow> (string + oidc_claims) prog" where
  "verify_with_key L p header payload jwk id_token =
     (let alg = (case Option.bind (jwk_key_algorithm jwk) key_algorithm_to_jwt of
                   Some a \<Rightarrow> a | None \<Rightarrow> hdr_alg header)
      in case jwt_key_from_jwk L jwk of
           Inl e \<Rightarrow> Ret (Inl (''invalid JWK for kid '' @
             (case jwk_key_id jwk of Some kid \<Rightarrow> kid | None \<Rightarrow> ''unknown'') @ '': '' @ e))
         | Inr key \<Rightarrow> utc_now (\<lambda>t.
             case jwt_decode L key (id_token_validation L p alg) is_json_object (timestamp t) id_token of
               Inl e \<Rightarrow> Ret (Inl (''id_token verification failed for '' @ op_name p @ '': '' @
                          jwt_kind_to_string e))
             | Inr _ \<Rightarrow>
                 (case extract_email_from_payload payload (op_email_claim p) of
                    Inl e \<Rightarrow> Ret (Inl e)
                  | Inr email \<Rightarrow> Ret (Inr \<lparr>oc_email = email\<rparr>))))"

definition verify_id_token ::
  "lib \<Rightarrow> oidc_validator \<Rightarrow> string \<Rightarrow> (string + oidc_claims) prog" where
  "verify_id_token L providers id_token =
     (case decode_jwt_payload_unverified L id_token of
        Inl e \<Rightarrow> Ret (Inl e)
      | Inr payload \<Rightarrow>
          (case Option.bind (json_field payload ''iss'') json_as_str of
             None \<Rightarrow> Ret (Inl ''no iss claim in token'')
           | Some issuer \<Rightarrow>
               (case find_provider 0 issuer providers of
                  None \<Rightarrow> Ret (Inl (''no OIDC provider configured for issuer: '' @ issuer))
                | Some (i, provider) \<Rightarrow>
                    (case jwt_decode_header L id_token of
                       Inl e \<Rightarrow> Ret (Inl (''invalid token header: '' @ e))
                     | Inr header \<Rightarrow>
                         bind (case hdr_kid header of
                                 Some kid \<Rightarrow> resolve_key L i provider kid
                               | None \<Rightarrow> resolve_single_key i provider) (\<lambda>res.
                           case res of
                             Inl e \<Rightarrow> Ret (Inl e)
                           | Inr jwk \<Rightarrow> verify_with_key L provider header payload jwk id_token)))))"

section \<open>Lemmas\<close>

text \<open>The provider is the first one with the issuer.\<close>

lemma find_provider_Some:
  "find_provider n issuer ps = Some (i, p) \<Longrightarrow>
     \<exists>qs rs. ps = qs @ p # rs \<and> i = n + length qs \<and> op_issuer p = issuer \<and> (\<forall>q \<in> set qs. op_issuer q \<noteq> issuer)"
proof (induction ps arbitrary: n)
  case (Cons q ps)
  show ?case
  proof (cases "op_issuer q = issuer")
    case True
    with Cons.prems show ?thesis by (intro exI[of _ "[]"] exI[of _ ps]) auto
  next
    case False
    with Cons.prems Cons.IH[of "Suc n"] obtain qs rs where "ps = qs @ p # rs" "i = Suc n + length qs"
      "op_issuer p = issuer" "\<forall>q \<in> set qs. op_issuer q \<noteq> issuer" by auto
    with False show ?thesis by (intro exI[of _ "q # qs"] exI[of _ rs]) auto
  qed
qed simp

lemma find_provider_None: "find_provider n issuer ps = None \<longleftrightarrow> (\<forall>p \<in> set ps. op_issuer p \<noteq> issuer)"
  by (induction ps arbitrary: n) auto

lemma find_key_Some: "find_key ks kid = Some k \<Longrightarrow> k \<in> set ks \<and> jwk_key_id k = Some kid"
  by (auto simp: find_key_def find_Some_iff)

text \<open>A refresh of the keys: what a fetch gives, and every outcome with its requests.\<close>

definition fetched_keys :: "lib \<Rightarrow> oidc_provider \<Rightarrow> string + (string + string) \<Rightarrow> string + jwk_set" where
  "fetched_keys L p sent = (case sent of
     Inl e \<Rightarrow> Inl (''JWKS fetch failed for '' @ op_name p @ '': '' @ e)
   | Inr (Inl e) \<Rightarrow> Inl (''JWKS parse failed for '' @ op_name p @ '': '' @ e)
   | Inr (Inr body) \<Rightarrow> (case jwks_from_body L body of
       Inl e \<Rightarrow> Inl (''JWKS parse failed for '' @ op_name p @ '': '' @ e) | Inr ks \<Rightarrow> Inr ks))"

lemma refresh_jwks_eq:
  "refresh_jwks L i p =
     last_read i (\<lambda>last. instant_now (\<lambda>now.
       if now - last < op_refresh_cooldown p then Ret (Inr ())
       else http_get (op_jwks_uri p) (\<lambda>sent. case fetched_keys L p sent of
           Inl m \<Rightarrow> Ret (Inl m)
         | Inr ks \<Rightarrow> jwks_write i ks (instant_now (\<lambda>now. last_write i now (Ret (Inr ())))))))"
  unfolding refresh_jwks_def fetched_keys_def
  by (intro arg_cong[where f = "last_read i"] ext arg_cong[where f = instant_now] if_cong refl
      arg_cong[where f = "http_get (op_jwks_uri p)"]) (auto split: sum.split)

definition refresh_trace :: "lib \<Rightarrow> nat \<Rightarrow> oidc_provider \<Rightarrow> event list \<Rightarrow> string + unit \<Rightarrow> bool" where
  "refresh_trace L i p tr res \<longleftrightarrow> (\<exists>last now.
     (now - last < op_refresh_cooldown p \<and> tr = [(LastRead i, RMono last), (MonoNow, RMono now)] \<and> res = Inr ()) \<or>
     (\<exists>sent m. op_refresh_cooldown p \<le> now - last \<and> fetched_keys L p sent = Inl m \<and> res = Inl m \<and>
        tr = [(LastRead i, RMono last), (MonoNow, RMono now), (HttpGet (op_jwks_uri p), RHttp sent)]) \<or>
     (\<exists>sent ks t. op_refresh_cooldown p \<le> now - last \<and> fetched_keys L p sent = Inr ks \<and> res = Inr () \<and>
        tr = [(LastRead i, RMono last), (MonoNow, RMono now), (HttpGet (op_jwks_uri p), RHttp sent),
              (JwksWrite i ks, RUnit), (MonoNow, RMono t), (LastWrite i t, RUnit)]))"

lemma runs_refresh_jwks: "runs (refresh_jwks L i p) tr res \<longleftrightarrow> refresh_trace L i p tr res"
proof
  assume "runs (refresh_jwks L i p) tr res"
  then show "refresh_trace L i p tr res"
    unfolding refresh_jwks_eq refresh_trace_def runs_calls runs_if runs_case_sum runs_Ret not_less
    by (elim exE conjE disjE) auto
next
  assume "refresh_trace L i p tr res"
  then show "runs (refresh_jwks L i p) tr res"
    unfolding refresh_jwks_eq refresh_trace_def by (elim exE conjE disjE) (simp_all add: runs_calls)
qed

text \<open>Resolution of a key id: the cached keys, or the keys after one refresh.\<close>

lemma runs_resolve_key:
  assumes "runs (resolve_key L i p kid) tr (Inr k)"
  shows "jwk_key_id k = Some kid \<and> (\<exists>ks. (JwksRead i, RJwks ks) \<in> set tr \<and> k \<in> set ks) \<and>
    (\<forall>u r. (HttpGet u, r) \<in> set tr \<longrightarrow> (\<exists>ks t. tr = (JwksRead i, RJwks ks) # t \<and> find_key ks kid = None))"
proof -
  from assms obtain ks t where t: "tr = (JwksRead i, RJwks ks) # t"
    "runs (case find_key ks kid of Some jwk \<Rightarrow> Ret (Inr jwk)
       | None \<Rightarrow> bind (refresh_jwks L i p) (\<lambda>res. case res of
             Inl e \<Rightarrow> Ret (Inl e)
           | Inr _ \<Rightarrow> jwks_read i (\<lambda>keys.
                 Ret (case find_key keys kid of
                        Some jwk \<Rightarrow> Inr jwk
                      | None \<Rightarrow> Inl (''kid '' @ quoted kid @ '' not found in JWKS for provider '' @ op_name p @
                               '' (even after refresh)''))))) t (Inr k)"
    unfolding resolve_key_def runs_calls by (elim exE conjE) (rule that; assumption)
  show ?thesis
  proof (cases "find_key ks kid")
    case (Some j)
    then have "t = []" "k = j" using t(2) by simp_all
    then show ?thesis using find_key_Some[OF Some] t(1) by simp
  next
    case None
    then have "runs (bind (refresh_jwks L i p) (\<lambda>res. case res of
             Inl e \<Rightarrow> Ret (Inl e)
           | Inr _ \<Rightarrow> jwks_read i (\<lambda>keys.
                 Ret (case find_key keys kid of
                        Some jwk \<Rightarrow> Inr jwk
                      | None \<Rightarrow> Inl (''kid '' @ quoted kid @ '' not found in JWKS for provider '' @ op_name p @
                               '' (even after refresh)''))))) t (Inr k)"
      using t(2) by simp
    then obtain t1 t2 where "t = t1 @ t2" "runs (jwks_read i (\<lambda>keys.
                 Ret (case find_key keys kid of
                        Some jwk \<Rightarrow> Inr jwk
                      | None \<Rightarrow> Inl (''kid '' @ quoted kid @ '' not found in JWKS for provider '' @ op_name p @
                               '' (even after refresh)'')))) t2 (Inr k :: string + jwk)"
      by (rule runs_try_bindE) simp
    then obtain ks' where ks': "t = t1 @ [(JwksRead i, RJwks ks')]" "find_key ks' kid = Some k"
      unfolding runs_calls by (auto split: option.split_asm)
    have "(JwksRead i, RJwks ks') \<in> set tr" using t(1) ks'(1) by simp
    moreover have "\<exists>ks t. tr = (JwksRead i, RJwks ks) # t \<and> find_key ks kid = None"
      by (rule exI[of _ ks], rule exI[of _ t]) (simp only: t(1) None simp_thms)
    ultimately show ?thesis using find_key_Some[OF ks'(2)] by simp blast
  qed
qed

lemma runs_resolve_single_key:
  "runs (resolve_single_key i p) tr (Inr k) \<longleftrightarrow> tr = [(JwksRead i, RJwks [k])]"
  by (auto simp: resolve_single_key_def runs_calls split: list.split_asm)

lemma extract_email_iff:
  "extract_email_from_payload payload cl = Inr e \<longleftrightarrow> e \<noteq> [] \<and>
     (case Option.bind (json_field payload cl) json_as_str of
        Some v \<Rightarrow> e = v
      | None \<Rightarrow> Option.bind (json_field payload ''email'') json_as_str = Some e)"
  by (auto simp: extract_email_from_payload_def Let_def split: option.splits if_splits)

text \<open>The algorithm a token is verified with: the key's own if it names one, else the header's.\<close>

definition token_alg :: "jwt_header \<Rightarrow> jwk \<Rightarrow> algorithm" where
  "token_alg header jwk = (case Option.bind (jwk_key_algorithm jwk) key_algorithm_to_jwt of
     Some a \<Rightarrow> a | None \<Rightarrow> hdr_alg header)"

lemma runs_verify_with_key:
  "runs (verify_with_key L p header payload jwk t) tr (Inr c) \<longleftrightarrow>
     (\<exists>key now j. jwt_key_from_jwk L jwk = Inr key \<and> tr = [(UtcNow, RUtc now)] \<and>
        jwt_decode L key (id_token_validation L p (token_alg header jwk)) is_json_object (timestamp now) t = Inr j \<and>
        extract_email_from_payload payload (op_email_claim p) = Inr (oc_email c))"
proof -
  have "oc_email c = e \<longleftrightarrow> c = \<lparr>oc_email = e\<rparr>" for e by (cases c) auto
  then show ?thesis
    unfolding verify_with_key_def Let_def token_alg_def[symmetric]
    by (auto simp: runs_case_sum runs_calls) (metis)
qed

definition fetches :: "event list \<Rightarrow> nat" where
  "fetches tr = length (filter (\<lambda>e. case fst e of HttpGet _ \<Rightarrow> True | _ \<Rightarrow> False) tr)"

lemma fetches_simps [simp]:
  "fetches [] = 0" "fetches (t1 @ t2) = fetches t1 + fetches t2"
  "fetches (e # tr) = (case fst e of HttpGet _ \<Rightarrow> 1 | _ \<Rightarrow> 0) + fetches tr"
  by (auto simp: fetches_def split: request.split)

lemma fetches_pos: "(HttpGet u, r) \<in> set tr \<Longrightarrow> 0 < fetches tr"
  by (induction tr) (auto split: request.split)

text \<open>An accepted id token: every check that was made.\<close>

definition id_token_ok :: "lib \<Rightarrow> oidc_validator \<Rightarrow> string \<Rightarrow> event list \<Rightarrow> string \<Rightarrow> bool" where
  "id_token_ok L ps t tr email \<longleftrightarrow> (\<exists>payload i p header jwk key now j.
     decode_jwt_payload_unverified L t = Inr payload \<and>
     find_provider 0 (op_issuer p) ps = Some (i, p) \<and>
     json_field payload ''iss'' = Some (JStr (op_issuer p)) \<and>
     jwt_decode_header L t = Inr header \<and>
     (\<exists>ks. (JwksRead i, RJwks ks) \<in> set tr \<and> jwk \<in> set ks \<and>
        (case hdr_kid header of Some kid \<Rightarrow> jwk_key_id jwk = Some kid | None \<Rightarrow> ks = [jwk])) \<and>
     jwt_key_from_jwk L jwk = Inr key \<and> (UtcNow, RUtc now) \<in> set tr \<and>
     jwt_decode L key (id_token_validation L p (token_alg header jwk)) is_json_object (timestamp now) t = Inr j \<and>
     extract_email_from_payload payload (op_email_claim p) = Inr email)"

lemma json_as_str_Some: "json_as_str j = Some s \<longleftrightarrow> j = JStr s"
  by (cases j) auto

lemma verify_id_token_ok:
  assumes "runs (verify_id_token L ps t) tr (Inr c)"
  shows "id_token_ok L ps t tr (oc_email c)"
proof -
  from assms obtain payload issuer i p header where
    d: "decode_jwt_payload_unverified L t = Inr payload" "json_field payload ''iss'' = Some (JStr issuer)"
      "find_provider 0 issuer ps = Some (i, p)" "jwt_decode_header L t = Inr header"
    and r: "runs (bind (case hdr_kid header of
                 Some kid \<Rightarrow> resolve_key L i p kid
               | None \<Rightarrow> resolve_single_key i p) (\<lambda>res. case res of
                 Inl e \<Rightarrow> Ret (Inl e)
               | Inr jwk \<Rightarrow> verify_with_key L p header payload jwk t)) tr (Inr c)"
    unfolding verify_id_token_def
    by (auto simp: bind_eq_Some_conv json_as_str_Some split: sum.split_asm option.split_asm prod.split_asm)
  from r obtain t1 t2 jwk where t: "tr = t1 @ t2"
    "runs (case hdr_kid header of Some kid \<Rightarrow> resolve_key L i p kid | None \<Rightarrow> resolve_single_key i p) t1 (Inr jwk)"
    "runs (verify_with_key L p header payload jwk t) t2 (Inr c)" by (rule runs_try_bindE)
  have iss: "op_issuer p = issuer" using find_provider_Some[OF d(3)] by auto
  have "\<exists>ks. (JwksRead i, RJwks ks) \<in> set t1 \<and> jwk \<in> set ks \<and>
      (case hdr_kid header of Some kid \<Rightarrow> jwk_key_id jwk = Some kid | None \<Rightarrow> ks = [jwk])"
  proof (cases "hdr_kid header")
    case None
    then have "t1 = [(JwksRead i, RJwks [jwk])]" using t(2) by (simp add: runs_resolve_single_key)
    then show ?thesis using None by simp
  next
    case (Some kid)
    then have "runs (resolve_key L i p kid) t1 (Inr jwk)" using t(2) by simp
    from runs_resolve_key[OF this] Some show ?thesis by auto
  qed
  then obtain ks where "(JwksRead i, RJwks ks) \<in> set tr" "jwk \<in> set ks"
      "case hdr_kid header of Some kid \<Rightarrow> jwk_key_id jwk = Some kid | None \<Rightarrow> ks = [jwk]" using t(1) by auto
  moreover from t(3) obtain key now j where "jwt_key_from_jwk L jwk = Inr key" "t2 = [(UtcNow, RUtc now)]"
    "jwt_decode L key (id_token_validation L p (token_alg header jwk)) is_json_object (timestamp now) t = Inr j"
    "extract_email_from_payload payload (op_email_claim p) = Inr (oc_email c)"
    unfolding runs_verify_with_key by blast
  ultimately show ?thesis
    unfolding id_token_ok_def using d iss t(1)
    by (intro exI[of _ payload] exI[of _ i] exI[of _ p] exI[of _ header] exI[of _ jwk] exI[of _ key]
        exI[of _ now] exI[of _ j] conjI exI[of _ ks]) auto
qed

text \<open>
  jsonwebtoken: the claims of a token it accepts are the JSON object in the token's middle part, the
  same that is read without verification.
\<close>

definition jwt_payload_ok :: "lib \<Rightarrow> bool" where
  "jwt_payload_ok L \<longleftrightarrow> (\<forall>key v now t j.
     jwt_decode L key v is_json_object now t = Inr j \<longrightarrow> decode_jwt_payload_unverified L t = Inr j)"

text \<open>The client id of a provider matters to the validation only.\<close>

lemma client_id_irrelevant:
  "resolve_key L i (p\<lparr>op_client_id := x\<rparr>) kid = resolve_key L i p kid"
  "resolve_single_key i (p\<lparr>op_client_id := x\<rparr>) = resolve_single_key i p"
proof -
  have fields: "op_name (p\<lparr>op_client_id := x\<rparr>) = op_name p" "op_jwks_uri (p\<lparr>op_client_id := x\<rparr>) = op_jwks_uri p"
    "op_refresh_cooldown (p\<lparr>op_client_id := x\<rparr>) = op_refresh_cooldown p" by simp_all
  show "resolve_key L i (p\<lparr>op_client_id := x\<rparr>) kid = resolve_key L i p kid"
    "resolve_single_key i (p\<lparr>op_client_id := x\<rparr>) = resolve_single_key i p"
    unfolding resolve_key_def resolve_single_key_def refresh_jwks_def fields by (rule refl)+
qed

lemma find_provider_clients:
  "find_provider i issuer (map (\<lambda>p. p\<lparr>op_client_id := f p\<rparr>) ps) =
     map_option (\<lambda>(n, p). (n, p\<lparr>op_client_id := f p\<rparr>)) (find_provider i issuer ps)"
  by (induction ps arbitrary: i) auto

text \<open>A token without an audience satisfies the validation of any client, once it satisfies one.\<close>

lemma no_audience_decodes:
  assumes "jwt_modular L" "jwt_ok L" "claim_texts j ''aud'' = None"
    "jwt_decode L key (id_token_validation L p alg) acc now t = Inr j"
  shows "jwt_decode L key (id_token_validation L (p\<lparr>op_client_id := x\<rparr>) alg) acc now t = Inr j"
proof -
  have "claims_shape_ok (id_token_validation L p alg) j" using jwt_decode_sound[OF assms(2,4)] by blast
  then have "claims_shape_ok (id_token_validation L (p\<lparr>op_client_id := x\<rparr>) alg) j"
    using assms(3) by (simp add: claims_shape_ok_def id_token_validation_def claim_allows_def)
  moreover have "v_algorithms (id_token_validation L (p\<lparr>op_client_id := x\<rparr>) alg) = v_algorithms (id_token_validation L p alg)"
    "v_required (id_token_validation L (p\<lparr>op_client_id := x\<rparr>) alg) = v_required (id_token_validation L p alg)"
    "v_leeway (id_token_validation L (p\<lparr>op_client_id := x\<rparr>) alg) = v_leeway (id_token_validation L p alg)"
    by (simp_all add: id_token_validation_def)
  ultimately show ?thesis using assms(1,4) unfolding jwt_modular_def by blast
qed

lemma no_audience_verified:
  assumes "jwt_modular L" "jwt_ok L" "jwt_payload_ok L" "decode_jwt_payload_unverified L t = Inr payload"
    "claim_texts payload ''aud'' = None" "runs (verify_with_key L p header payload jwk t) tr (Inr c)"
  shows "runs (verify_with_key L (p\<lparr>op_client_id := x\<rparr>) header payload jwk t) tr (Inr c)"
proof -
  from assms(6) obtain key now j where d: "jwt_key_from_jwk L jwk = Inr key" "tr = [(UtcNow, RUtc now)]"
    "jwt_decode L key (id_token_validation L p (token_alg header jwk)) is_json_object (timestamp now) t = Inr j"
    "extract_email_from_payload payload (op_email_claim p) = Inr (oc_email c)"
    unfolding runs_verify_with_key by blast
  have "j = payload" using assms(3,4) d(3) unfolding jwt_payload_ok_def by fastforce
  with no_audience_decodes[OF assms(1,2) _ d(3)] assms(5) have
    "jwt_decode L key (id_token_validation L (p\<lparr>op_client_id := x\<rparr>) (token_alg header jwk)) is_json_object (timestamp now) t = Inr j"
    by simp
  with d(1,2,4) show ?thesis unfolding runs_verify_with_key by (intro exI[of _ key] exI[of _ now] exI[of _ j]) simp
qed

text \<open>No request fetches keys more than once, and none writes the cache unless it fetched.\<close>

lemma refresh_fetches:
  assumes "runs (refresh_jwks L i p) tr res"
  shows "fetches tr \<le> 1" "isl res \<Longrightarrow> (JwksWrite n ks, r) \<notin> set tr \<and> (LastWrite n t, r) \<notin> set tr"
  using assms[unfolded runs_refresh_jwks refresh_trace_def] by (elim exE disjE conjE; simp)+

lemma resolve_fetches:
  assumes "runs (resolve_key L i p kid) tr res" shows "fetches tr \<le> 1"
  using assms unfolding resolve_key_def
  by (auto simp: runs_calls runs_case_option runs_case_sum runs_bind dest!: refresh_fetches(1))

lemma verify_fetches:
  assumes "runs (verify_id_token L ps t) tr res" shows "fetches tr \<le> 1"
proof -
  have key: "fetches tr' \<le> 1" if "runs (case kid of Some kid \<Rightarrow> resolve_key L i p kid
      | None \<Rightarrow> resolve_single_key i p) tr' r" for kid i p tr' r
  proof (cases kid)
    case None
    with that show ?thesis by (auto simp: resolve_single_key_def runs_calls)
  next
    case (Some k)
    with that resolve_fetches[of L i p k tr' r] show ?thesis by simp
  qed
  have check: "fetches tr' = 0" if "runs (verify_with_key L p h pay jwk t) tr' r" for p h pay jwk tr' r
    using that by (auto simp: verify_with_key_def Let_def runs_case_sum runs_calls)
  have "fetches tr' \<le> 1" if r: "runs (bind (case hdr_kid h of Some kid \<Rightarrow> resolve_key L i p kid
      | None \<Rightarrow> resolve_single_key i p) (\<lambda>res. case res of Inl e \<Rightarrow> Ret (Inl e)
      | Inr jwk \<Rightarrow> verify_with_key L p h pay jwk t)) tr' res'" for h i p pay tr' res'
  proof -
    from r obtain t1 t2 x where t: "tr' = t1 @ t2" "runs (case hdr_kid h of Some kid \<Rightarrow> resolve_key L i p kid
      | None \<Rightarrow> resolve_single_key i p) t1 x"
      "runs (case x of Inl e \<Rightarrow> Ret (Inl e) | Inr jwk \<Rightarrow> verify_with_key L p h pay jwk t) t2 res'"
      by (rule runs_bindE)
    have "fetches t2 = 0" using t(3) check by (cases x) auto
    with key[OF t(2)] t(1) show ?thesis by simp
  qed
  with assms show ?thesis
    unfolding verify_id_token_def by (auto split: sum.split_asm option.split_asm prod.split_asm)
qed

end
