(* ===== verification/Config.thy ===== *)
theory Config
  imports Bearer Oidc
begin

text \<open>
  \<open>src/config.rs\<close>: the configuration read from the environment, which is an argument here (the
  variables with their values, in the order \<open>std::env::vars\<close> yields them). Reading it makes no
  request; it returns, fails with a message, or panics, so it is a program. Names and values are
  UTF-8 text; \<open>to_lowercase\<close> is modelled on ASCII names.
\<close>

section \<open>Environments of deployment\<close>

datatype environment = Local | Dev | Test | Uat | Staging | Prod

fun environment_to_string :: "environment \<Rightarrow> string" where
  "environment_to_string Local = ''local''"
| "environment_to_string Dev = ''dev''"
| "environment_to_string Test = ''test''"
| "environment_to_string Uat = ''uat''"
| "environment_to_string Staging = ''stg''"
| "environment_to_string Prod = ''prod''"

definition environment_parse :: "string \<Rightarrow> string + environment" where
  "environment_parse s =
     (if s = ''local'' then Inr Local
      else if s = ''dev'' then Inr Dev
      else if s = ''test'' then Inr Test
      else if s = ''uat'' then Inr Uat
      else if s = ''stg'' then Inr Staging
      else if s = ''prod'' then Inr Prod
      else Inl (''ENVIRONMENT must be one of local|dev|test|uat|stg|prod, got '' @ debug_str s))"

section \<open>Variables\<close>

type_synonym env_vars = "(string \<times> string) list"

definition env_var :: "env_vars \<Rightarrow> string \<Rightarrow> string option" where
  "env_var env name = map_of env name"

definition required_env :: "env_vars \<Rightarrow> string \<Rightarrow> string + string" where
  "required_env env name =
     (case env_var env name of None \<Rightarrow> Inl (name @ '' is required'') | Some v \<Rightarrow> Inr v)"

definition or_default :: "'a \<Rightarrow> 'a option \<Rightarrow> 'a" where
  "or_default d x = (case x of None \<Rightarrow> d | Some y \<Rightarrow> y)"

definition parse_u64_env :: "env_vars \<Rightarrow> string \<Rightarrow> u64 \<Rightarrow> u64" where
  "parse_u64_env env name d =
     or_default d (map_option word_of_nat (Option.bind (env_var env name) (parse_unsigned (2 ^ 64))))"

definition parse_u16_env :: "env_vars \<Rightarrow> string \<Rightarrow> 16 word \<Rightarrow> 16 word" where
  "parse_u16_env env name d =
     or_default d (map_option word_of_nat (Option.bind (env_var env name) (parse_unsigned (2 ^ 16))))"

definition parse_bool_value :: "string option \<Rightarrow> bool \<Rightarrow> bool" where
  "parse_bool_value value d = or_default d (map_option (\<lambda>v. v = ''true'' \<or> v = ''1'') value)"

definition parse_bool_env :: "env_vars \<Rightarrow> string \<Rightarrow> bool \<Rightarrow> bool" where
  "parse_bool_env env name d = parse_bool_value (env_var env name) d"

definition parse_bearer_seal_key :: "lib \<Rightarrow> env_vars \<Rightarrow> string + bearer_seal_key" where
  "parse_bearer_seal_key L env =
     (case required_env env ''BEARER_SEAL_KEY'' of
        Inl e \<Rightarrow> Inl e
      | Inr encoded \<Rightarrow>
          (case b64_decode L encoded of
             None \<Rightarrow> Inl ''BEARER_SEAL_KEY must be valid base64''
           | Some b \<Rightarrow>
               (case seal_key_from_bytes b of
                  Inl e \<Rightarrow> Inl (''BEARER_SEAL_KEY is invalid: '' @ contract_error_to_string e)
                | Inr k \<Rightarrow> Inr k)))"

section \<open>Providers\<close>

abbreviation OIDC_PREFIX :: string where "OIDC_PREFIX \<equiv> ''OIDC_''"
abbreviation OIDC_SUFFIX :: string where "OIDC_SUFFIX \<equiv> ''_DISCOVERY_URL''"

text \<open>\<open>&key[prefix.len()..key.len() - suffix.len()]\<close>: panics (\<open>None\<close>) when the start is past the end.\<close>

definition str_slice :: "nat \<Rightarrow> nat \<Rightarrow> string \<Rightarrow> string option" where
  "str_slice a b s = (if a \<le> b \<and> b \<le> length s then Some (take (b - a) (drop a s)) else None)"

fun scan_providers :: "env_vars \<Rightarrow> env_vars \<Rightarrow> (string + oidc_provider_config list) prog" where
  "scan_providers env [] = Ret (Inr [])"
| "scan_providers env ((key, discovery_url) # rest) =
     (if \<not> prefix OIDC_PREFIX key \<or> \<not> suffix OIDC_SUFFIX key then scan_providers env rest
      else if discovery_url = [] then scan_providers env rest
      else case str_slice (length OIDC_PREFIX) (length key - length OIDC_SUFFIX) key of
        None \<Rightarrow> Panic
      | Some name \<Rightarrow>
          if name = [] then scan_providers env rest
          else
            (let client_id_key = ''OIDC_'' @ name @ ''_CLIENT_ID'';
                 client_id = or_default [] (env_var env client_id_key)
             in if client_id = [] then Ret (Inl (client_id_key @ '' is required when '' @ key @ '' is set''))
                else
                  (let email_claim = or_default ''email'' (env_var env (''OIDC_'' @ name @ ''_EMAIL_CLAIM'')) in
                   bind (scan_providers env rest) (\<lambda>res. case res of
                     Inl e \<Rightarrow> Ret (Inl e)
                   | Inr ps \<Rightarrow> Ret (Inr (\<lparr>pc_name = map to_ascii_lower name, pc_discovery_url = discovery_url,
                       pc_client_id = client_id, pc_email_claim = email_claim\<rparr> # ps))))))"

definition discover_oidc_providers ::
  "env_vars \<Rightarrow> environment \<Rightarrow> (string + oidc_provider_config list) prog" where
  "discover_oidc_providers env environment =
     bind (scan_providers env env) (\<lambda>res. case res of
       Inl e \<Rightarrow> Ret (Inl e)
     | Inr providers \<Rightarrow>
         if providers = [] \<and> environment \<noteq> Local then
           Ret (Inl ''at least one OIDC provider (OIDC_*_DISCOVERY_URL) is required in non-local environments'')
         else Ret (Inr providers))"

section \<open>The configuration\<close>

definition JWKS_REFRESH_COOLDOWN_FLOOR_SECS :: u64 where
  "JWKS_REFRESH_COOLDOWN_FLOOR_SECS = 1"

record app_config =
  cf_nats_url :: string
  cf_jwt_secret :: string
  cf_jwt_issuer :: string
  cf_access_token_ttl :: u64
  cf_refresh_token_ttl :: u64
  cf_port :: "16 word"
  cf_environment :: environment
  cf_secure_cookies :: bool
  cf_auth_check_silent_refresh :: bool
  cf_oidc_providers :: "oidc_provider_config list"
  cf_jwks_refresh_cooldown_secs :: u64
  cf_bearer_seal_key :: bearer_seal_key

definition from_env :: "lib \<Rightarrow> env_vars \<Rightarrow> (string + app_config) prog" where
  "from_env L env =
     (case required_env env ''NATS_URL'' of Inl e \<Rightarrow> Ret (Inl e) | Inr nats_url \<Rightarrow>
     (case required_env env ''JWT_SECRET'' of Inl e \<Rightarrow> Ret (Inl e) | Inr jwt_secret \<Rightarrow>
     (case environment_parse (or_default ''local'' (env_var env ''ENVIRONMENT'')) of
        Inl e \<Rightarrow> Ret (Inl e) | Inr environment \<Rightarrow>
     (case parse_bearer_seal_key L env of Inl e \<Rightarrow> Ret (Inl e) | Inr bearer_seal_key \<Rightarrow>
     bind (discover_oidc_providers env environment) (\<lambda>res. case res of
        Inl e \<Rightarrow> Ret (Inl e)
      | Inr oidc_providers \<Rightarrow> Ret (Inr
          \<lparr>cf_nats_url = nats_url, cf_jwt_secret = jwt_secret,
           cf_jwt_issuer = or_default ''svc-auth'' (env_var env ''JWT_ISSUER''),
           cf_access_token_ttl = parse_u64_env env ''JWT_ACCESS_TOKEN_TTL'' 900,
           cf_refresh_token_ttl = parse_u64_env env ''JWT_REFRESH_TOKEN_TTL'' 604800,
           cf_port = parse_u16_env env ''PORT'' 8002,
           cf_environment = environment,
           cf_secure_cookies = parse_bool_env env ''SECURE_COOKIES'' True,
           cf_auth_check_silent_refresh = parse_bool_env env ''AUTH_CHECK_SILENT_REFRESH'' True,
           cf_oidc_providers = oidc_providers,
           cf_jwks_refresh_cooldown_secs =
             max (parse_u64_env env ''JWKS_REFRESH_COOLDOWN_SECONDS'' 60) JWKS_REFRESH_COOLDOWN_FLOOR_SECS,
           cf_bearer_seal_key = bearer_seal_key\<rparr>))))))"

section \<open>Lemmas\<close>

text \<open>The accepted names are exactly the printed ones.\<close>

lemma environment_parse_iff: "environment_parse s = Inr e \<longleftrightarrow> s = environment_to_string e"
  by (cases e) (auto simp: environment_parse_def split: if_splits)

lemma seal_key_length: "seal_key_from_bytes b = Inr k \<Longrightarrow> length (seal_key_bytes k) = 32"
  by (auto simp: seal_key_from_bytes_def BEARER_SEAL_KEY_LEN_def split: if_splits)

definition wf_provider_config :: "oidc_provider_config \<Rightarrow> bool" where
  "wf_provider_config p \<longleftrightarrow> pc_name p \<noteq> [] \<and> pc_discovery_url p \<noteq> [] \<and> pc_client_id p \<noteq> []"

lemma scan_providers_wf:
  "scan_providers env rest = Ret (Inr ps) \<Longrightarrow> list_all wf_provider_config ps"
proof (induction env rest arbitrary: ps rule: scan_providers.induct)
  case (2 env key url rest)
  show ?case
  proof (cases "scan_providers env rest")
    case (Ret res)
    then show ?thesis
      using "2.prems" "2.IH"
      by (auto simp: Let_def wf_provider_config_def split: if_splits option.splits sum.splits)
  qed (use "2.prems" "2.IH" in \<open>auto simp: Let_def split: if_splits option.splits\<close>)
qed simp

text \<open>The shortest name with both the prefix and the suffix has them overlap.\<close>

lemma overlap_suffix: "suffix ''_DISCOVERY_URL'' ''OIDC_DISCOVERY_URL''"
  by (rule suffixI[of _ "''OIDC''"]) simp

lemma overlap_panics:
  "u \<noteq> [] \<Longrightarrow> scan_providers env ((''OIDC_DISCOVERY_URL'', u) # rest) = Panic"
  using overlap_suffix by (simp add: str_slice_def)

lemma overlap_never_ok:
  "(''OIDC_DISCOVERY_URL'', u) \<in> set rest \<Longrightarrow> u \<noteq> [] \<Longrightarrow> scan_providers env rest \<noteq> Ret (Inr ps)"
proof (induction rest arbitrary: ps)
  case (Cons kv rest)
  obtain key url where kv: "kv = (key, url)" by (cases kv) auto
  note prems = Cons.prems[unfolded kv]
  show ?case
  proof (cases "(key, url) = (''OIDC_DISCOVERY_URL'', u)")
    case True
    then show ?thesis using overlap_panics[OF prems(2), of env rest] kv by (simp del: scan_providers.simps)
  next
    case False
    then have m: "(''OIDC_DISCOVERY_URL'', u) \<in> set rest" using prems(1) by auto
    show ?thesis
    proof (cases "scan_providers env rest")
      case (Ret res)
      then show ?thesis using kv Cons.IH[OF m prems(2)]
        by (auto simp: Let_def split: if_splits option.splits sum.splits)
    qed (use kv Cons.IH[OF m prems(2)] in \<open>auto simp: Let_def split: if_splits option.splits\<close>)
  qed
qed simp

text \<open>And it is the only name in which they overlap, so the scan panics on no other.\<close>

lemma overlap_only:
  assumes "prefix OIDC_PREFIX key" "suffix OIDC_SUFFIX key"
    "str_slice (length OIDC_PREFIX) (length key - length OIDC_SUFFIX) key = None"
  shows "key = ''OIDC_DISCOVERY_URL''"
proof -
  from assms(2) obtain x where x: "key = x @ ''_DISCOVERY_URL''" by (auto simp: suffix_def)
  with assms(3) have "length x < 5" by (auto simp: str_slice_def split: if_splits)
  then have "(\<exists>a. x = [a]) \<or> x = [] \<or> (\<exists>a b. x = [a, b]) \<or> (\<exists>a b c. x = [a, b, c]) \<or> (\<exists>a b c d. x = [a, b, c, d])"
    by (auto simp: numeral_eq_Suc less_Suc_eq length_Suc_conv)
  with assms(1) x show ?thesis by auto
qed

lemma scan_panics:
  "scan_providers env rest = Panic \<Longrightarrow> \<exists>u. u \<noteq> [] \<and> (''OIDC_DISCOVERY_URL'', u) \<in> set rest"
proof (induction rest)
  case (Cons kv rest)
  obtain key url where kv: "kv = (key, url)" by (cases kv) auto
  have "(prefix OIDC_PREFIX key \<and> suffix OIDC_SUFFIX key \<and> url \<noteq> [] \<and>
      str_slice (length OIDC_PREFIX) (length key - length OIDC_SUFFIX) key = None) \<or> scan_providers env rest = Panic"
    using Cons.prems by (cases "scan_providers env rest") (auto simp: kv Let_def split: if_splits option.splits sum.splits)
  then show ?case using overlap_only[of key] Cons.IH by (auto simp: kv)
qed simp

lemma from_env_ok:
  assumes "from_env L env = Ret (Inr cfg)"
  shows "scan_providers env env = Ret (Inr (cf_oidc_providers cfg))"
    "cf_oidc_providers cfg = [] \<Longrightarrow> cf_environment cfg = Local"
    "length (seal_key_bytes (cf_bearer_seal_key cfg)) = 32"
    "1 \<le> cf_jwks_refresh_cooldown_secs cfg"
    "map_of env ''JWT_SECRET'' = Some (cf_jwt_secret cfg)"
proof -
  have bd: "bind m f = Ret y \<longleftrightarrow> (\<exists>x. m = Ret x \<and> f x = Ret y)" for m :: "'x prog" and f and y :: 'y
    by (cases m) auto
  show "scan_providers env env = Ret (Inr (cf_oidc_providers cfg))"
    "cf_oidc_providers cfg = [] \<Longrightarrow> cf_environment cfg = Local"
    "length (seal_key_bytes (cf_bearer_seal_key cfg)) = 32"
    "1 \<le> cf_jwks_refresh_cooldown_secs cfg"
    "map_of env ''JWT_SECRET'' = Some (cf_jwt_secret cfg)"
    using assms
    by (auto simp: from_env_def discover_oidc_providers_def required_env_def env_var_def bd
        parse_bearer_seal_key_def JWKS_REFRESH_COOLDOWN_FLOOR_SECS_def dest: seal_key_length
        split: sum.splits option.splits if_splits)
qed

end
