(* ===== verification/Http.thy ===== *)
theory Http
  imports Effects
begin

text \<open>
  The HTTP side the handlers see: request headers as the answers of \<open>HeaderMap::get\<close>, responses
  with a status, the headers the handlers set (\<open>insert\<close> replaces the values of a name, \<open>append\<close>
  adds one) and a JSON body, and \<open>src/error.rs\<close>: \<open>AppError\<close> and its response.
\<close>

section \<open>Requests\<close>

text \<open>\<open>HeaderMap::get\<close>: the bytes of the first value of a header, if there is one.\<close>

type_synonym headers = "string \<Rightarrow> string option"

section \<open>Responses\<close>

datatype http_body = Empty | Json json

record http_response =
  status :: nat
  resp_headers :: "(string \<times> string) list"
  resp_body :: http_body

abbreviation SET_COOKIE :: string where "SET_COOKIE \<equiv> ''set-cookie''"
abbreviation COOKIE :: string where "COOKIE \<equiv> ''cookie''"

definition status_response :: "nat \<Rightarrow> http_response" where
  "status_response n = \<lparr>status = n, resp_headers = [], resp_body = Empty\<rparr>"

definition json_response :: "nat \<Rightarrow> json \<Rightarrow> http_response" where
  "json_response n j = \<lparr>status = n, resp_headers = [], resp_body = Json j\<rparr>"

definition header_insert :: "string \<Rightarrow> string \<Rightarrow> http_response \<Rightarrow> http_response" where
  "header_insert n v r =
     r\<lparr>resp_headers := filter (\<lambda>h. fst h \<noteq> n) (resp_headers r) @ [(n, v)]\<rparr>"

definition header_append :: "string \<Rightarrow> string \<Rightarrow> http_response \<Rightarrow> http_response" where
  "header_append n v r = r\<lparr>resp_headers := resp_headers r @ [(n, v)]\<rparr>"

definition header_values :: "string \<Rightarrow> http_response \<Rightarrow> string list" where
  "header_values n r = map snd (filter (\<lambda>h. fst h = n) (resp_headers r))"

abbreviation set_cookies :: "http_response \<Rightarrow> string list" where
  "set_cookies \<equiv> header_values SET_COOKIE"

text \<open>\<open>value.parse().expect(..)\<close>: text that is no header value panics the task.\<close>

definition parse_header :: "lib \<Rightarrow> string \<Rightarrow> (string \<Rightarrow> 'a prog) \<Rightarrow> 'a prog" where
  "parse_header L s f = (case header_value_parse L s of None \<Rightarrow> Panic | Some v \<Rightarrow> f v)"

lemma header_simps [simp]:
  "status (status_response n) = n" "set_cookies (status_response n) = []"
  "resp_body (status_response n) = Empty"
  "status (json_response n j) = n" "set_cookies (json_response n j) = []"
  "resp_body (json_response n j) = Json j"
  "status (header_insert h v r) = status r" "resp_body (header_insert h v r) = resp_body r"
  "status (header_append h v r) = status r" "resp_body (header_append h v r) = resp_body r"
  "header_values h (header_insert h v r) = [v]"
  "header_values h (header_append h v r) = header_values h r @ [v]"
  "h' \<noteq> h \<Longrightarrow> header_values h' (header_insert h v r) = header_values h' r"
  "h' \<noteq> h \<Longrightarrow> header_values h' (header_append h v r) = header_values h' r"
  by (auto simp: status_response_def json_response_def header_insert_def header_append_def
      header_values_def intro!: arg_cong[where f = "map snd"] filter_cong)

lemma header_values_plain [simp]:
  "header_values h (status_response n) = []" "header_values h (json_response n j) = []"
  by (simp_all add: header_values_def status_response_def json_response_def)

lemma runs_parse_header [runs_simps]:
  "runs (parse_header L s f) tr y \<longleftrightarrow> (\<exists>v. header_value_parse L s = Some v \<and> runs (f v) tr y)"
  by (auto simp: parse_header_def split: option.splits)

section \<open>src/error.rs\<close>

datatype app_error = Unauthorized string | Validation string | Internal string

fun app_error_into_response :: "app_error \<Rightarrow> http_response" where
  "app_error_into_response (Unauthorized msg) =
     json_response 401 (JObj [(''error'', JStr ''unauthorized''), (''message'', JStr msg)])"
| "app_error_into_response (Validation msg) =
     json_response 400 (JObj [(''error'', JStr ''validation_error''), (''message'', JStr msg)])"
| "app_error_into_response (Internal msg) =
     json_response 500 (JObj [(''error'', JStr ''internal_error''),
       (''message'', JStr ''an internal error occurred'')])"

lemma app_error_status [simp]:
  "status (app_error_into_response e) = 401 \<longleftrightarrow> (\<exists>m. e = Unauthorized m)"
  "status (app_error_into_response e) \<noteq> 200"
  "set_cookies (app_error_into_response e) = []"
  by (cases e; simp)+

end
