(* ===== verification/Cookies.thy ===== *)
theory Cookies
  imports Http
begin

text \<open>
  \<open>src/cookie.rs\<close>: the names, construction and extraction of the access, refresh and session
  cookies. The main lemma gives extraction as the lookup of a name in the pairs of a cookie
  header; the round trip of a built cookie through a browser follows from it.
\<close>

section \<open>Configuration and names\<close>

record cookie_config =
  cc_secure :: bool
  cc_refresh_max_age :: u64
  cc_access_max_age :: u64

definition cookie_config_new :: "bool \<Rightarrow> u64 \<Rightarrow> u64 \<Rightarrow> cookie_config" where
  "cookie_config_new secure refresh_ttl_secs access_ttl_secs =
     \<lparr>cc_secure = secure, cc_refresh_max_age = refresh_ttl_secs, cc_access_max_age = access_ttl_secs\<rparr>"

definition refresh_cookie_name :: "cookie_config \<Rightarrow> string" where
  "refresh_cookie_name c = (if cc_secure c then ''__Host-refresh_token'' else ''refresh_token'')"

definition access_cookie_name :: "cookie_config \<Rightarrow> string" where
  "access_cookie_name c = (if cc_secure c then ''__Host-access_token'' else ''access_token'')"

definition session_cookie_name :: "lib \<Rightarrow> cookie_config \<Rightarrow> string" where
  "session_cookie_name L c = core_session_cookie_name L (cc_secure c)"

section \<open>Building\<close>

definition build_cookie :: "string \<Rightarrow> string \<Rightarrow> u64 \<Rightarrow> bool \<Rightarrow> string" where
  "build_cookie name val max_age secure =
     (if secure then
        name @ ''='' @ val @ ''; HttpOnly; Secure; SameSite=Strict; Path=/; Max-Age='' @ show_nat (unat max_age)
      else
        name @ ''='' @ val @ ''; HttpOnly; SameSite=Strict; Path=/; Max-Age='' @ show_nat (unat max_age))"

definition build_access_cookie :: "string \<Rightarrow> cookie_config \<Rightarrow> string" where
  "build_access_cookie token c =
     build_cookie (access_cookie_name c) token (cc_access_max_age c) (cc_secure c)"

definition build_clear_access_cookie :: "cookie_config \<Rightarrow> string" where
  "build_clear_access_cookie c = build_cookie (access_cookie_name c) [] 0 (cc_secure c)"

definition build_refresh_cookie :: "string \<Rightarrow> cookie_config \<Rightarrow> string" where
  "build_refresh_cookie token c =
     build_cookie (refresh_cookie_name c) token (cc_refresh_max_age c) (cc_secure c)"

definition build_clear_refresh_cookie :: "cookie_config \<Rightarrow> string" where
  "build_clear_refresh_cookie c = build_cookie (refresh_cookie_name c) [] 0 (cc_secure c)"

definition build_session_cookie :: "lib \<Rightarrow> string \<Rightarrow> cookie_config \<Rightarrow> string" where
  "build_session_cookie L session_id c =
     (let name = session_cookie_name L c in
      if cc_secure c then name @ ''='' @ session_id @ ''; HttpOnly; Secure; SameSite=Lax; Path=/''
      else name @ ''='' @ session_id @ ''; HttpOnly; SameSite=Lax; Path=/'')"

section \<open>Extracting\<close>

definition extract_cookie :: "lib \<Rightarrow> headers \<Rightarrow> string \<Rightarrow> string option" where
  "extract_cookie L headers cookie_name =
     (case headers COOKIE of
        None \<Rightarrow> None
      | Some raw \<Rightarrow>
          (case header_to_str L raw of
             None \<Rightarrow> None
           | Some cookie_header \<Rightarrow>
               (let prefix = cookie_name @ ''='' in
                find_map (\<lambda>c. strip_prefix prefix (trim c)) (split_on CHR '';'' cookie_header))))"

definition extract_access_cookie :: "lib \<Rightarrow> headers \<Rightarrow> cookie_config \<Rightarrow> string option" where
  "extract_access_cookie L headers c = extract_cookie L headers (access_cookie_name c)"

definition extract_refresh_cookie :: "lib \<Rightarrow> headers \<Rightarrow> cookie_config \<Rightarrow> string option" where
  "extract_refresh_cookie L headers c = extract_cookie L headers (refresh_cookie_name c)"

definition extract_session_cookie :: "lib \<Rightarrow> headers \<Rightarrow> cookie_config \<Rightarrow> string option" where
  "extract_session_cookie L headers c =
     (case headers COOKIE of
        None \<Rightarrow> None
      | Some raw \<Rightarrow>
          (case header_to_str L raw of
             None \<Rightarrow> None
           | Some cookie_header \<Rightarrow> core_extract_session_id L cookie_header (cc_secure c)))"

section \<open>What a user agent sends\<close>

text \<open>A cookie header for a list of name and value pairs, and the pair of a \<open>Set-Cookie\<close> value.\<close>

fun cookie_header :: "(string \<times> string) list \<Rightarrow> string" where
  "cookie_header [] = []"
| "cookie_header [(n, v)] = n @ ''='' @ v"
| "cookie_header ((n, v) # ps) = n @ ''='' @ v @ ''; '' @ cookie_header ps"

definition cookie_pair :: "string \<Rightarrow> string" where
  "cookie_pair set_cookie = takeWhile (\<lambda>c. c \<noteq> CHR '';'') set_cookie"

definition cookie_attributes :: "string \<Rightarrow> string list" where
  "cookie_attributes set_cookie = map trim (tl (split_on CHR '';'' set_cookie))"

definition wf_pair :: "string \<times> string \<Rightarrow> bool" where
  "wf_pair p \<longleftrightarrow> (case p of (n, v) \<Rightarrow>
     n \<noteq> [] \<and> \<not> is_ws (hd n) \<and> CHR ''='' \<notin> set n \<and> CHR '';'' \<notin> set n \<and> CHR '';'' \<notin> set v \<and>
     (v = [] \<or> \<not> is_ws (last v)) \<and> list_all ascii_visible n \<and> list_all ascii_visible v)"

lemma trim_pair: "wf_pair (n, v) \<Longrightarrow> trim (n @ ''='' @ v) = n @ ''='' @ v"
proof (rule trim_id, rule disjI2)
  assume "wf_pair (n, v)"
  then show "\<not> is_ws (hd (n @ ''='' @ v)) \<and> \<not> is_ws (last (n @ ''='' @ v))"
    by (cases "v = []") (auto simp: wf_pair_def, simp add: is_ws_def)
qed

lemma pair_no_sep: "wf_pair (n, v) \<Longrightarrow> CHR '';'' \<notin> set (n @ ''='' @ v)"
  by (auto simp: wf_pair_def)

lemma strip_prefix_pair:
  assumes "wf_pair (n, v)" "CHR ''='' \<notin> set name"
  shows "strip_prefix (name @ ''='') (n @ ''='' @ v) = (if n = name then Some v else None)"
proof -
  have "CHR ''='' \<notin> set n" using assms(1) by (simp add: wf_pair_def)
  then have "n @ ''='' @ v = (name @ ''='') @ t \<longleftrightarrow> n = name \<and> v = t" for t
    using append_eq_at_sep[of "CHR ''=''" n name v t] assms(2) by auto
  then show ?thesis
    by (metis not_None_eq strip_prefix_Some_iff)
qed

lemma find_map_cookie_header:
  assumes "CHR ''='' \<notin> set name" "list_all wf_pair ps" "ps \<noteq> []"
  shows "find_map (\<lambda>c. strip_prefix (name @ ''='') (trim c)) (split_on CHR '';'' (cookie_header ps))
           = map_of ps name
       \<and> find_map (\<lambda>c. strip_prefix (name @ ''='') (trim c)) (split_on CHR '';'' (CHR '' '' # cookie_header ps))
           = map_of ps name"
  using assms(2,3)
proof (induction ps rule: cookie_header.induct)
  case (2 n v)
  then show ?case
    using pair_no_sep[of n v] trim_pair[of n v] strip_prefix_pair[OF _ assms(1), of n v]
    by (simp add: split_on_no_sep trim_space)
next
  case (3 n v p ps)
  then have wf: "wf_pair (n, v)" and IH:
    "find_map (\<lambda>c. strip_prefix (name @ ''='') (trim c))
       (split_on CHR '';'' (CHR '' '' # cookie_header (p # ps))) = map_of (p # ps) name" by auto
  let ?rest = "CHR '' '' # cookie_header (p # ps)"
  have "cookie_header ((n, v) # p # ps) = (n @ ''='' @ v) @ CHR '';'' # ?rest" by simp
  then have s1: "split_on CHR '';'' (cookie_header ((n, v) # p # ps)) =
      (n @ ''='' @ v) # split_on CHR '';'' ?rest"
    using pair_no_sep[OF wf] split_on_append_sep by metis
  have s2: "split_on CHR '';'' (CHR '' '' # cookie_header ((n, v) # p # ps)) =
      (CHR '' '' # n @ ''='' @ v) # split_on CHR '';'' ?rest"
    using s1 by simp
  show ?case
    unfolding s1 s2 find_map.simps trim_space trim_pair[OF wf] strip_prefix_pair[OF wf assms(1)]
    using IH by simp
qed simp

lemma visible_cookie_header: "list_all wf_pair ps \<Longrightarrow> list_all ascii_visible (cookie_header ps)"
  by (induction ps rule: cookie_header.induct) (auto simp: wf_pair_def ascii_visible_def)

text \<open>Extraction is the lookup of the name among the pairs that were sent.\<close>

lemma extract_cookie_lookup:
  assumes "http_ok L" "headers COOKIE = Some (cookie_header ps)" "list_all wf_pair ps"
    "CHR ''='' \<notin> set name"
  shows "extract_cookie L headers name = map_of ps name"
proof (cases "ps = []")
  case True
  have "header_to_str L [] = Some []" using assms(1) by (simp add: http_ok_def)
  with True assms(2) show ?thesis
    by (simp add: extract_cookie_def trim_def trim_start_def trim_end_def strip_prefix_def)
next
  case False
  have "header_to_str L (cookie_header ps) = Some (cookie_header ps)"
    using assms(1) visible_cookie_header[OF assms(3)] by (simp add: http_ok_def)
  then show ?thesis
    using assms(2) find_map_cookie_header[OF assms(4,3) False] by (simp add: extract_cookie_def)
qed

lemma cookie_names:
  "CHR ''='' \<notin> set (access_cookie_name c)" "CHR ''='' \<notin> set (refresh_cookie_name c)"
  "CHR '';'' \<notin> set (access_cookie_name c)" "CHR '';'' \<notin> set (refresh_cookie_name c)"
  "access_cookie_name c \<noteq> refresh_cookie_name c"
  by (auto simp: access_cookie_name_def refresh_cookie_name_def)

lemma cookie_names_visible:
  "list_all ascii_visible (access_cookie_name c)" "list_all ascii_visible (refresh_cookie_name c)"
  by (auto simp: access_cookie_name_def refresh_cookie_name_def ascii_visible_def)

lemma cookie_pair_build:
  assumes "CHR '';'' \<notin> set n" "CHR '';'' \<notin> set v"
  shows "cookie_pair (build_cookie n v a s) = n @ ''='' @ v"
proof -
  have "takeWhile (\<lambda>c. c \<noteq> CHR '';'') (p @ CHR '';'' # q) = p" if "CHR '';'' \<notin> set p" for p q :: string
    using that by (induction p) auto
  from this[of "n @ ''='' @ v"] show ?thesis
    using assms by (simp add: cookie_pair_def build_cookie_def)
qed

lemma token_char_visible: "list_all token_char t \<Longrightarrow> list_all ascii_visible t"
  by (auto simp: list_all_iff token_char_def)

lemma build_cookie_visible:
  assumes "list_all ascii_visible n" "list_all ascii_visible v"
  shows "list_all ascii_visible (build_cookie n v a s)"
proof -
  have "list_all ascii_visible (show_nat (unat a))"
    using show_nat_digits[of "unat a"] by (auto simp: list_all_iff is_digit_visible)
  then show ?thesis using assms by (simp add: build_cookie_def ascii_visible_def)
qed

lemma built_cookies_visible:
  "list_all ascii_visible t \<Longrightarrow> list_all ascii_visible (build_access_cookie t c)"
  "list_all ascii_visible t \<Longrightarrow> list_all ascii_visible (build_refresh_cookie t c)"
  "list_all ascii_visible (build_clear_access_cookie c)"
  "list_all ascii_visible (build_clear_refresh_cookie c)"
  by (auto simp: build_access_cookie_def build_refresh_cookie_def build_clear_access_cookie_def
      build_clear_refresh_cookie_def intro!: build_cookie_visible cookie_names_visible)

lemma build_session_cookie_visible:
  assumes "list_all ascii_visible (core_session_cookie_name L (cc_secure c))" "list_all ascii_visible sid"
  shows "list_all ascii_visible (build_session_cookie L sid c)"
  using assms by (cases "cc_secure c")
    (simp_all add: build_session_cookie_def session_cookie_name_def Let_def ascii_visible_def)

section \<open>Attributes and the round trip\<close>

lemma token_char_not_ws: "token_char c \<Longrightarrow> \<not> is_ws c"
proof
  assume t: "token_char c" and "is_ws c"
  then have "(of_char c :: nat) = of_char (CHR '' '')"
    by (auto simp: token_char_def ascii_visible_def is_ws_def Let_def)
  then have "c = CHR '' ''" by (simp only: of_char_eq_iff)
  with t show False by (simp add: token_char_def)
qed

lemma wf_token_pairs:
  assumes "list_all token_char t"
  shows "wf_pair (access_cookie_name c, t)" "wf_pair (refresh_cookie_name c, t)"
proof -
  have "CHR '';'' \<notin> set t" using assms by (auto simp: list_all_iff token_char_def)
  moreover have "t = [] \<or> \<not> is_ws (last t)"
    using assms by (cases t rule: rev_cases) (auto simp: token_char_not_ws)
  ultimately show "wf_pair (access_cookie_name c, t)" "wf_pair (refresh_cookie_name c, t)"
    using token_char_visible[OF assms] cookie_names[of c] cookie_names_visible[of c]
    by (auto simp: wf_pair_def access_cookie_name_def refresh_cookie_name_def is_ws_def)
qed

text \<open>The attributes of a built cookie.\<close>

lemma cookie_attributes_build:
  assumes "CHR '';'' \<notin> set n" "CHR '';'' \<notin> set v"
  shows "cookie_attributes (build_cookie n v a s) =
    [''HttpOnly''] @ (if s then [''Secure''] else []) @
    [''SameSite=Strict'', ''Path=/'', ''Max-Age='' @ show_nat (unat a)]"
proof -
  have nv: "CHR '';'' \<notin> set (n @ ''='' @ v)" using assms by simp
  have d: "CHR '';'' \<notin> set (show_nat k)" "\<not> is_ws (last (show_nat k))" for k
  proof -
    have "is_digit (last (show_nat k))" using show_nat_digits[of k] by simp
    then show "\<not> is_ws (last (show_nat k))" by (auto simp: is_digit_def is_ws_def Let_def)
    show "CHR '';'' \<notin> set (show_nat k)" using show_nat_digits[of k] by (auto simp: is_digit_def)
  qed
  have m: "trim (CHR '' '' # ''Max-Age='' @ show_nat k) = ''Max-Age='' @ show_nat k" for k
    unfolding trim_space by (rule trim_id) (use d[of k] in \<open>simp add: is_ws_def\<close>)
  have t: "trim '' HttpOnly'' = ''HttpOnly''" "trim '' Secure'' = ''Secure''"
    "trim '' SameSite=Strict'' = ''SameSite=Strict''" "trim '' Path=/'' = ''Path=/''"
    by (simp_all add: trim_def trim_start_def trim_end_def is_ws_def)
  have rest: "split_on CHR '';'' ('' Path=/; Max-Age='' @ show_nat k) = ['' Path=/'', '' Max-Age='' @ show_nat k]" for k
    using d(1)[of k] by (simp add: split_on_no_sep)
  show ?thesis
  proof (cases s)
    case True
    have b: "build_cookie n v a s = (n @ ''='' @ v) @ CHR '';'' #
        ('' HttpOnly; Secure; SameSite=Strict; Path=/; Max-Age='' @ show_nat (unat a))"
      using True by (simp add: build_cookie_def)
    show ?thesis
      unfolding cookie_attributes_def b split_on_append_sep[OF nv]
      using True rest[of "unat a"] t m[of "unat a"] by simp
  next
    case False
    have b: "build_cookie n v a s = (n @ ''='' @ v) @ CHR '';'' #
        ('' HttpOnly; SameSite=Strict; Path=/; Max-Age='' @ show_nat (unat a))"
      using False by (simp add: build_cookie_def)
    show ?thesis
      unfolding cookie_attributes_def b split_on_append_sep[OF nv]
      using False rest[of "unat a"] t m[of "unat a"] by simp
  qed
qed

text \<open>A user agent that sends back the two token cookies, in either order and among others.\<close>

lemma cookies_roundtrip:
  assumes "http_ok L" "list_all token_char a" "list_all token_char r"
    "headers COOKIE = Some (cookie_pair (build_access_cookie a c) @ ''; '' @ cookie_pair (build_refresh_cookie r c))"
  shows "extract_access_cookie L headers c = Some a" "extract_refresh_cookie L headers c = Some r"
proof -
  let ?ps = "[(access_cookie_name c, a), (refresh_cookie_name c, r)]"
  have sc: "CHR '';'' \<notin> set a" "CHR '';'' \<notin> set r" using assms(2,3) by (auto simp: list_all_iff token_char_def)
  have "headers COOKIE = Some (cookie_header ?ps)"
    using assms(4) sc by (simp add: build_access_cookie_def build_refresh_cookie_def cookie_pair_build cookie_names)
  moreover have "list_all wf_pair ?ps" using wf_token_pairs assms(2,3) by simp
  ultimately have "extract_cookie L headers n = map_of ?ps n" if "CHR ''='' \<notin> set n" for n
    using extract_cookie_lookup[OF assms(1)] that by blast
  then show "extract_access_cookie L headers c = Some a" "extract_refresh_cookie L headers c = Some r"
    using cookie_names[of c] by (auto simp: extract_access_cookie_def extract_refresh_cookie_def)
qed

end
