(* ===== verification/Jwt.thy ===== *)
theory Jwt
  imports Effects
begin

text \<open>
  \<open>src/jwt.rs\<close>: signing and verification of the internal access and refresh tokens. Claims are
  read and written as JSON objects, the way the derived \<open>Serialize\<close> and \<open>Deserialize\<close> of the two
  structs do it: every field is required at its type and other fields are ignored. Times are
  64-bit: \<open>now + ttl as i64\<close> wraps (the release profile; a debug build panics there instead).
\<close>

section \<open>Claims\<close>

definition CLOCK_SKEW_LEEWAY_SECS :: u64 where
  "CLOCK_SKEW_LEEWAY_SECS = 5"

record access_claims =
  ac_sub :: string
  ac_iss :: string
  ac_iat :: i64
  ac_exp :: i64

record refresh_claims =
  rc_sub :: string
  rc_jti :: string
  rc_iss :: string
  rc_iat :: i64
  rc_exp :: i64

definition access_claims_to_json :: "access_claims \<Rightarrow> json" where
  "access_claims_to_json c = JObj [(''sub'', JStr (ac_sub c)), (''iss'', JStr (ac_iss c)),
     (''iat'', JInt (sint (ac_iat c))), (''exp'', JInt (sint (ac_exp c)))]"

definition refresh_claims_to_json :: "refresh_claims \<Rightarrow> json" where
  "refresh_claims_to_json c = JObj [(''sub'', JStr (rc_sub c)), (''jti'', JStr (rc_jti c)),
     (''iss'', JStr (rc_iss c)), (''iat'', JInt (sint (rc_iat c))), (''exp'', JInt (sint (rc_exp c)))]"

text \<open>A JSON number at type \<open>i64\<close>: in range or an error.\<close>

fun json_as_i64 :: "json \<Rightarrow> i64 option" where
  "json_as_i64 (JInt n) = (if - (2 ^ 63) \<le> n \<and> n < 2 ^ 63 then Some (word_of_int n) else None)"
| "json_as_i64 _ = None"

definition str_field :: "json \<Rightarrow> string \<Rightarrow> string option" where
  "str_field j n = Option.bind (json_field j n) json_as_str"

definition i64_field :: "json \<Rightarrow> string \<Rightarrow> i64 option" where
  "i64_field j n = Option.bind (json_field j n) json_as_i64"

definition access_claims_of_json :: "json \<Rightarrow> access_claims option" where
  "access_claims_of_json j =
     (case (str_field j ''sub'', str_field j ''iss'', i64_field j ''iat'', i64_field j ''exp'') of
        (Some s, Some i, Some a, Some e) \<Rightarrow>
          Some \<lparr>ac_sub = s, ac_iss = i, ac_iat = a, ac_exp = e\<rparr>
      | _ \<Rightarrow> None)"

definition refresh_claims_of_json :: "json \<Rightarrow> refresh_claims option" where
  "refresh_claims_of_json j =
     (case (str_field j ''sub'', str_field j ''jti'', str_field j ''iss'',
            i64_field j ''iat'', i64_field j ''exp'') of
        (Some s, Some t, Some i, Some a, Some e) \<Rightarrow>
          Some \<lparr>rc_sub = s, rc_jti = t, rc_iss = i, rc_iat = a, rc_exp = e\<rparr>
      | _ \<Rightarrow> None)"

section \<open>The service\<close>

record jwt_service =
  js_encoding_key :: bytes
  js_decoding_key :: bytes
  js_issuer :: string
  js_access_ttl_secs :: u64
  js_refresh_ttl_secs :: u64

definition jwt_service_new :: "string \<Rightarrow> string \<Rightarrow> u64 \<Rightarrow> u64 \<Rightarrow> jwt_service" where
  "jwt_service_new secret issuer access_ttl_secs refresh_ttl_secs =
     \<lparr>js_encoding_key = as_bytes secret, js_decoding_key = as_bytes secret, js_issuer = issuer,
      js_access_ttl_secs = access_ttl_secs, js_refresh_ttl_secs = refresh_ttl_secs\<rparr>"

datatype jwt_error = Expired | Invalid string

fun map_jwt_error :: "jwt_kind \<Rightarrow> jwt_error" where
  "map_jwt_error (ExpiredSignature m) = Expired"
| "map_jwt_error (OtherKind m) = Invalid m"

definition sign_access_token :: "lib \<Rightarrow> jwt_service \<Rightarrow> string \<Rightarrow> (string + string) prog" where
  "sign_access_token L svc email = utc_now (\<lambda>t.
     let now = timestamp t;
         claims = \<lparr>ac_sub = email, ac_iss = js_issuer svc, ac_iat = now,
                   ac_exp = now + js_access_ttl_secs svc\<rparr>
     in Ret (case jwt_encode L (js_encoding_key svc) (access_claims_to_json claims) of
               Inl e \<Rightarrow> Inl (''failed to sign access token: '' @ e)
             | Inr jwt \<Rightarrow> Inr jwt))"

definition access_validation :: "lib \<Rightarrow> jwt_service \<Rightarrow> validation" where
  "access_validation L svc =
     (jwt_validation_default L)\<lparr>v_iss := Some [js_issuer svc],
        v_required := [''sub'', ''iss'', ''iat'', ''exp''], v_leeway := CLOCK_SKEW_LEEWAY_SECS\<rparr>"

definition verify_access_token ::
  "lib \<Rightarrow> jwt_service \<Rightarrow> string \<Rightarrow> (jwt_error + access_claims) prog" where
  "verify_access_token L svc token = utc_now (\<lambda>t.
     Ret (case jwt_decode L (js_decoding_key svc) (access_validation L svc)
                 (\<lambda>j. access_claims_of_json j \<noteq> None) (timestamp t) token of
            Inl e \<Rightarrow> Inl (map_jwt_error e)
          | Inr j \<Rightarrow> Inr (the (access_claims_of_json j))))"

definition sign_refresh_token ::
  "lib \<Rightarrow> jwt_service \<Rightarrow> string \<Rightarrow> (string + string \<times> uuid) prog" where
  "sign_refresh_token L svc email = now_v7 (\<lambda>token_id. utc_now (\<lambda>t.
     let now = timestamp t;
         claims = \<lparr>rc_sub = email, rc_jti = uuid_to_string L token_id, rc_iss = js_issuer svc,
                   rc_iat = now, rc_exp = now + js_refresh_ttl_secs svc\<rparr>
     in Ret (case jwt_encode L (js_encoding_key svc) (refresh_claims_to_json claims) of
               Inl e \<Rightarrow> Inl (''failed to sign refresh token: '' @ e)
             | Inr jwt \<Rightarrow> Inr (jwt, token_id))))"

definition refresh_validation :: "lib \<Rightarrow> jwt_service \<Rightarrow> validation" where
  "refresh_validation L svc =
     (jwt_validation_default L)\<lparr>v_iss := Some [js_issuer svc],
        v_required := [''sub'', ''jti'', ''iss'', ''iat'', ''exp''], v_leeway := CLOCK_SKEW_LEEWAY_SECS\<rparr>"

definition verify_refresh_token ::
  "lib \<Rightarrow> jwt_service \<Rightarrow> string \<Rightarrow> (jwt_error + refresh_claims) prog" where
  "verify_refresh_token L svc token = utc_now (\<lambda>t.
     Ret (case jwt_decode L (js_decoding_key svc) (refresh_validation L svc)
                 (\<lambda>j. refresh_claims_of_json j \<noteq> None) (timestamp t) token of
            Inl e \<Rightarrow> Inl (map_jwt_error e)
          | Inr j \<Rightarrow> Inr (the (refresh_claims_of_json j))))"

section \<open>Lemmas\<close>

lemma json_as_i64_sint [simp]: "json_as_i64 (JInt (sint (x :: i64))) = Some x"
  using sint_range_size[of x] by (simp add: word_size)

declare json_as_i64.simps(1) [simp del]

lemma access_claims_roundtrip [simp]: "access_claims_of_json (access_claims_to_json c) = Some c"
  by (simp add: access_claims_of_json_def access_claims_to_json_def str_field_def i64_field_def)

lemma refresh_claims_roundtrip [simp]: "refresh_claims_of_json (refresh_claims_to_json c) = Some c"
  by (simp add: refresh_claims_of_json_def refresh_claims_to_json_def str_field_def i64_field_def)

text \<open>A refresh claim set also reads as an access claim set: the extra \<open>jti\<close> is ignored.\<close>

lemma access_claims_of_refresh:
  "access_claims_of_json (refresh_claims_to_json c) =
     Some \<lparr>ac_sub = rc_sub c, ac_iss = rc_iss c, ac_iat = rc_iat c, ac_exp = rc_exp c\<rparr>"
  by (simp add: access_claims_of_json_def refresh_claims_to_json_def str_field_def i64_field_def)

lemma refresh_claims_of_access: "refresh_claims_of_json (access_claims_to_json c) = None"
  by (simp add: refresh_claims_of_json_def access_claims_to_json_def str_field_def i64_field_def)

lemma validation_simps [simp]:
  assumes "jwt_ok L"
  shows "HS256 \<in> set (v_algorithms (access_validation L svc))"
    "HS256 \<in> set (v_algorithms (refresh_validation L svc))"
  using assms by (simp_all add: access_validation_def refresh_validation_def jwt_ok_def jwt_default_ok_def)

lemma claims_shapes:
  assumes "jwt_ok L"
  shows "ac_iss c = js_issuer svc \<Longrightarrow> claims_shape_ok (access_validation L svc) (access_claims_to_json c)"
    "rc_iss d = js_issuer svc \<Longrightarrow> claims_shape_ok (access_validation L svc) (refresh_claims_to_json d)"
    "rc_iss d = js_issuer svc \<Longrightarrow> claims_shape_ok (refresh_validation L svc) (refresh_claims_to_json d)"
  using assms
  by (simp_all add: claims_shape_ok_def access_validation_def refresh_validation_def jwt_ok_def
      jwt_default_ok_def claim_allows_def claim_texts_def claim_present_def access_claims_to_json_def refresh_claims_to_json_def
      known_claims_def)

lemma leeways [simp]:
  "uint (v_leeway (access_validation L svc)) = 5" "uint (v_leeway (refresh_validation L svc)) = 5"
  by (simp_all add: access_validation_def refresh_validation_def CLOCK_SKEW_LEEWAY_SECS_def)

lemma exp_fields [simp]:
  "json_field (access_claims_to_json c) ''exp'' = Some (JInt (sint (ac_exp c)))"
  "json_field (refresh_claims_to_json d) ''exp'' = Some (JInt (sint (rc_exp d)))"
  by (simp_all add: access_claims_to_json_def refresh_claims_to_json_def)

text \<open>The expiry written into a token, when the sum fits: \<open>now + ttl\<close>.\<close>

lemma sint_exp:
  assumes "0 \<le> sint (now :: i64)" "sint now + uint (ttl :: u64) < 2 ^ 63"
  shows "sint (now + ttl) = sint now + uint ttl"
proof -
  have t: "uint ttl < 2 ^ 63" "- (2 ^ 63) \<le> uint ttl" using assms uint_ge_0[of ttl] by linarith+
  then have ttl: "sint ttl = uint ttl"
    by (simp add: sint_uint signed_take_bit_int_eq_self del: power_numeral)
  have "sint (now + ttl) = signed_take_bit 63 (sint now + sint ttl)"
    by (simp add: sint_word_ariths)
  also have "\<dots> = sint now + sint ttl"
    by (rule signed_take_bit_int_eq_self; use assms ttl t in linarith)
  finally show ?thesis using ttl by simp
qed

text \<open>In general the sum is taken modulo \<open>2 ^ 64\<close>.\<close>

lemma sint_exp_wraps:
  assumes "0 \<le> sint (now :: i64)"
  shows "sint (now + ttl) = (let n = sint now + uint (ttl :: u64) in if n < 2 ^ 63 then n else n - 2 ^ 64)"
proof -
  let ?n = "sint now + uint ttl"
  have r: "sint now < 2 ^ 63" "uint ttl < 2 ^ 64" "0 \<le> uint ttl"
    using sint_range_size[of now] unsigned_less[of ttl, where ?'a = int] by (auto simp: word_size)
  show ?thesis
  proof (cases "?n < 2 ^ 63")
    case True
    then show ?thesis using sint_exp[OF assms True] by (simp add: Let_def)
  next
    case False
    have "word_of_int ?n = now + ttl" by simp
    from arg_cong[OF this, of sint] have "sint (now + ttl) = signed_take_bit 63 ?n"
      unfolding sint_sbintrunc' by simp
    also have "\<dots> = signed_take_bit 63 (?n - 2 ^ 64)"
    proof (subst signed_take_bit_eq_iff_take_bit_eq)
      have "?n mod 2 ^ 64 = (?n - 2 ^ 64) mod 2 ^ 64" by (rule minus_mod_self2[symmetric])
      then show "take_bit (Suc 63) ?n = take_bit (Suc 63) (?n - 2 ^ 64)"
        by (simp add: take_bit_eq_mod del: power_numeral)
    qed
    also have "\<dots> = ?n - 2 ^ 64"
    proof (rule signed_take_bit_int_eq_self)
      have "(2 :: int) ^ 64 = 2 * 2 ^ 63" by simp
      then show "- (2 ^ 63) \<le> ?n - 2 ^ 64" "?n - 2 ^ 64 < 2 ^ 63" using False r by linarith+
    qed
    finally show ?thesis using False by (simp add: Let_def)
  qed
qed

section \<open>Signing and verifying\<close>

text \<open>Seconds since the epoch at which a token signed at \<open>t\<close> with lifetime \<open>ttl\<close> is in range.\<close>

definition fits :: "datetime \<Rightarrow> u64 \<Rightarrow> bool" where
  "fits t ttl \<longleftrightarrow> 0 \<le> sint (timestamp t) \<and> sint (timestamp t) + uint ttl < 2 ^ 63"

lemma fits_exp: "fits t ttl \<Longrightarrow> sint (timestamp t + ttl) = sint (timestamp t) + uint ttl"
  by (simp add: fits_def sint_exp)

lemma fits_exp_nonneg: "fits t ttl \<Longrightarrow> 0 \<le> sint (timestamp t + ttl)"
  by (simp add: fits_exp) (simp add: fits_def)

lemma runs_sign_access:
  "runs (sign_access_token L svc e) tr (Inr a) \<longleftrightarrow> (\<exists>t. tr = [(UtcNow, RUtc t)] \<and>
     jwt_encode L (js_encoding_key svc) (access_claims_to_json
       \<lparr>ac_sub = e, ac_iss = js_issuer svc, ac_iat = timestamp t,
        ac_exp = timestamp t + js_access_ttl_secs svc\<rparr>) = Inr a)"
  by (auto simp: sign_access_token_def runs_calls result_iff Let_def)

lemma runs_sign_refresh_iff:
  "runs (sign_refresh_token L svc e) tr (Inr (r, u)) \<longleftrightarrow> (\<exists>t. tr = [(NowV7, RUuid u), (UtcNow, RUtc t)] \<and>
     jwt_encode L (js_encoding_key svc) (refresh_claims_to_json
       \<lparr>rc_sub = e, rc_jti = uuid_to_string L u, rc_iss = js_issuer svc, rc_iat = timestamp t,
        rc_exp = timestamp t + js_refresh_ttl_secs svc\<rparr>) = Inr r)"
  by (auto simp: sign_refresh_token_def runs_calls result_iff Let_def)

text \<open>A payload encoded under the service's key, verified at \<open>now\<close>: by its expiry alone.\<close>

lemma decode_by_expiry:
  assumes "jwt_ok L" "jwt_encode L key j = Inr t" "HS256 \<in> set (v_algorithms v)" "acc j"
    "claims_shape_ok v j" "json_field j ''exp'' = Some (JInt e)" "0 \<le> e" "0 \<le> sint now"
    "uint (v_leeway v) = 5"
  shows "map_sum map_jwt_error f (jwt_decode L key v acc now t) =
    (if sint now \<le> e + 5 then Inr (f j) else Inl Expired)"
proof (cases "claims_alive v now e")
  case True
  then show ?thesis using jwt_decode_fresh[where acc = acc, OF assms(1-8) True] assms(9) by (simp add: claims_alive_def)
next
  case False
  from jwt_decode_expired[where acc = acc, OF assms(1-8) False] False show ?thesis
    using assms(9) by (auto simp: claims_alive_def)
qed

lemma verify_as_map:
  "verify_access_token L svc token = utc_now (\<lambda>t. Ret (map_sum map_jwt_error (\<lambda>j. the (access_claims_of_json j))
     (jwt_decode L (js_decoding_key svc) (access_validation L svc)
        (\<lambda>j. access_claims_of_json j \<noteq> None) (timestamp t) token)))"
  "verify_refresh_token L svc token = utc_now (\<lambda>t. Ret (map_sum map_jwt_error (\<lambda>j. the (refresh_claims_of_json j))
     (jwt_decode L (js_decoding_key svc) (refresh_validation L svc)
        (\<lambda>j. refresh_claims_of_json j \<noteq> None) (timestamp t) token)))"
  unfolding verify_access_token_def verify_refresh_token_def
  by (auto intro!: arg_cong[where f = utc_now] split: sum.split)

lemma access_verified:
  assumes "jwt_ok L" "js_encoding_key svc = js_decoding_key svc"
    "runs (sign_access_token L svc e) [(UtcNow, RUtc t)] (Inr a)"
    "fits t (js_access_ttl_secs svc)" "0 \<le> sint (timestamp t')"
  shows "runs (verify_access_token L svc a) [(UtcNow, RUtc t')] res \<longleftrightarrow>
    res = (if sint (timestamp t') \<le> sint (timestamp t) + uint (js_access_ttl_secs svc) + 5
           then Inr \<lparr>ac_sub = e, ac_iss = js_issuer svc, ac_iat = timestamp t,
                     ac_exp = timestamp t + js_access_ttl_secs svc\<rparr>
           else Inl Expired)"
proof -
  let ?c = "\<lparr>ac_sub = e, ac_iss = js_issuer svc, ac_iat = timestamp t,
                     ac_exp = timestamp t + js_access_ttl_secs svc\<rparr>"
  have enc: "jwt_encode L (js_decoding_key svc) (access_claims_to_json ?c) = Inr a"
    using assms(2,3) by (simp add: runs_sign_access)
  have "map_sum map_jwt_error (\<lambda>j. the (access_claims_of_json j))
     (jwt_decode L (js_decoding_key svc) (access_validation L svc)
        (\<lambda>j. access_claims_of_json j \<noteq> None) (timestamp t') a) =
     (if sint (timestamp t') \<le> sint (ac_exp ?c) + 5 then Inr (the (access_claims_of_json (access_claims_to_json ?c)))
      else Inl Expired)"
    by (rule decode_by_expiry[OF assms(1) enc])
      (use assms fits_exp_nonneg[OF assms(4)] claims_shapes(1)[OF assms(1), of ?c svc] in simp_all)
  then show ?thesis by (simp add: verify_as_map runs_calls fits_exp[OF assms(4)])
qed

lemma refresh_verified:
  assumes "jwt_ok L" "js_encoding_key svc = js_decoding_key svc"
    "runs (sign_refresh_token L svc e) [(NowV7, RUuid u), (UtcNow, RUtc t)] (Inr (r, u))"
    "fits t (js_refresh_ttl_secs svc)" "0 \<le> sint (timestamp t')"
  shows "runs (verify_refresh_token L svc r) [(UtcNow, RUtc t')] res \<longleftrightarrow>
    res = (if sint (timestamp t') \<le> sint (timestamp t) + uint (js_refresh_ttl_secs svc) + 5
           then Inr \<lparr>rc_sub = e, rc_jti = uuid_to_string L u, rc_iss = js_issuer svc, rc_iat = timestamp t,
                     rc_exp = timestamp t + js_refresh_ttl_secs svc\<rparr>
           else Inl Expired)"
    "runs (verify_access_token L svc r) [(UtcNow, RUtc t')] res' \<longleftrightarrow>
    res' = (if sint (timestamp t') \<le> sint (timestamp t) + uint (js_refresh_ttl_secs svc) + 5
           then Inr \<lparr>ac_sub = e, ac_iss = js_issuer svc, ac_iat = timestamp t,
                     ac_exp = timestamp t + js_refresh_ttl_secs svc\<rparr>
           else Inl Expired)"
proof -
  let ?c = "\<lparr>rc_sub = e, rc_jti = uuid_to_string L u, rc_iss = js_issuer svc, rc_iat = timestamp t,
                     rc_exp = timestamp t + js_refresh_ttl_secs svc\<rparr>"
  have enc: "jwt_encode L (js_decoding_key svc) (refresh_claims_to_json ?c) = Inr r"
    using assms(2,3) by (simp add: runs_sign_refresh_iff)
  have "map_sum map_jwt_error (\<lambda>j. the (refresh_claims_of_json j))
     (jwt_decode L (js_decoding_key svc) (refresh_validation L svc)
        (\<lambda>j. refresh_claims_of_json j \<noteq> None) (timestamp t') r) =
     (if sint (timestamp t') \<le> sint (rc_exp ?c) + 5 then Inr (the (refresh_claims_of_json (refresh_claims_to_json ?c)))
      else Inl Expired)"
    by (rule decode_by_expiry[OF assms(1) enc])
      (use assms fits_exp_nonneg[OF assms(4)] claims_shapes(3)[OF assms(1), of ?c svc] in simp_all)
  then show "runs (verify_refresh_token L svc r) [(UtcNow, RUtc t')] res \<longleftrightarrow>
    res = (if sint (timestamp t') \<le> sint (timestamp t) + uint (js_refresh_ttl_secs svc) + 5
           then Inr ?c else Inl Expired)"
    by (simp add: verify_as_map runs_calls fits_exp[OF assms(4)])
  have "map_sum map_jwt_error (\<lambda>j. the (access_claims_of_json j))
     (jwt_decode L (js_decoding_key svc) (access_validation L svc)
        (\<lambda>j. access_claims_of_json j \<noteq> None) (timestamp t') r) =
     (if sint (timestamp t') \<le> sint (rc_exp ?c) + 5 then Inr (the (access_claims_of_json (refresh_claims_to_json ?c)))
      else Inl Expired)"
    by (rule decode_by_expiry[OF assms(1) enc])
      (use assms fits_exp_nonneg[OF assms(4)] claims_shapes(2)[OF assms(1), of ?c svc]
        access_claims_of_refresh[of ?c] in simp_all)
  then show "runs (verify_access_token L svc r) [(UtcNow, RUtc t')] res' \<longleftrightarrow>
    res' = (if sint (timestamp t') \<le> sint (timestamp t) + uint (js_refresh_ttl_secs svc) + 5
           then Inr \<lparr>ac_sub = e, ac_iss = js_issuer svc, ac_iat = timestamp t,
                     ac_exp = timestamp t + js_refresh_ttl_secs svc\<rparr>
           else Inl Expired)"
    by (simp add: verify_as_map runs_calls fits_exp[OF assms(4)] access_claims_of_refresh)
qed

text \<open>What verification accepts: the service's issuer, and not expired beyond the leeway.\<close>

lemma claim_allows_single:
  "claim_allows j n [x] \<Longrightarrow> str_field j n = Some y \<Longrightarrow> y = x"
  by (auto simp: claim_allows_def claim_texts_def str_field_def split: option.splits json.splits)

lemma access_claims_fields:
  "access_claims_of_json j = Some c \<Longrightarrow>
     str_field j ''iss'' = Some (ac_iss c) \<and> i64_field j ''exp'' = Some (ac_exp c)"
  by (auto simp: access_claims_of_json_def split: option.splits)

lemma refresh_claims_fields:
  "refresh_claims_of_json j = Some c \<Longrightarrow>
     str_field j ''iss'' = Some (rc_iss c) \<and> i64_field j ''exp'' = Some (rc_exp c)"
  by (auto simp: refresh_claims_of_json_def split: option.splits)

lemma i64_field_int:
  assumes "i64_field j n = Some e" shows "json_field j n = Some (JInt (sint e))"
proof -
  from assms obtain v where v: "json_field j n = Some v" "json_as_i64 v = Some e"
    by (auto simp: i64_field_def bind_eq_Some_conv)
  then obtain i where i: "v = JInt i" "- (2 ^ 63) \<le> i" "i < 2 ^ 63" "e = word_of_int i"
    by (cases v) (auto simp: json_as_i64.simps simp del: power_numeral split: if_splits)
  then have "sint e = i"
    by (simp add: sint_sbintrunc' signed_take_bit_int_eq_self del: power_numeral)
  then show ?thesis using v(1) i(1) by simp
qed

lemma verified_sound:
  assumes "jwt_ok L"
  shows "runs (verify_access_token L svc token) [(UtcNow, RUtc t)] (Inr c) \<Longrightarrow>
      ac_iss c = js_issuer svc \<and> sint (timestamp t) \<le> sint (ac_exp c) + 5"
    "runs (verify_refresh_token L svc token) [(UtcNow, RUtc t)] (Inr d) \<Longrightarrow>
      rc_iss d = js_issuer svc \<and> sint (timestamp t) \<le> sint (rc_exp d) + 5"
proof -
  assume "runs (verify_access_token L svc token) [(UtcNow, RUtc t)] (Inr c)"
  then obtain j where j: "jwt_decode L (js_decoding_key svc) (access_validation L svc)
      (\<lambda>j. access_claims_of_json j \<noteq> None) (timestamp t) token = Inr j" "c = the (access_claims_of_json j)"
    by (auto simp: verify_access_token_def runs_calls result_iff)
  note sound = jwt_decode_sound[OF assms j(1)]
  then have c: "access_claims_of_json j = Some c" using j(2) by auto
  have "claim_allows j ''iss'' [js_issuer svc]"
    using sound by (simp add: claims_shape_ok_def access_validation_def)
  moreover have "claims_alive (access_validation L svc) (timestamp t) (sint (ac_exp c))"
    using sound i64_field_int access_claims_fields[OF c] by blast
  ultimately show "ac_iss c = js_issuer svc \<and> sint (timestamp t) \<le> sint (ac_exp c) + 5"
    using claim_allows_single access_claims_fields[OF c] by (auto simp: claims_alive_def)
next
  assume "runs (verify_refresh_token L svc token) [(UtcNow, RUtc t)] (Inr d)"
  then obtain j where j: "jwt_decode L (js_decoding_key svc) (refresh_validation L svc)
      (\<lambda>j. refresh_claims_of_json j \<noteq> None) (timestamp t) token = Inr j" "d = the (refresh_claims_of_json j)"
    by (auto simp: verify_refresh_token_def runs_calls result_iff)
  note sound = jwt_decode_sound[OF assms j(1)]
  then have d: "refresh_claims_of_json j = Some d" using j(2) by auto
  have "claim_allows j ''iss'' [js_issuer svc]"
    using sound by (simp add: claims_shape_ok_def refresh_validation_def)
  moreover have "claims_alive (refresh_validation L svc) (timestamp t) (sint (rc_exp d))"
    using sound i64_field_int refresh_claims_fields[OF d] by blast
  ultimately show "rc_iss d = js_issuer svc \<and> sint (timestamp t) \<le> sint (rc_exp d) + 5"
    using claim_allows_single refresh_claims_fields[OF d] by (auto simp: claims_alive_def)
qed

text \<open>The payload of a signed token is the one that was signed, under whatever validation it is read.\<close>

lemma payload_unique:
  assumes "jwt_ok L" "jwt_encode L key j = Inr t" "HS256 \<in> set (v_algorithms v)" "claims_shape_ok v j"
    "json_field j ''exp'' = Some (JInt e)" "0 \<le> e" "jwt_decode L key' v' acc now t = Inr j'"
  shows "j' = j"
proof -
  have "- uint (v_leeway v) \<le> e" using assms(6) uint_ge_0[of "v_leeway v"] by linarith
  then have "claims_alive v 0 e" by (simp add: claims_alive_def)
  then have "jwt_decode L key v (\<lambda>_. True) 0 t = Inr j"
    by (intro jwt_decode_fresh[OF assms(1,2,3) _ assms(4-6)]) simp_all
  from jwt_decode_stable[OF assms(1) assms(7) this] show ?thesis .
qed

lemma access_payload:
  assumes "jwt_ok L" "runs (sign_access_token L svc e) [(UtcNow, RUtc t)] (Inr a)" "fits t (js_access_ttl_secs svc)"
    "jwt_decode L key v acc now a = Inr j"
  shows "j = access_claims_to_json \<lparr>ac_sub = e, ac_iss = js_issuer svc, ac_iat = timestamp t,
                     ac_exp = timestamp t + js_access_ttl_secs svc\<rparr>"
  using assms(2) fits_exp_nonneg[OF assms(3)] claims_shapes(1)[OF assms(1)]
  by (intro payload_unique[OF assms(1) _ validation_simps(1)[OF assms(1), of svc] _ _ _ assms(4)])
    (auto simp: runs_sign_access)

lemma refresh_payload:
  assumes "jwt_ok L" "runs (sign_refresh_token L svc e) [(NowV7, RUuid u), (UtcNow, RUtc t)] (Inr (r, u))"
    "fits t (js_refresh_ttl_secs svc)" "jwt_decode L key v acc now r = Inr j"
  shows "j = refresh_claims_to_json \<lparr>rc_sub = e, rc_jti = uuid_to_string L u, rc_iss = js_issuer svc,
                     rc_iat = timestamp t, rc_exp = timestamp t + js_refresh_ttl_secs svc\<rparr>"
  using assms(2) fits_exp_nonneg[OF assms(3)] claims_shapes(3)[OF assms(1)]
  by (intro payload_unique[OF assms(1) _ validation_simps(2)[OF assms(1), of svc] _ _ _ assms(4)])
    (auto simp: runs_sign_refresh_iff)

lemma runs_verify_ok:
  "runs (verify_access_token L svc t) tr (Inr c) \<longleftrightarrow> (\<exists>now j. tr = [(UtcNow, RUtc now)] \<and>
     jwt_decode L (js_decoding_key svc) (access_validation L svc) (\<lambda>j. access_claims_of_json j \<noteq> None) (timestamp now) t = Inr j \<and>
     c = the (access_claims_of_json j))"
  "runs (verify_refresh_token L svc t) tr (Inr d) \<longleftrightarrow> (\<exists>now j. tr = [(UtcNow, RUtc now)] \<and>
     jwt_decode L (js_decoding_key svc) (refresh_validation L svc) (\<lambda>j. refresh_claims_of_json j \<noteq> None) (timestamp now) t = Inr j \<and>
     d = the (refresh_claims_of_json j))"
  by (auto simp: verify_access_token_def verify_refresh_token_def runs_calls result_iff)

text \<open>A signed access token is no refresh token: it has no \<open>jti\<close>.\<close>

lemma access_not_refresh:
  assumes "jwt_ok L" "runs (sign_access_token L svc e) [(UtcNow, RUtc t)] (Inr a)" "fits t (js_access_ttl_secs svc)"
  shows "\<not> runs (verify_refresh_token L svc a) tr (Inr c)"
proof
  assume "runs (verify_refresh_token L svc a) tr (Inr c)"
  then obtain n j where j: "jwt_decode L (js_decoding_key svc) (refresh_validation L svc)
      (\<lambda>j. refresh_claims_of_json j \<noteq> None) n a = Inr j" unfolding runs_verify_ok by blast
  with access_payload[OF assms j] jwt_decode_sound[OF assms(1) j] show False by (simp add: refresh_claims_of_access)
qed

text \<open>What a signed token says when it is accepted.\<close>

lemma signed_subject:
  assumes "jwt_ok L"
  shows "runs (sign_access_token L svc e) [(UtcNow, RUtc t)] (Inr a) \<Longrightarrow> fits t (js_access_ttl_secs svc) \<Longrightarrow>
      runs (verify_access_token L svc' a) tr (Inr c) \<Longrightarrow> ac_sub c = e \<and> ac_iss c = js_issuer svc"
    "runs (sign_refresh_token L svc e) [(NowV7, RUuid u), (UtcNow, RUtc t)] (Inr (r, u)) \<Longrightarrow>
      fits t (js_refresh_ttl_secs svc) \<Longrightarrow> runs (verify_refresh_token L svc' r) tr (Inr d) \<Longrightarrow>
      rc_sub d = e \<and> rc_jti d = uuid_to_string L u"
proof -
  assume s: "runs (sign_access_token L svc e) [(UtcNow, RUtc t)] (Inr a)" "fits t (js_access_ttl_secs svc)"
    and "runs (verify_access_token L svc' a) tr (Inr c)"
  then obtain now j where j: "jwt_decode L (js_decoding_key svc') (access_validation L svc')
      (\<lambda>j. access_claims_of_json j \<noteq> None) (timestamp now) a = Inr j" "c = the (access_claims_of_json j)"
    unfolding runs_verify_ok by blast
  show "ac_sub c = e \<and> ac_iss c = js_issuer svc" using access_payload[OF assms s j(1)] j(2) by simp
next
  assume s: "runs (sign_refresh_token L svc e) [(NowV7, RUuid u), (UtcNow, RUtc t)] (Inr (r, u))"
      "fits t (js_refresh_ttl_secs svc)" and "runs (verify_refresh_token L svc' r) tr (Inr d)"
  then obtain now j where j: "jwt_decode L (js_decoding_key svc') (refresh_validation L svc')
      (\<lambda>j. refresh_claims_of_json j \<noteq> None) (timestamp now) r = Inr j" "d = the (refresh_claims_of_json j)"
    unfolding runs_verify_ok by blast
  show "rc_sub d = e \<and> rc_jti d = uuid_to_string L u" using refresh_payload[OF assms s j(1)] j(2) by simp
qed

end
