(* ===== verification/Refresh_Store.thy ===== *)
theory Refresh_Store
  imports Effects
begin

text \<open>
  \<open>src/refresh_store.rs\<close> and \<open>src/rotation.rs\<close>: the refresh tokens and the revoked families in
  the \<open>EPHEMERAL_AUTH\<close> bucket (two typed views of one bucket, told apart by the key prefix), the
  compare-and-swap that marks a token as used, and the rotation of a token. The lemmas execute
  each operation symbolically against any replies.
\<close>

section \<open>Errors and keys\<close>

datatype store_error =
    StoreOpen fabric_error
  | StoreKv fabric_error
  | StoreKey string
  | StoreConflict uuid

fun store_error_to_string :: "lib \<Rightarrow> store_error \<Rightarrow> string" where
  "store_error_to_string L (StoreOpen e) =
     ''opening the EPHEMERAL_AUTH store failed: '' @ fabric_error_to_string e"
| "store_error_to_string L (StoreKv e) = ''EPHEMERAL_AUTH KV error: '' @ fabric_error_to_string e"
| "store_error_to_string L (StoreKey m) = ''invalid KV key: '' @ m"
| "store_error_to_string L (StoreConflict u) =
     ''refresh token rotation lost the compare-and-swap race: '' @ uuid_to_string L u"

definition REFRESH_PREFIX :: string where "REFRESH_PREFIX = ''refresh.''"
definition REVOKED_PREFIX :: string where "REVOKED_PREFIX = ''revoked.''"

definition refresh_key :: "lib \<Rightarrow> uuid \<Rightarrow> store_error + kv_key" where
  "refresh_key L token_id =
     (case kv_key_new L (REFRESH_PREFIX @ uuid_to_string L token_id) of
        Inl e \<Rightarrow> Inl (StoreKey e) | Inr k \<Rightarrow> Inr k)"

definition revoked_key :: "lib \<Rightarrow> uuid \<Rightarrow> store_error + kv_key" where
  "revoked_key L family_id =
     (case kv_key_new L (REVOKED_PREFIX @ uuid_to_string L family_id) of
        Inl e \<Rightarrow> Inl (StoreKey e) | Inr k \<Rightarrow> Inr k)"

section \<open>Operations of the store\<close>

definition store :: "lib \<Rightarrow> refresh_token \<Rightarrow> (store_error + unit) prog" where
  "store L token =
     (case refresh_key L (rt_id token) of
        Inl e \<Rightarrow> Ret (Inl e)
      | Inr key \<Rightarrow> tok_put key token (\<lambda>res.
          Ret (case res of Inl e \<Rightarrow> Inl (StoreKv e) | Inr u \<Rightarrow> Inr u)))"

definition find_by_id :: "lib \<Rightarrow> uuid \<Rightarrow> (store_error + (refresh_token \<times> revision) option) prog" where
  "find_by_id L token_id =
     (case refresh_key L token_id of
        Inl e \<Rightarrow> Ret (Inl e)
      | Inr key \<Rightarrow> tok_get key (\<lambda>res.
          Ret (case res of Inl e \<Rightarrow> Inl (StoreKv e) | Inr x \<Rightarrow> Inr x)))"

definition mark_used ::
  "lib \<Rightarrow> refresh_token \<Rightarrow> uuid \<Rightarrow> revision \<Rightarrow> (store_error + unit) prog" where
  "mark_used L old replaced_by revision =
     (case refresh_key L (rt_id old) of
        Inl e \<Rightarrow> Ret (Inl e)
      | Inr key \<Rightarrow> utc_now (\<lambda>now.
          let token = old\<lparr>rt_used_at := Some now, rt_replaced_by := Some replaced_by\<rparr> in
          tok_update_if key token revision (\<lambda>res.
            Ret (case res of
                   Inr u \<Rightarrow> Inr u
                 | Inl (RevisionConflict _) \<Rightarrow> Inl (StoreConflict (rt_id old))
                 | Inl e \<Rightarrow> Inl (StoreKv e)))))"

definition revoke_family :: "lib \<Rightarrow> uuid \<Rightarrow> (store_error + unit) prog" where
  "revoke_family L family_id =
     (case revoked_key L family_id of
        Inl e \<Rightarrow> Ret (Inl e)
      | Inr key \<Rightarrow> utc_now (\<lambda>now.
          fam_put key \<lparr>revoked_at = now\<rparr> (\<lambda>res.
            Ret (case res of Inl e \<Rightarrow> Inl (StoreKv e) | Inr u \<Rightarrow> Inr u))))"

definition is_family_revoked :: "lib \<Rightarrow> uuid \<Rightarrow> bool prog" where
  "is_family_revoked L family_id =
     (case revoked_key L family_id of
        Inr key \<Rightarrow> fam_get key (\<lambda>res. Ret (case res of Inr (Some _) \<Rightarrow> True | _ \<Rightarrow> False))
      | Inl _ \<Rightarrow> Ret False)"

definition store_is_healthy :: "bool prog" where
  "store_is_healthy = tok_status (\<lambda>res. Ret (case res of Inr _ \<Rightarrow> True | Inl _ \<Rightarrow> False))"

section \<open>Rotation\<close>

datatype rotation_error = Reuse uuid | RotStore store_error

definition rotate_token ::
  "lib \<Rightarrow> refresh_token \<Rightarrow> revision \<Rightarrow> refresh_token \<Rightarrow> (rotation_error + unit) prog" where
  "rotate_token L old revision new =
     (if rt_used_at old \<noteq> None then
        bind (revoke_family L (rt_family_id old)) (\<lambda>_.
          Ret (Inl (Reuse (rt_family_id old))))
      else
        bind (store L new) (\<lambda>stored.
          case stored of
            Inl e \<Rightarrow> Ret (Inl (RotStore e))
          | Inr _ \<Rightarrow>
              bind (mark_used L old (rt_id new) revision) (\<lambda>marked.
                case marked of
                  Inr _ \<Rightarrow> Ret (Inr ())
                | Inl (StoreConflict _) \<Rightarrow>
                    bind (revoke_family L (rt_family_id old)) (\<lambda>_.
                      Ret (Inl (Reuse (rt_family_id old))))
                | Inl e \<Rightarrow> Ret (Inl (RotStore e)))))"

section \<open>Keys\<close>

lemma refresh_keyD:
  "kv_key_ok L \<Longrightarrow> refresh_key L u = Inr k \<Longrightarrow> k = KvKey (REFRESH_PREFIX @ uuid_to_string L u)"
  by (auto simp: refresh_key_def dest: kv_key_newD split: sum.splits)

lemma revoked_keyD:
  "kv_key_ok L \<Longrightarrow> revoked_key L u = Inr k \<Longrightarrow> k = KvKey (REVOKED_PREFIX @ uuid_to_string L u)"
  by (auto simp: revoked_key_def dest: kv_key_newD split: sum.splits)

lemma refresh_key_inj:
  assumes "uuid_ok L" "kv_key_ok L" "refresh_key L u = Inr k" "refresh_key L v = Inr k"
  shows "u = v"
  using refresh_keyD[OF assms(2,3)] refresh_keyD[OF assms(2,4)] uuid_to_string_inj[OF assms(1)]
  by auto

lemma revoked_key_inj:
  assumes "uuid_ok L" "kv_key_ok L" "revoked_key L u = Inr k" "revoked_key L v = Inr k"
  shows "u = v"
  using revoked_keyD[OF assms(2,3)] revoked_keyD[OF assms(2,4)] uuid_to_string_inj[OF assms(1)]
  by auto

text \<open>The two views of the bucket never share a key.\<close>

lemma views_disjoint:
  assumes "kv_key_ok L" "refresh_key L u = Inr k" "revoked_key L v = Inr k'"
  shows "k \<noteq> k'"
  using refresh_keyD[OF assms(1,2)] revoked_keyD[OF assms(1,3)]
  by (auto simp: REFRESH_PREFIX_def REVOKED_PREFIX_def)

section \<open>What the operations do, on every branch\<close>

lemma runs_store:
  "runs (store L v) tr res \<longleftrightarrow>
     (\<exists>e. refresh_key L (rt_id v) = Inl e \<and> tr = [] \<and> res = Inl e) \<or>
     (\<exists>k x. refresh_key L (rt_id v) = Inr k \<and> tr = [(TokPut k v, RDone x)] \<and>
        res = (case x of Inl e \<Rightarrow> Inl (StoreKv e) | Inr u \<Rightarrow> Inr u))"
  by (auto simp: store_def runs_simps)

lemma runs_find_by_id:
  "runs (find_by_id L u) tr res \<longleftrightarrow>
     (\<exists>e. refresh_key L u = Inl e \<and> tr = [] \<and> res = Inl e) \<or>
     (\<exists>k x. refresh_key L u = Inr k \<and> tr = [(TokGet k, RTok x)] \<and>
        res = (case x of Inl e \<Rightarrow> Inl (StoreKv e) | Inr y \<Rightarrow> Inr y))"
  by (auto simp: find_by_id_def runs_simps)

lemma runs_mark_used:
  "runs (mark_used L old rb n) tr res \<longleftrightarrow>
     (\<exists>e. refresh_key L (rt_id old) = Inl e \<and> tr = [] \<and> res = Inl e) \<or>
     (\<exists>k now x. refresh_key L (rt_id old) = Inr k \<and>
        tr = [(UtcNow, RUtc now),
              (TokUpdateIf k (old\<lparr>rt_used_at := Some now, rt_replaced_by := Some rb\<rparr>) n, RDone x)] \<and>
        res = (case x of Inr u \<Rightarrow> Inr u
               | Inl (RevisionConflict _) \<Rightarrow> Inl (StoreConflict (rt_id old))
               | Inl e \<Rightarrow> Inl (StoreKv e)))"
  by (auto simp: mark_used_def runs_simps Let_def)

lemma runs_revoke_family:
  "runs (revoke_family L f) tr res \<longleftrightarrow>
     (\<exists>e. revoked_key L f = Inl e \<and> tr = [] \<and> res = Inl e) \<or>
     (\<exists>k now x. revoked_key L f = Inr k \<and>
        tr = [(UtcNow, RUtc now), (FamPut k \<lparr>revoked_at = now\<rparr>, RDone x)] \<and>
        res = (case x of Inl e \<Rightarrow> Inl (StoreKv e) | Inr u \<Rightarrow> Inr u))"
  by (auto simp: revoke_family_def runs_simps)

lemma runs_is_family_revoked:
  "runs (is_family_revoked L f) tr b \<longleftrightarrow>
     (\<exists>e. revoked_key L f = Inl e \<and> tr = [] \<and> b = False) \<or>
     (\<exists>k x. revoked_key L f = Inr k \<and> tr = [(FamGet k, RFam x)] \<and>
        b = (case x of Inr (Some _) \<Rightarrow> True | _ \<Rightarrow> False))"
  by (auto simp: is_family_revoked_def runs_simps)

lemma runs_find_row_iff:
  "runs (find_by_id L u) tr (Inr (Some (row, n))) \<longleftrightarrow>
     (\<exists>k. refresh_key L u = Inr k \<and> tr = [(TokGet k, RTok (Inr (Some (row, n))))])"
  by (auto simp: runs_find_by_id result_iff split: sum.splits)

lemmas store_runs =
  runs_store runs_find_by_id runs_mark_used runs_revoke_family runs_is_family_revoked

text \<open>The three outcomes of a rotation, with the requests that lead to each.\<close>

definition revoke_trace :: "lib \<Rightarrow> uuid \<Rightarrow> event list \<Rightarrow> bool" where
  "revoke_trace L f tr \<longleftrightarrow> (\<exists>res. runs (revoke_family L f) tr res)"

lemma runs_case_store_error [runs_simps]:
  "runs (case e of StoreOpen a \<Rightarrow> f a | StoreKv b \<Rightarrow> g b | StoreKey c \<Rightarrow> h c | StoreConflict d \<Rightarrow> k d) tr y \<longleftrightarrow>
     (\<exists>a. e = StoreOpen a \<and> runs (f a) tr y) \<or> (\<exists>b. e = StoreKv b \<and> runs (g b) tr y) \<or>
     (\<exists>c. e = StoreKey c \<and> runs (h c) tr y) \<or> (\<exists>d. e = StoreConflict d \<and> runs (k d) tr y)"
  by (cases e) auto

lemma mark_result_iff:
  "Inr (y :: unit) = (case x of Inr u \<Rightarrow> Inr u | Inl (RevisionConflict _) \<Rightarrow> Inl (StoreConflict i)
     | Inl e \<Rightarrow> Inl (StoreKv e)) \<longleftrightarrow> x = Inr y"
  "Inl z = (case x of Inr u \<Rightarrow> Inr u | Inl (RevisionConflict _) \<Rightarrow> Inl (StoreConflict i)
     | Inl e \<Rightarrow> Inl (StoreKv e)) \<longleftrightarrow>
     (\<exists>m. x = Inl (RevisionConflict m) \<and> z = StoreConflict i) \<or>
     (\<exists>e. x = Inl e \<and> (\<forall>m. e \<noteq> RevisionConflict m) \<and> z = StoreKv e)"
  by (auto split: sum.splits fabric_error.splits)

lemma rotate_ok:
  "runs (rotate_token L old n new) tr (Inr u) \<longleftrightarrow>
     rt_used_at old = None \<and>
     (\<exists>k k' now. refresh_key L (rt_id new) = Inr k' \<and> refresh_key L (rt_id old) = Inr k \<and>
        tr = [(TokPut k' new, RDone (Inr ())), (UtcNow, RUtc now),
              (TokUpdateIf k (old\<lparr>rt_used_at := Some now, rt_replaced_by := Some (rt_id new)\<rparr>) n,
               RDone (Inr ()))])"
  unfolding rotate_token_def
  by (auto simp: runs_simps runs_store runs_mark_used mark_result_iff)

lemma rotate_reuse:
  "runs (rotate_token L old n new) tr (Inl (Reuse f)) \<Longrightarrow>
     f = rt_family_id old \<and> (\<exists>t1 t2. tr = t1 @ t2 \<and> revoke_trace L f t2)"
  unfolding rotate_token_def revoke_trace_def
  by (auto simp: runs_simps) (metis append_Nil append_assoc)+

lemma rotate_replay:
  "rt_used_at old \<noteq> None \<Longrightarrow>
     runs (rotate_token L old n new) tr res \<longleftrightarrow>
       res = Inl (Reuse (rt_family_id old)) \<and> revoke_trace L (rt_family_id old) tr"
  by (auto simp: rotate_token_def revoke_trace_def runs_simps)

end
