(* ===== verification/App_State.thy ===== *)
theory App_State
  imports Cookies Jwt Refresh_Store Bearer Oidc
begin

text \<open>
  \<open>AppState\<close> of \<open>src/lib.rs\<close> and the pieces of response that several handlers share: the pair of
  token cookies, the pair of clearing cookies, and the session cookie added when the request had
  none. Each sets \<open>Set-Cookie\<close> headers through a parse that panics on text that is no header value.
\<close>

record app_state =
  as_jwt :: jwt_service
  as_oidc :: oidc_validator
  as_bearer_key :: bearer_seal_key
  as_cookie_config :: cookie_config
  as_auth_check_silent_refresh :: bool

text \<open>\<open>hdrs.insert(SET_COOKIE, first)\<close> and \<open>hdrs.append(SET_COOKIE, second)\<close> on a response.\<close>

definition set_two_cookies ::
  "lib \<Rightarrow> string \<Rightarrow> string \<Rightarrow> http_response \<Rightarrow> http_response prog" where
  "set_two_cookies L first second response =
     parse_header L first (\<lambda>a. parse_header L second (\<lambda>b.
       Ret (header_append SET_COOKIE b (header_insert SET_COOKIE a response))))"

definition append_session_cookie_if_needed ::
  "lib \<Rightarrow> app_state \<Rightarrow> string option \<Rightarrow> http_response \<Rightarrow> http_response prog" where
  "append_session_cookie_if_needed L S existing response =
     (if existing \<noteq> None then Ret response
      else now_v7 (\<lambda>u.
        let session_id = uuid_to_string L u;
            cookie = build_session_cookie L session_id (as_cookie_config S)
        in parse_header L cookie (\<lambda>c. Ret (header_append SET_COOKIE c response))))"

section \<open>Lemmas\<close>

lemma runs_set_two_cookies [runs_simps]:
  "runs (set_two_cookies L a b r) tr y \<longleftrightarrow>
     tr = [] \<and> (\<exists>a' b'. header_value_parse L a = Some a' \<and> header_value_parse L b = Some b' \<and>
        y = header_append SET_COOKIE b' (header_insert SET_COOKIE a' r))"
  by (auto simp: set_two_cookies_def runs_simps)

lemma runs_append_session [runs_simps]:
  "runs (append_session_cookie_if_needed L S ex r) tr y \<longleftrightarrow>
     (ex \<noteq> None \<and> tr = [] \<and> y = r) \<or>
     (ex = None \<and> (\<exists>u c. tr = [(NowV7, RUuid u)] \<and>
        header_value_parse L (build_session_cookie L (uuid_to_string L u) (as_cookie_config S)) = Some c \<and>
        y = header_append SET_COOKIE c r))"
  by (auto simp: append_session_cookie_if_needed_def runs_simps Let_def)

end
