(* ===== verification/Endpoints.thy ===== *)
theory Endpoints
  imports App_State
begin

text \<open>
  The four authentication endpoints: \<open>src/token.rs\<close> (\<open>POST /auth/token\<close>), \<open>src/refresh.rs\<close>
  (\<open>POST /auth/refresh\<close>), \<open>src/auth_check.rs\<close> (\<open>GET /auth/check\<close>) and \<open>src/logout.rs\<close>
  (\<open>POST /auth/logout\<close>), each as one program from the request to the response.
\<close>

section \<open>src/token.rs\<close>

record token_request =
  tr_grant_type :: "string option"
  tr_id_token :: "string option"

definition bearer_body :: "u64 \<Rightarrow> json" where
  "bearer_body access_ttl =
     JObj [(''token_type'', JStr ''Bearer''), (''expires_in'', JInt (uint access_ttl))]"

definition handle_token ::
  "lib \<Rightarrow> app_state \<Rightarrow> token_request \<Rightarrow> (app_error + http_response) prog" where
  "handle_token L S body =
     (case tr_grant_type body of
        None \<Rightarrow> Ret (Inl (Validation ''grant_type is required''))
      | Some grant_type \<Rightarrow>
     if grant_type \<noteq> ''id_token'' then
       Ret (Inl (Validation (''unsupported grant_type; expected '' @ [CHR 0x22] @ ''id_token'' @ [CHR 0x22])))
     else
     (case Option.bind (tr_id_token body) (\<lambda>t. if t \<noteq> [] then Some t else None) of
        None \<Rightarrow> Ret (Inl (Validation ''id_token is required''))
      | Some id_token \<Rightarrow>
     bind (verify_id_token L (as_oidc S) id_token) (\<lambda>verified. case verified of
        Inl msg \<Rightarrow> Ret (Inl (Unauthorized msg))
      | Inr claims \<Rightarrow>
     if oc_email claims = [] then Ret (Inl (Validation ''no_email_in_token''))
     else
     bind (sign_access_token L (as_jwt S) (oc_email claims)) (\<lambda>signed. case signed of
        Inl e \<Rightarrow> Ret (Inl (Internal e))
      | Inr access_token \<Rightarrow>
     bind (sign_refresh_token L (as_jwt S) (oc_email claims)) (\<lambda>signed. case signed of
        Inl e \<Rightarrow> Ret (Inl (Internal e))
      | Inr (refresh_jwt, token_id) \<Rightarrow>
     now_v7 (\<lambda>family_id. utc_now (\<lambda>now.
     let refresh_token = \<lparr>rt_id = token_id, rt_email = oc_email claims, rt_family_id = family_id,
           rt_used_at = None, rt_replaced_by = None, rt_created_at = now\<rparr> in
     bind (store L refresh_token) (\<lambda>stored. case stored of
        Inl e \<Rightarrow> Ret (Inl (Internal ''failed to create session''))
      | Inr _ \<Rightarrow>
     bind (set_two_cookies L
             (build_access_cookie access_token (as_cookie_config S))
             (build_refresh_cookie refresh_jwt (as_cookie_config S))
             (json_response 200 (bearer_body (js_access_ttl_secs (as_jwt S))))) (\<lambda>response.
     Ret (Inr response))))))))))"

text \<open>\<open>body\<close> is \<open>None\<close> when axum rejected it as JSON of a \<open>TokenRequest\<close>.\<close>

definition token_handler ::
  "lib \<Rightarrow> app_state \<Rightarrow> headers \<Rightarrow> token_request option \<Rightarrow> http_response prog" where
  "token_handler L S headers body =
     (case body of
        None \<Rightarrow> Ret (app_error_into_response (Validation ''invalid request body''))
      | Some body \<Rightarrow>
          (let existing_session = extract_session_cookie L headers (as_cookie_config S) in
           bind (handle_token L S body) (\<lambda>res. case res of
             Inr r \<Rightarrow> append_session_cookie_if_needed L S existing_session r
           | Inl e \<Rightarrow> Ret (app_error_into_response e))))"

section \<open>src/refresh.rs\<close>

record refresh_request =
  rr_refresh_token :: "string option"

definition resolve_refresh_token ::
  "lib \<Rightarrow> refresh_request \<Rightarrow> headers \<Rightarrow> cookie_config \<Rightarrow> string option" where
  "resolve_refresh_token L body headers config =
     (case rr_refresh_token body of
        Some t \<Rightarrow> if t \<noteq> [] then Some t else extract_refresh_cookie L headers config
      | None \<Rightarrow> extract_refresh_cookie L headers config)"

definition handle_refresh ::
  "lib \<Rightarrow> app_state \<Rightarrow> refresh_request \<Rightarrow> headers \<Rightarrow> (app_error + http_response) prog" where
  "handle_refresh L S body headers =
     (case resolve_refresh_token L body headers (as_cookie_config S) of
        None \<Rightarrow> Ret (Inr (json_response 200 (JObj [(''status'', JStr ''no_session'')])))
      | Some refresh_jwt \<Rightarrow>
     bind (verify_refresh_token L (as_jwt S) refresh_jwt) (\<lambda>verified. case verified of
        Inl Expired \<Rightarrow> Ret (Inl (Unauthorized ''refresh_token_expired''))
      | Inl (Invalid _) \<Rightarrow> Ret (Inl (Unauthorized ''invalid_refresh_token''))
      | Inr claims \<Rightarrow>
     (case uuid_parse_str L (rc_jti claims) of
        None \<Rightarrow> Ret (Inl (Unauthorized ''invalid_refresh_token''))
      | Some jti \<Rightarrow>
     bind (find_by_id L jti) (\<lambda>found. case found of
        Inl e \<Rightarrow> Ret (Inl (Internal (store_error_to_string L e)))
      | Inr None \<Rightarrow> Ret (Inl (Unauthorized ''invalid_refresh_token''))
      | Inr (Some (token_row, revision)) \<Rightarrow>
     bind (is_family_revoked L (rt_family_id token_row)) (\<lambda>revoked.
     if revoked then Ret (Inl (Unauthorized ''token_family_revoked''))
     else
     bind (sign_access_token L (as_jwt S) (rc_sub claims)) (\<lambda>signed. case signed of
        Inl e \<Rightarrow> Ret (Inl (Internal e))
      | Inr new_access \<Rightarrow>
     bind (sign_refresh_token L (as_jwt S) (rc_sub claims)) (\<lambda>signed. case signed of
        Inl e \<Rightarrow> Ret (Inl (Internal e))
      | Inr (new_refresh_jwt, new_token_id) \<Rightarrow>
     utc_now (\<lambda>now.
     let new_token = \<lparr>rt_id = new_token_id, rt_email = rc_sub claims,
           rt_family_id = rt_family_id token_row, rt_used_at = None, rt_replaced_by = None,
           rt_created_at = now\<rparr> in
     bind (rotate_token L token_row revision new_token) (\<lambda>rotated. case rotated of
        Inl (Reuse family_id) \<Rightarrow> Ret (Inl (Unauthorized ''token_reuse_detected''))
      | Inl (RotStore e) \<Rightarrow> Ret (Inl (Internal (store_error_to_string L e)))
      | Inr _ \<Rightarrow>
     bind (set_two_cookies L
             (build_access_cookie new_access (as_cookie_config S))
             (build_refresh_cookie new_refresh_jwt (as_cookie_config S))
             (json_response 200 (bearer_body (js_access_ttl_secs (as_jwt S))))) (\<lambda>response.
     Ret (Inr response)))))))))))"

text \<open>A body axum rejected is taken as the default request, which has no token.\<close>

definition refresh_handler ::
  "lib \<Rightarrow> app_state \<Rightarrow> headers \<Rightarrow> refresh_request option \<Rightarrow> http_response prog" where
  "refresh_handler L S headers body =
     (let body = (case body of Some b \<Rightarrow> b | None \<Rightarrow> \<lparr>rr_refresh_token = None\<rparr>);
          existing_session = extract_session_cookie L headers (as_cookie_config S) in
      bind (bind (handle_refresh L S body headers) (\<lambda>res. case res of
              Inr r \<Rightarrow> Ret r
            | Inl e \<Rightarrow>
                (let response = app_error_into_response e in
                 if status response = 401 then
                   set_two_cookies L (build_clear_access_cookie (as_cookie_config S))
                     (build_clear_refresh_cookie (as_cookie_config S)) response
                 else Ret response))) (\<lambda>response.
        append_session_cookie_if_needed L S existing_session response))"

section \<open>src/auth\_check.rs\<close>

definition clear_cookies_response :: "lib \<Rightarrow> app_state \<Rightarrow> http_response prog" where
  "clear_cookies_response L S =
     set_two_cookies L (build_clear_access_cookie (as_cookie_config S))
       (build_clear_refresh_cookie (as_cookie_config S)) (status_response 200)"

definition clear_access_cookie_response :: "lib \<Rightarrow> app_state \<Rightarrow> http_response prog" where
  "clear_access_cookie_response L S =
     parse_header L (build_clear_access_cookie (as_cookie_config S)) (\<lambda>c.
       Ret (header_insert SET_COOKIE c (status_response 200)))"

definition silent_refresh :: "lib \<Rightarrow> app_state \<Rightarrow> headers \<Rightarrow> http_response prog" where
  "silent_refresh L S headers =
     (case extract_refresh_cookie L headers (as_cookie_config S) of
        None \<Rightarrow> clear_access_cookie_response L S
      | Some refresh_jwt \<Rightarrow>
     bind (verify_refresh_token L (as_jwt S) refresh_jwt) (\<lambda>verified. case verified of
        Inl Expired \<Rightarrow> clear_cookies_response L S
      | Inl (Invalid _) \<Rightarrow> clear_cookies_response L S
      | Inr claims \<Rightarrow>
     (case uuid_parse_str L (rc_jti claims) of
        None \<Rightarrow> clear_cookies_response L S
      | Some jti \<Rightarrow>
     bind (find_by_id L jti) (\<lambda>found. case found of
        Inr (Some (token_row, revision)) \<Rightarrow>
     bind (is_family_revoked L (rt_family_id token_row)) (\<lambda>revoked.
     if revoked then clear_cookies_response L S
     else
     bind (sign_access_token L (as_jwt S) (rc_sub claims)) (\<lambda>signed. case signed of
        Inl e \<Rightarrow> clear_cookies_response L S
      | Inr new_access \<Rightarrow>
     bind (sign_refresh_token L (as_jwt S) (rc_sub claims)) (\<lambda>signed. case signed of
        Inl e \<Rightarrow> clear_cookies_response L S
      | Inr (new_refresh_jwt, new_token_id) \<Rightarrow>
     utc_now (\<lambda>now.
     let new_token = \<lparr>rt_id = new_token_id, rt_email = rc_sub claims,
           rt_family_id = rt_family_id token_row, rt_used_at = None, rt_replaced_by = None,
           rt_created_at = now\<rparr> in
     bind (rotate_token L token_row revision new_token) (\<lambda>rotated. case rotated of
        Inl (Reuse family_id) \<Rightarrow> clear_cookies_response L S
      | Inl (RotStore e) \<Rightarrow> clear_cookies_response L S
      | Inr _ \<Rightarrow>
     set_two_cookies L
       (build_access_cookie new_access (as_cookie_config S))
       (build_refresh_cookie new_refresh_jwt (as_cookie_config S))
       (status_response 200))))))
      | Inr None \<Rightarrow> clear_cookies_response L S
      | Inl e \<Rightarrow> clear_cookies_response L S))))"

definition handle_jwt_cookie :: "lib \<Rightarrow> app_state \<Rightarrow> string \<Rightarrow> headers \<Rightarrow> http_response prog" where
  "handle_jwt_cookie L S token headers =
     bind (verify_access_token L (as_jwt S) token) (\<lambda>verified. case verified of
        Inr _ \<Rightarrow> Ret (status_response 200)
      | Inl Expired \<Rightarrow>
          if as_auth_check_silent_refresh S then silent_refresh L S headers
          else Ret (status_response 401)
      | Inl (Invalid _) \<Rightarrow>
          if as_auth_check_silent_refresh S then clear_cookies_response L S
          else Ret (status_response 401))"

definition resolved_bearer_response :: "lib \<Rightarrow> bearer_entry \<Rightarrow> http_response prog" where
  "resolved_bearer_response L entry =
     (let actor_header = (if is_human (be_actor entry) then ''x-auth-user-id''
                          else ''x-auth-service-account-id'') in
      parse_header L (uuid_to_string L (actor_id (be_actor entry))) (\<lambda>a.
      parse_header L (uuid_to_string L (be_token_id entry)) (\<lambda>t.
        Ret (header_insert ''x-auth-token-id'' t
               (header_insert actor_header a (status_response 200))))))"

text \<open>\<open>&s[..n]\<close>, which panics inside a UTF-8 sequence: \<open>None\<close> there.\<close>

definition str_take :: "nat \<Rightarrow> string \<Rightarrow> string option" where
  "str_take n s =
     (if n \<le> length s \<and> (n < length s \<longrightarrow> \<not> (128 \<le> (of_char (s ! n) :: nat) \<and> (of_char (s ! n) :: nat) < 192))
      then Some (take n s) else None)"

definition bearer_token_of :: "string \<Rightarrow> string option" where
  "bearer_token_of auth_value =
     (if length auth_value \<ge> 7 then
        (case str_take 7 auth_value of
           None \<Rightarrow> None
         | Some p \<Rightarrow> Some (if eq_ignore_ascii_case p ''bearer '' then drop 7 auth_value else auth_value))
      else Some auth_value)"

definition handle_bearer :: "lib \<Rightarrow> app_state \<Rightarrow> string \<Rightarrow> http_response prog" where
  "handle_bearer L S auth_value =
     (case bearer_token_of auth_value of
        None \<Rightarrow> Panic
      | Some token \<Rightarrow>
          bind (resolve L (as_bearer_key S) token) (\<lambda>res. case res of
             Inr (Some entry) \<Rightarrow> resolved_bearer_response L entry
           | Inr None \<Rightarrow> Ret (status_response 401)
           | Inl e \<Rightarrow> Ret (status_response 502)))"

definition auth_check_handler :: "lib \<Rightarrow> app_state \<Rightarrow> headers \<Rightarrow> http_response prog" where
  "auth_check_handler L S headers =
     (let existing_session = extract_session_cookie L headers (as_cookie_config S) in
      case extract_access_cookie L headers (as_cookie_config S) of
        Some access_token \<Rightarrow>
          bind (handle_jwt_cookie L S access_token headers) (\<lambda>response.
            append_session_cookie_if_needed L S existing_session response)
      | None \<Rightarrow>
          (case Option.bind (headers ''authorization'') (header_to_str L) of
             Some auth_value \<Rightarrow> handle_bearer L S auth_value
           | None \<Rightarrow> append_session_cookie_if_needed L S existing_session (status_response 200)))"

section \<open>src/logout.rs\<close>

text \<open>The chain of conditions ends at the first that fails; the outcome of the revocation is only logged.\<close>

definition logout_revocation :: "lib \<Rightarrow> app_state \<Rightarrow> headers \<Rightarrow> unit prog" where
  "logout_revocation L S headers =
     (case extract_refresh_cookie L headers (as_cookie_config S) of
        None \<Rightarrow> Ret ()
      | Some token_jwt \<Rightarrow>
          bind (verify_refresh_token L (as_jwt S) token_jwt) (\<lambda>verified. case verified of
             Inl _ \<Rightarrow> Ret ()
           | Inr claims \<Rightarrow>
               (case uuid_parse_str L (rc_jti claims) of
                  None \<Rightarrow> Ret ()
                | Some jti \<Rightarrow>
                    bind (find_by_id L jti) (\<lambda>found. case found of
                       Inr (Some (row, revision)) \<Rightarrow>
                         bind (revoke_family L (rt_family_id row)) (\<lambda>_. Ret ())
                     | Inr None \<Rightarrow> Ret ()
                     | Inl _ \<Rightarrow> Ret ()))))"

definition logout_handler :: "lib \<Rightarrow> app_state \<Rightarrow> headers \<Rightarrow> http_response prog" where
  "logout_handler L S headers =
     bind (logout_revocation L S headers) (\<lambda>_.
       set_two_cookies L (build_clear_access_cookie (as_cookie_config S))
         (build_clear_refresh_cookie (as_cookie_config S))
         (json_response 200 (JObj [(''status'', JStr ''logged_out'')])))"

end
