(* ===== verification/Renewal.thy ===== *)
theory Renewal
  imports Endpoints
begin

text \<open>
  The common core of the two rotation endpoints. \<open>src/refresh.rs\<close> and \<open>src/auth_check.rs\<close> each
  write out the same sequence (verify the refresh token, look its row up, check the family,
  sign, rotate) and differ in how they answer. \<open>renewal\<close> is that sequence as an abstract program
  with one outcome per branch; both endpoints are proved to be \<open>renewal\<close> followed by an answer
  that makes no request, so what is shown of \<open>renewal\<close> holds of both.
\<close>

datatype outcome =
    TokenExpired
  | TokenInvalid
  | JtiInvalid
  | LookupFailed store_error
  | RowMissing
  | FamilyRevoked uuid
  | SigningFailed string
  | ReuseDetected uuid
  | RotationFailed store_error
  | Renewed string string  \<comment> \<open>access token and refresh token\<close>

definition renewal_rotate ::
  "lib \<Rightarrow> app_state \<Rightarrow> refresh_claims \<Rightarrow> refresh_token \<Rightarrow> revision \<Rightarrow> outcome prog" where
  "renewal_rotate L S claims token_row revision =
     bind (sign_access_token L (as_jwt S) (rc_sub claims)) (\<lambda>signed. case signed of
        Inl e \<Rightarrow> Ret (SigningFailed e)
      | Inr new_access \<Rightarrow>
     bind (sign_refresh_token L (as_jwt S) (rc_sub claims)) (\<lambda>signed. case signed of
        Inl e \<Rightarrow> Ret (SigningFailed e)
      | Inr (new_refresh_jwt, new_token_id) \<Rightarrow>
     utc_now (\<lambda>now.
     bind (rotate_token L token_row revision
             \<lparr>rt_id = new_token_id, rt_email = rc_sub claims,
              rt_family_id = rt_family_id token_row, rt_used_at = None, rt_replaced_by = None,
              rt_created_at = now\<rparr>) (\<lambda>rotated. case rotated of
        Inl (Reuse family_id) \<Rightarrow> Ret (ReuseDetected family_id)
      | Inl (RotStore e) \<Rightarrow> Ret (RotationFailed e)
      | Inr _ \<Rightarrow> Ret (Renewed new_access new_refresh_jwt)))))"

definition renewal :: "lib \<Rightarrow> app_state \<Rightarrow> string \<Rightarrow> outcome prog" where
  "renewal L S refresh_jwt =
     bind (verify_refresh_token L (as_jwt S) refresh_jwt) (\<lambda>verified. case verified of
        Inl Expired \<Rightarrow> Ret TokenExpired
      | Inl (Invalid _) \<Rightarrow> Ret TokenInvalid
      | Inr claims \<Rightarrow>
     (case uuid_parse_str L (rc_jti claims) of
        None \<Rightarrow> Ret JtiInvalid
      | Some jti \<Rightarrow>
     bind (find_by_id L jti) (\<lambda>found. case found of
        Inl e \<Rightarrow> Ret (LookupFailed e)
      | Inr None \<Rightarrow> Ret RowMissing
      | Inr (Some (token_row, revision)) \<Rightarrow>
     bind (is_family_revoked L (rt_family_id token_row)) (\<lambda>revoked.
     if revoked then Ret (FamilyRevoked (rt_family_id token_row))
     else renewal_rotate L S claims token_row revision))))"

text \<open>The two answers.\<close>

definition token_cookies :: "lib \<Rightarrow> app_state \<Rightarrow> string \<Rightarrow> string \<Rightarrow> http_response \<Rightarrow> http_response prog" where
  "token_cookies L S access refresh response =
     set_two_cookies L (build_access_cookie access (as_cookie_config S))
       (build_refresh_cookie refresh (as_cookie_config S)) response"

fun refresh_answer :: "lib \<Rightarrow> app_state \<Rightarrow> outcome \<Rightarrow> (app_error + http_response) prog" where
  "refresh_answer L S TokenExpired = Ret (Inl (Unauthorized ''refresh_token_expired''))"
| "refresh_answer L S TokenInvalid = Ret (Inl (Unauthorized ''invalid_refresh_token''))"
| "refresh_answer L S JtiInvalid = Ret (Inl (Unauthorized ''invalid_refresh_token''))"
| "refresh_answer L S (LookupFailed e) = Ret (Inl (Internal (store_error_to_string L e)))"
| "refresh_answer L S RowMissing = Ret (Inl (Unauthorized ''invalid_refresh_token''))"
| "refresh_answer L S (FamilyRevoked f) = Ret (Inl (Unauthorized ''token_family_revoked''))"
| "refresh_answer L S (SigningFailed e) = Ret (Inl (Internal e))"
| "refresh_answer L S (ReuseDetected f) = Ret (Inl (Unauthorized ''token_reuse_detected''))"
| "refresh_answer L S (RotationFailed e) = Ret (Inl (Internal (store_error_to_string L e)))"
| "refresh_answer L S (Renewed a r) =
     bind (token_cookies L S a r (json_response 200 (bearer_body (js_access_ttl_secs (as_jwt S)))))
       (\<lambda>response. Ret (Inr response))"

fun check_answer :: "lib \<Rightarrow> app_state \<Rightarrow> outcome \<Rightarrow> http_response prog" where
  "check_answer L S (Renewed a r) = token_cookies L S a r (status_response 200)"
| "check_answer L S _ = clear_cookies_response L S"

section \<open>The endpoints are renewal and an answer\<close>

lemma bind_error_cases [bind_simps]:
  "bind (case je of Expired \<Rightarrow> p | Invalid m \<Rightarrow> f m) h = (case je of Expired \<Rightarrow> bind p h | Invalid m \<Rightarrow> bind (f m) h)"
  "bind (case re of Reuse x \<Rightarrow> g x | RotStore e \<Rightarrow> k e) h =
     (case re of Reuse x \<Rightarrow> bind (g x) h | RotStore e \<Rightarrow> bind (k e) h)"
  by (auto split: jwt_error.splits rotation_error.splits)

lemma handle_refresh_renewal:
  "handle_refresh L S body headers =
     (case resolve_refresh_token L body headers (as_cookie_config S) of
        None \<Rightarrow> Ret (Inr (json_response 200 (JObj [(''status'', JStr ''no_session'')])))
      | Some refresh_jwt \<Rightarrow> bind (renewal L S refresh_jwt) (refresh_answer L S))"
  unfolding handle_refresh_def renewal_def renewal_rotate_def token_cookies_def Let_def
  by (simp add: bind_assoc bind_simps token_cookies_def
      cong: option.case_cong sum.case_cong prod.case_cong if_cong jwt_error.case_cong
        rotation_error.case_cong)

lemma silent_refresh_renewal:
  "silent_refresh L S headers =
     (case extract_refresh_cookie L headers (as_cookie_config S) of
        None \<Rightarrow> clear_access_cookie_response L S
      | Some refresh_jwt \<Rightarrow> bind (renewal L S refresh_jwt) (check_answer L S))"
  unfolding silent_refresh_def renewal_def renewal_rotate_def token_cookies_def Let_def
  by (simp add: bind_assoc bind_simps token_cookies_def
      cong: option.case_cong sum.case_cong prod.case_cong if_cong jwt_error.case_cong
        rotation_error.case_cong)

section \<open>What a granted renewal has done\<close>

lemma runs_case_jwt_error [runs_simps]:
  "runs (case e of Expired \<Rightarrow> p | Invalid m \<Rightarrow> f m) tr y \<longleftrightarrow>
     (e = Expired \<and> runs p tr y) \<or> (\<exists>m. e = Invalid m \<and> runs (f m) tr y)"
  by (cases e) auto

lemma runs_case_rotation_error [runs_simps]:
  "runs (case e of Reuse x \<Rightarrow> g x | RotStore e \<Rightarrow> k e) tr y \<longleftrightarrow>
     (\<exists>x. e = Reuse x \<and> runs (g x) tr y) \<or> (\<exists>s. e = RotStore s \<and> runs (k s) tr y)"
  by (cases e) auto

text \<open>
  The requests of a renewal that is granted, in their order: the token verified, its row read,
  the family not reported as revoked, both new tokens signed, the new row stored, and only then
  the old row marked by a compare-and-swap at the revision it was read at.
\<close>

definition renewed_by ::
  "lib \<Rightarrow> app_state \<Rightarrow> string \<Rightarrow> event list \<Rightarrow> refresh_claims \<Rightarrow> refresh_token \<Rightarrow> revision \<Rightarrow> string \<Rightarrow> string \<Rightarrow> bool" where
  "renewed_by L S jwt tr claims row n a r \<longleftrightarrow>
     (\<exists>trv jti k trf tra trs u now k1 k2 now'.
        runs (verify_refresh_token L (as_jwt S) jwt) trv (Inr claims) \<and>
        uuid_parse_str L (rc_jti claims) = Some jti \<and> refresh_key L jti = Inr k \<and>
        runs (is_family_revoked L (rt_family_id row)) trf False \<and>
        runs (sign_access_token L (as_jwt S) (rc_sub claims)) tra (Inr a) \<and>
        runs (sign_refresh_token L (as_jwt S) (rc_sub claims)) trs (Inr (r, u)) \<and>
        rt_used_at row = None \<and> refresh_key L u = Inr k1 \<and> refresh_key L (rt_id row) = Inr k2 \<and>
        tr = trv @ [(TokGet k, RTok (Inr (Some (row, n))))] @ trf @ tra @ trs @
          [(UtcNow, RUtc now),
           (TokPut k1 \<lparr>rt_id = u, rt_email = rc_sub claims, rt_family_id = rt_family_id row,
              rt_used_at = None, rt_replaced_by = None, rt_created_at = now\<rparr>, RDone (Inr ())),
           (UtcNow, RUtc now'),
           (TokUpdateIf k2 (row\<lparr>rt_used_at := Some now', rt_replaced_by := Some u\<rparr>) n, RDone (Inr ()))])"

lemma renewal_rotate_renewed:
  "runs (renewal_rotate L S claims row n) tr (Renewed a r) \<longleftrightarrow>
     (\<exists>tra trs u now k1 k2 now'.
        runs (sign_access_token L (as_jwt S) (rc_sub claims)) tra (Inr a) \<and>
        runs (sign_refresh_token L (as_jwt S) (rc_sub claims)) trs (Inr (r, u)) \<and>
        rt_used_at row = None \<and> refresh_key L u = Inr k1 \<and> refresh_key L (rt_id row) = Inr k2 \<and>
        tr = tra @ trs @
          [(UtcNow, RUtc now),
           (TokPut k1 \<lparr>rt_id = u, rt_email = rc_sub claims, rt_family_id = rt_family_id row,
              rt_used_at = None, rt_replaced_by = None, rt_created_at = now\<rparr>, RDone (Inr ())),
           (UtcNow, RUtc now'),
           (TokUpdateIf k2 (row\<lparr>rt_used_at := Some now', rt_replaced_by := Some u\<rparr>) n, RDone (Inr ()))])"
  unfolding renewal_rotate_def
  by (auto simp: runs_simps rotate_ok) (fastforce | blast)+

lemma renewal_renewed:
  "runs (renewal L S jwt) tr (Renewed a r) \<longleftrightarrow> (\<exists>claims row n. renewed_by L S jwt tr claims row n a r)"
proof -
  have "runs (renewal L S jwt) tr (Renewed a r) \<longleftrightarrow>
    (\<exists>trv claims jti k row n trf t3. runs (verify_refresh_token L (as_jwt S) jwt) trv (Inr claims) \<and>
       uuid_parse_str L (rc_jti claims) = Some jti \<and> refresh_key L jti = Inr k \<and>
       runs (is_family_revoked L (rt_family_id row)) trf False \<and>
       runs (renewal_rotate L S claims row n) t3 (Renewed a r) \<and>
       tr = trv @ [(TokGet k, RTok (Inr (Some (row, n))))] @ trf @ t3)" (is "_ \<longleftrightarrow> ?R")
  proof
    assume "runs (renewal L S jwt) tr (Renewed a r)"
    then show "?R" unfolding renewal_def by (auto simp: runs_simps runs_find_row_iff) blast
  next
    assume ?R
    then obtain trv claims jti k row n trf t3 where *:
      "runs (verify_refresh_token L (as_jwt S) jwt) trv (Inr claims)"
      "uuid_parse_str L (rc_jti claims) = Some jti" "refresh_key L jti = Inr k"
      "runs (is_family_revoked L (rt_family_id row)) trf False"
      "runs (renewal_rotate L S claims row n) t3 (Renewed a r)"
      "tr = trv @ [(TokGet k, RTok (Inr (Some (row, n))))] @ trf @ t3" by blast
    have "runs (find_by_id L jti) [(TokGet k, RTok (Inr (Some (row, n))))] (Inr (Some (row, n)))"
      using *(3) by (simp add: runs_find_row_iff)
    note steps = *(1) this *(4)
    show "runs (renewal L S jwt) tr (Renewed a r)"
      unfolding renewal_def *(6)
      by (rule runs_bindI[OF steps(1)], simp only: sum.case option.case *(2),
          rule runs_bindI[OF steps(2)], simp only: sum.case option.case prod.case,
          rule runs_bindI[OF steps(3)]) (simp add: *(5))
  qed
  then show ?thesis
    unfolding renewed_by_def renewal_rotate_renewed by (rule trans) (rule iffI; clarsimp; blast)
qed

text \<open>The new tokens speak for the subject of the token that was presented, whenever they are accepted.\<close>

lemma renewed_subject:
  assumes "jwt_ok L" "renewed_by L S jwt tr claims row n a r"
    "\<forall>t. (UtcNow, RUtc t) \<in> set tr \<longrightarrow> fits t (js_access_ttl_secs (as_jwt S)) \<and> fits t (js_refresh_ttl_secs (as_jwt S))"
  shows "runs (verify_access_token L svc a) tra (Inr c) \<Longrightarrow> ac_sub c = rc_sub claims"
    "runs (verify_refresh_token L svc r) trb (Inr d) \<Longrightarrow> rc_sub d = rc_sub claims"
proof -
  from assms(2) obtain t1 t2 u where s: "runs (sign_access_token L (as_jwt S) (rc_sub claims)) t1 (Inr a)"
    "runs (sign_refresh_token L (as_jwt S) (rc_sub claims)) t2 (Inr (r, u))" "set t1 \<subseteq> set tr" "set t2 \<subseteq> set tr"
    unfolding renewed_by_def by (elim exE conjE) (rule that, auto)
  then obtain x y where x: "t1 = [(UtcNow, RUtc x)]" and y: "t2 = [(NowV7, RUuid u), (UtcNow, RUtc y)]"
    unfolding runs_sign_access runs_sign_refresh_iff by blast
  have "fits x (js_access_ttl_secs (as_jwt S))" "fits y (js_refresh_ttl_secs (as_jwt S))"
    using assms(3) s(3,4) x y by auto
  with signed_subject(1)[OF assms(1) s(1)[unfolded x] ] signed_subject(2)[OF assms(1) s(2)[unfolded y] ]
  show "runs (verify_access_token L svc a) tra (Inr c) \<Longrightarrow> ac_sub c = rc_sub claims"
    "runs (verify_refresh_token L svc r) trb (Inr d) \<Longrightarrow> rc_sub d = rc_sub claims" by blast+
qed

end
