(* ===== verification/Discipline.thy ===== *)
theory Discipline
  imports Renewal
begin

text \<open>
  What the handlers do to the token bucket, whatever the world replies: a handler stores at most
  one token, unused, under an id it has just generated; it compare-and-swaps only a row it has
  read unused, at the revision it read, to the same row marked as used and replaced by a token of
  its family whose storing has succeeded before; it revokes only the family of a row it has read.
  Each of the four endpoints is shown to keep to that (\<open>obeys\<close>), at every point where it can stop.
\<close>

section \<open>The guard\<close>

definition no_put :: "event list \<Rightarrow> bool" where
  "no_put h \<longleftrightarrow> (\<forall>k v r. (TokPut k v, r) \<notin> set h)"

definition read_row :: "event list \<Rightarrow> refresh_token \<Rightarrow> revision \<Rightarrow> bool" where
  "read_row h row n \<longleftrightarrow> (\<exists>k. (TokGet k, RTok (Inr (Some (row, n)))) \<in> set h)"

definition token_guard :: "lib \<Rightarrow> event list \<Rightarrow> request \<Rightarrow> bool" where
  "token_guard L h q = (case q of
     TokPut k v \<Rightarrow> refresh_key L (rt_id v) = Inr k \<and> rt_used_at v = None \<and>
       (NowV7, RUuid (rt_id v)) \<in> set h \<and> no_put h
   | TokUpdateIf k v n \<Rightarrow> (\<exists>row. read_row h row n \<and> rt_used_at row = None \<and>
       refresh_key L (rt_id row) = Inr k \<and> rt_used_at v \<noteq> None \<and> rt_id v = rt_id row \<and>
       rt_family_id v = rt_family_id row \<and> rt_email v = rt_email row) \<and>
       (\<exists>k' new. (TokPut k' new, RDone (Inr ())) \<in> set h \<and> rt_replaced_by v = Some (rt_id new) \<and>
          rt_family_id new = rt_family_id v)
   | FamPut k f \<Rightarrow> (\<exists>row n. read_row h row n \<and> revoked_key L (rt_family_id row) = Inr k)
   | _ \<Rightarrow> True)"

lemma token_guard_simps [simp]:
  "token_guard L h UtcNow" "token_guard L h MonoNow" "token_guard L h NowV7"
  "token_guard L h GenNonce" "token_guard L h (TokGet k)" "token_guard L h TokStatus"
  "token_guard L h (FamGet k)" "token_guard L h (PlGet k)"
  "token_guard L h (PlPut k s)" "token_guard L h (PlRetract k)" "token_guard L h (JwksRead i)"
  "token_guard L h (JwksWrite i ks)" "token_guard L h (LastRead i)" "token_guard L h (LastWrite i t)"
  "token_guard L h (HttpGet u)"
  by (simp_all add: token_guard_def)

lemma no_put_simps [simp]:
  "no_put []" "no_put (h @ h') \<longleftrightarrow> no_put h \<and> no_put h'"
  "no_put ((q, r) # h) \<longleftrightarrow> (\<forall>k v. q \<noteq> TokPut k v) \<and> no_put h"
  by (auto simp: no_put_def)

lemma read_row_append_iff [simp]:
  "read_row (h @ h') row n \<longleftrightarrow> read_row h row n \<or> read_row h' row n"
  by (auto simp: read_row_def)

lemma read_row_append: "read_row h row n \<Longrightarrow> read_row (h @ h') row n"
  by simp

lemma read_row_append_left: "read_row h row n \<Longrightarrow> read_row (h' @ h) row n"
  by simp

section \<open>The parts of the handlers\<close>

named_theorems obeys_parts \<open>guarded parts of the handlers\<close>

lemma obeys_Ret_cases [obeys_parts]:
  "obeys G h (set_two_cookies L a b r)"
  "obeys (token_guard L) h (append_session_cookie_if_needed L S ex r)"
  "obeys G h (clear_cookies_response L S)"
  "obeys G h (clear_access_cookie_response L S)"
  "obeys G h (token_cookies L S x y r)"
  by (auto simp: set_two_cookies_def append_session_cookie_if_needed_def clear_cookies_response_def
      clear_access_cookie_response_def token_cookies_def parse_header_def bind_simps Let_def)

lemma obeys_reads [obeys_parts]:
  "obeys (token_guard L) h (verify_access_token L svc t)"
  "obeys (token_guard L) h (verify_refresh_token L svc t)"
  "obeys (token_guard L) h (sign_access_token L svc e)"
  "obeys (token_guard L) h (sign_refresh_token L svc e)"
  "obeys (token_guard L) h (find_by_id L u)"
  "obeys (token_guard L) h (is_family_revoked L f)"
  by (simp_all add: verify_access_token_def verify_refresh_token_def sign_access_token_def
      sign_refresh_token_def find_by_id_def is_family_revoked_def bind_simps Let_def)

lemma obeys_revoke:
  assumes "read_row h row n"
  shows "obeys (token_guard L) h (revoke_family L (rt_family_id row))"
  using assms by (auto simp: revoke_family_def bind_simps token_guard_def)

lemma obeys_store:
  assumes "rt_used_at v = None" "(NowV7, RUuid (rt_id v)) \<in> set h" "no_put h"
  shows "obeys (token_guard L) h (store L v)"
  using assms by (simp add: store_def bind_simps token_guard_def)

lemma obeys_mark_used:
  assumes "read_row h old n" "rt_used_at old = None" "(TokPut k new, RDone (Inr ())) \<in> set h"
    "rt_family_id new = rt_family_id old"
  shows "obeys (token_guard L) h (mark_used L old (rt_id new) n)"
proof -
  have "token_guard L (h @ [(UtcNow, RUtc now)]) (TokUpdateIf key
      (old\<lparr>rt_used_at := Some now, rt_replaced_by := Some (rt_id new)\<rparr>) n)"
    if "refresh_key L (rt_id old) = Inr key" for key now
  proof -
    have "read_row (h @ [(UtcNow, RUtc now)]) old n" using assms(1) by simp
    moreover have "(TokPut k new, RDone (Inr ())) \<in> set (h @ [(UtcNow, RUtc now)])" using assms(3) by simp
    ultimately show ?thesis
      using that assms(2,4) unfolding token_guard_def
      by (simp only: request.case) (intro conjI exI[of _ old] exI[of _ k] exI[of _ new], simp_all)
  qed
  then show ?thesis by (simp add: mark_used_def bind_simps Let_def)
qed

lemma runs_store_ok: "runs (store L v) tr (Inr u) \<Longrightarrow> \<exists>k. (TokPut k v, RDone (Inr ())) \<in> set tr"
  by (auto simp: runs_store result_iff)

lemma obeys_rotate:
  assumes "read_row h old n" "rt_used_at new = None" "(NowV7, RUuid (rt_id new)) \<in> set h" "no_put h"
    "rt_family_id new = rt_family_id old"
  shows "obeys (token_guard L) h (rotate_token L old n new)"
proof -
  have revoke: "obeys (token_guard L) (h @ t) (revoke_family L (rt_family_id old))" for t
    by (rule obeys_revoke[OF read_row_append[OF assms(1)] ])
  show ?thesis
  proof (cases "rt_used_at old = None")
    case False
    then show ?thesis using revoke[of "[]"]
      by (simp add: rotate_token_def) (intro obeys_bind, auto)
  next
    case True
    have mark: "obeys (token_guard L) (h @ t) (mark_used L old (rt_id new) n)"
      if "runs (store L new) t (Inr u)" for t u
      using runs_store_ok[OF that] True assms(5) read_row_append[OF assms(1)]
      by (auto intro: obeys_mark_used)
    show ?thesis
      using True
      by (auto simp: rotate_token_def bind_simps split: store_error.split
          intro!: obeys_bind obeys_store mark assms revoke[of "t @ t'" for t t', simplified])
  qed
qed

lemma runs_sign_refresh:
  "runs (sign_refresh_token L svc e) tr (Inr (jwt, u)) \<Longrightarrow>
     (NowV7, RUuid u) \<in> set tr \<and> no_put tr"
  by (auto simp: sign_refresh_token_def runs_simps Let_def)

lemma runs_no_put:
  "runs (verify_refresh_token L svc t) tr x1 \<Longrightarrow> no_put tr"
  "runs (sign_access_token L svc e) tr x2 \<Longrightarrow> no_put tr"
  "runs (find_by_id L u) tr x3 \<Longrightarrow> no_put tr"
  "runs (is_family_revoked L f) tr x4 \<Longrightarrow> no_put tr"
  by (auto simp: verify_refresh_token_def sign_access_token_def store_runs runs_simps Let_def)

lemma runs_find_row:
  "runs (find_by_id L u) tr (Inr (Some (row, n))) \<Longrightarrow> read_row tr row n \<and> no_put tr"
  by (auto simp: runs_find_by_id runs_simps read_row_def)

lemma obeys_renewal_rotate:
  assumes "read_row h row n" "no_put h"
  shows "obeys (token_guard L) h (renewal_rotate L S claims row n)"
  unfolding renewal_rotate_def
  by (intro obeys_bind obeys_parts)
    (auto simp: bind_simps runs_no_put runs_sign_refresh assms split: rotation_error.split
      dest!: runs_sign_refresh dest: runs_no_put
      intro!: obeys_bind obeys_parts obeys_rotate read_row_append[OF assms(1)])

lemma obeys_renewal [obeys_parts]:
  assumes "no_put h" shows "obeys (token_guard L) h (renewal L S jwt)"
  unfolding renewal_def
  by (intro obeys_bind obeys_parts)
    (auto simp: bind_simps runs_no_put assms split: jwt_error.split
      dest!: runs_find_row dest: runs_no_put
      intro!: obeys_bind obeys_parts obeys_renewal_rotate)


section \<open>The endpoints\<close>

lemma obeys_refresh_answer [obeys_parts]: "obeys G h (refresh_answer L S out)"
  by (cases out) (auto intro!: obeys_bind obeys_parts)

lemma obeys_check_answer [obeys_parts]: "obeys G h (check_answer L S out)"
  by (cases out) (auto intro!: obeys_parts)

lemma obeys_handle_refresh [obeys_parts]:
  "no_put h \<Longrightarrow> obeys (token_guard L) h (handle_refresh L S body headers)"
  unfolding handle_refresh_renewal
  by (auto simp: bind_simps intro!: obeys_bind obeys_parts)

lemma obeys_silent_refresh [obeys_parts]:
  "no_put h \<Longrightarrow> obeys (token_guard L) h (silent_refresh L S headers)"
  unfolding silent_refresh_renewal
  by (auto simp: bind_simps intro!: obeys_bind obeys_parts)

lemma obeys_refresh_handler:
  "obeys (token_guard L) [] (refresh_handler L S headers body)"
  unfolding refresh_handler_def Let_def
  by (auto simp: bind_simps intro!: obeys_bind obeys_parts)

lemma obeys_resolve [obeys_parts]: "obeys (token_guard L) h (resolve L key t)"
  by (auto simp: resolve_def pl_get_def bind_simps split: reply.split)

lemma obeys_resolved_bearer [obeys_parts]: "obeys G h (resolved_bearer_response L e)"
  by (auto simp: resolved_bearer_response_def parse_header_def bind_simps Let_def)

lemma obeys_handle_jwt_cookie [obeys_parts]:
  "no_put h \<Longrightarrow> obeys (token_guard L) h (handle_jwt_cookie L S t headers)"
  unfolding handle_jwt_cookie_def verify_access_token_def
  by (auto simp: bind_simps runs_simps split: jwt_error.split intro!: obeys_bind obeys_parts)

lemma obeys_handle_bearer [obeys_parts]: "obeys (token_guard L) h (handle_bearer L S v)"
  by (auto simp: handle_bearer_def bind_simps intro!: obeys_bind obeys_parts)

lemma obeys_auth_check:
  "obeys (token_guard L) [] (auth_check_handler L S headers)"
  unfolding auth_check_handler_def Let_def
  by (auto simp: bind_simps intro!: obeys_bind obeys_parts)

lemma obeys_logout:
  "obeys (token_guard L) [] (logout_handler L S headers)"
  unfolding logout_handler_def logout_revocation_def
  by (auto simp: bind_simps intro!: obeys_bind obeys_parts dest!: runs_find_row)
    (rule obeys_revoke, erule read_row_append_left)

text \<open>OIDC verification never touches the token bucket.\<close>

lemma obeys_oidc_calls [bind_simps]:
  "obeys G h (jwks_read i f) \<longleftrightarrow> G h (JwksRead i) \<and> (\<forall>x. obeys G (h @ [(JwksRead i, RJwks x)]) (f x))"
  "obeys G h (jwks_write i ks p) \<longleftrightarrow> G h (JwksWrite i ks) \<and> obeys G (h @ [(JwksWrite i ks, RUnit)]) p"
  "obeys G h (last_read i g) \<longleftrightarrow> G h (LastRead i) \<and> (\<forall>x. obeys G (h @ [(LastRead i, RMono x)]) (g x))"
  "obeys G h (last_write i t p) \<longleftrightarrow> G h (LastWrite i t) \<and> obeys G (h @ [(LastWrite i t, RUnit)]) p"
  "obeys G h (instant_now g) \<longleftrightarrow> G h MonoNow \<and> (\<forall>x. obeys G (h @ [(MonoNow, RMono x)]) (g x))"
  "obeys G h (http_get u k) \<longleftrightarrow> G h (HttpGet u) \<and> (\<forall>x. obeys G (h @ [(HttpGet u, RHttp x)]) (k x))"
  by (auto simp: call_defs split: reply.split)

definition oidc_guard :: "event list \<Rightarrow> request \<Rightarrow> bool" where
  "oidc_guard h q \<longleftrightarrow> (case q of
     UtcNow \<Rightarrow> True | MonoNow \<Rightarrow> True | JwksRead _ \<Rightarrow> True | JwksWrite _ _ \<Rightarrow> True
   | LastRead _ \<Rightarrow> True | LastWrite _ _ \<Rightarrow> True | HttpGet _ \<Rightarrow> True | _ \<Rightarrow> False)"

lemma obeys_verify_id_token: "obeys oidc_guard h (verify_id_token L ps t)"
  by (auto simp: verify_id_token_def verify_with_key_def resolve_key_def resolve_single_key_def
      refresh_jwks_def bind_simps oidc_guard_def Let_def intro!: obeys_bind)

lemma obeys_mono:
  "obeys G h p \<Longrightarrow> (\<And>h q. G h q \<Longrightarrow> G' h q) \<Longrightarrow> obeys G' h p"
  by (induction p arbitrary: h) auto

lemma obeys_verify_id_token_tokens [obeys_parts]: "obeys (token_guard L) h (verify_id_token L ps t)"
  by (rule obeys_mono[OF obeys_verify_id_token])
    (auto simp: oidc_guard_def token_guard_def split: request.splits)

lemma runs_guarded: "runs p tr x \<Longrightarrow> obeys G [] p \<Longrightarrow> guarded G tr"
  unfolding runs_def by (rule obeys_guarded)

lemma runs_verify_id_token_no_put: "runs (verify_id_token L ps t) tr x \<Longrightarrow> no_put tr"
proof -
  assume "runs (verify_id_token L ps t) tr x"
  then have g: "guarded oidc_guard tr" by (rule runs_guarded[OF _ obeys_verify_id_token])
  show "no_put tr"
    unfolding no_put_def
  proof (intro allI notI)
    fix k v r assume "(TokPut k v, r) \<in> set tr"
    then obtain t1 t2 where "tr = t1 @ (TokPut k v, r) # t2" by (auto dest: split_list)
    with g have "oidc_guard t1 (TokPut k v)" unfolding guarded_def by blast
    then show False by (simp add: oidc_guard_def)
  qed
qed

lemma obeys_handle_token [obeys_parts]:
  "obeys (token_guard L) [] (handle_token L S body)"
  unfolding handle_token_def Let_def
  by (auto simp: bind_simps runs_no_put runs_verify_id_token_no_put split: prod.split
      dest!: runs_sign_refresh
      intro!: obeys_bind obeys_parts obeys_store)

lemma obeys_token_handler:
  "obeys (token_guard L) [] (token_handler L S headers body)"
  unfolding token_handler_def Let_def
  by (auto simp: bind_simps intro!: obeys_bind obeys_parts)

end
