(* ===== verification/Fabric.thy ===== *)
theory Fabric
  imports Discipline
begin

text \<open>
  The documented behaviour of the fabric's KV buckets and of the uuid generator, as laws of a
  world, and the invariant of the token bucket under concurrent handlers. The laws allow a call
  to fail with the write done or not done, entries to be evicted at any time, and marks of revoked
  families once everything older is gone (a bucket with a \<open>max_age\<close>); they say that a read returns the current entry, that every write gets a sequence number above all earlier
  ones, and that an update at a revision succeeds only while the entry is at that revision.
\<close>

section \<open>What is observed of a world\<close>

record 'w view =
  vw_tokens :: "'w \<Rightarrow> kv_key \<Rightarrow> (refresh_token \<times> revision) option"
  vw_last :: "'w \<Rightarrow> nat"            \<comment> \<open>highest sequence number given out\<close>
  vw_uuids :: "'w \<Rightarrow> uuid set"      \<comment> \<open>uuids in use\<close>
  vw_revoked :: "'w \<Rightarrow> kv_key \<Rightarrow> revision option"  \<comment> \<open>the entries that mark a family as revoked\<close>

definition evicts :: "'w view \<Rightarrow> kv_key set \<Rightarrow> 'w \<Rightarrow> 'w \<Rightarrow> bool" where
  "evicts V ks w w' \<longleftrightarrow> (\<forall>k. k \<notin> ks \<longrightarrow>
     vw_tokens V w' k = vw_tokens V w k \<or> vw_tokens V w' k = None)"

definition writes :: "'w view \<Rightarrow> kv_key \<Rightarrow> refresh_token \<Rightarrow> 'w \<Rightarrow> 'w \<Rightarrow> bool" where
  "writes V k v w w' \<longleftrightarrow> evicts V {k} w w' \<and>
     (\<exists>n. vw_last V w < n \<and> n \<le> vw_last V w' \<and> vw_tokens V w' k = Some (v, n))"

definition at_revision :: "'w view \<Rightarrow> kv_key \<Rightarrow> revision \<Rightarrow> 'w \<Rightarrow> bool" where
  "at_revision V k n w \<longleftrightarrow> (\<exists>v. vw_tokens V w k = Some (v, n))"

section \<open>The laws\<close>

definition token_step :: "'w view \<Rightarrow> request \<Rightarrow> reply \<Rightarrow> 'w \<Rightarrow> 'w \<Rightarrow> bool" where
  "token_step V q r w w' \<longleftrightarrow> (case (q, r) of
     (TokPut k v, RDone (Inr _)) \<Rightarrow> writes V k v w w'
   | (TokPut k v, RDone (Inl _)) \<Rightarrow> writes V k v w w' \<or> evicts V {} w w'
   | (TokUpdateIf k v n, RDone (Inr _)) \<Rightarrow> at_revision V k n w \<and> writes V k v w w'
   | (TokUpdateIf k v n, RDone (Inl (RevisionConflict _))) \<Rightarrow> \<not> at_revision V k n w \<and> evicts V {} w w'
   | (TokUpdateIf k v n, RDone (Inl _)) \<Rightarrow> (at_revision V k n w \<and> writes V k v w w') \<or> evicts V {} w w'
   | (TokGet k, RTok (Inr x)) \<Rightarrow> x = vw_tokens V w k \<and> evicts V {} w w'
   | _ \<Rightarrow> evicts V {} w w')"

definition uuid_step :: "'w view \<Rightarrow> request \<Rightarrow> reply \<Rightarrow> 'w \<Rightarrow> 'w \<Rightarrow> bool" where
  "uuid_step V q r w w' \<longleftrightarrow> vw_uuids V w \<subseteq> vw_uuids V w' \<and>
     (case (q, r) of (NowV7, RUuid u) \<Rightarrow> (vw_uuids V w \<noteq> UNIV \<longrightarrow> u \<notin> vw_uuids V w) \<and> u \<in> vw_uuids V w' | _ \<Rightarrow> True)"

text \<open>
  Marks of revoked families are entries of the same bucket, and the bucket drops what is older than
  its \<open>max_age\<close>: a mark can vanish, but an entry written before it does not outlive it.
\<close>

definition all_after :: "'w view \<Rightarrow> revision \<Rightarrow> 'w \<Rightarrow> bool" where
  "all_after V s w \<longleftrightarrow> (\<forall>k v n. vw_tokens V w k = Some (v, n) \<longrightarrow> s < n)"

definition family_step :: "'w view \<Rightarrow> request \<Rightarrow> reply \<Rightarrow> 'w \<Rightarrow> 'w \<Rightarrow> bool" where
  "family_step V q r w w' \<longleftrightarrow>
     (\<forall>k s. vw_revoked V w k = Some s \<longrightarrow> (\<exists>s' \<ge> s. vw_revoked V w' k = Some s') \<or> all_after V s w') \<and>
     (case (q, r) of
        (FamPut k v, RDone (Inr _)) \<Rightarrow> (\<exists>s. vw_last V w < s \<and> s \<le> vw_last V w' \<and> vw_revoked V w' k = Some s)
      | (FamGet k, RFam (Inr x)) \<Rightarrow> x \<noteq> None \<longleftrightarrow> vw_revoked V w k \<noteq> None
      | _ \<Rightarrow> True)"

definition fabric_ok :: "'w view \<Rightarrow> 'w world \<Rightarrow> bool" where
  "fabric_ok V W \<longleftrightarrow> (\<forall>q w r w'. W q w = (r, w') \<longrightarrow>
     well_kinded q r \<and> vw_last V w \<le> vw_last V w' \<and>
     token_step V q r w w' \<and> uuid_step V q r w w' \<and> family_step V q r w w')"

lemma fabric_okD:
  assumes "fabric_ok V W" "W q w = (r, w')"
  shows "well_kinded q r" "vw_last V w \<le> vw_last V w'"
    "token_step V q r w w'" "uuid_step V q r w w'" "family_step V q r w w'"
  using assms unfolding fabric_ok_def by blast+

text \<open>What one step can do to an entry: leave it, drop it, or write it for a matching request.\<close>

definition write_of :: "request \<Rightarrow> (kv_key \<times> refresh_token) option" where
  "write_of q = (case q of TokPut k v \<Rightarrow> Some (k, v) | TokUpdateIf k v _ \<Rightarrow> Some (k, v) | _ \<Rightarrow> None)"

lemma token_step_entry:
  assumes "token_step V q r w w'" "vw_tokens V w' k = Some (v, n)"
  shows "vw_tokens V w k = Some (v, n) \<or> (write_of q = Some (k, v) \<and> vw_last V w < n \<and> n \<le> vw_last V w')"
proof -
  have ev: "vw_tokens V w k = Some (v, n)" if "evicts V ks w w'" "k \<notin> ks" for ks
    using that assms(2) unfolding evicts_def by (metis option.distinct(1))
  have wr: "vw_tokens V w k = Some (v, n) \<or> (k = k' \<and> v = v' \<and> vw_last V w < n \<and> n \<le> vw_last V w')"
    if "writes V k' v' w w'" for k' v'
    using that ev[of "{k'}"] assms(2) unfolding writes_def by (cases "k = k'") auto
  show ?thesis
    using assms(1) ev[of "{}"]
    by (cases q; cases r)
      (auto simp: token_step_def write_of_def split: sum.splits fabric_error.splits dest: wr)
qed

lemma update_ok_step:
  assumes "token_step V (TokUpdateIf k v n) (RDone (Inr u)) w w'"
  shows "at_revision V k n w" "\<exists>n'. vw_tokens V w' k = Some (v, n') \<and> vw_last V w < n'"
  using assms by (auto simp: token_step_def writes_def)

lemma get_ok_step:
  "token_step V (TokGet k) (RTok (Inr x)) w w' \<Longrightarrow> x = vw_tokens V w k"
  by (simp add: token_step_def)

lemma fam_get_step:
  "family_step V (FamGet k) (RFam (Inr x)) w w' \<Longrightarrow> x \<noteq> None \<longleftrightarrow> vw_revoked V w k \<noteq> None"
  by (simp add: family_step_def)

lemma fam_put_step:
  "family_step V (FamPut k v) (RDone (Inr u)) w w' \<Longrightarrow>
     \<exists>s. vw_last V w < s \<and> s \<le> vw_last V w' \<and> vw_revoked V w' k = Some s"
  by (simp add: family_step_def)

lemma follows_last_mono:
  "follows W w log w' \<Longrightarrow> fabric_ok V W \<Longrightarrow> vw_last V w \<le> vw_last V w'"
  by (induction rule: follows.induct) (auto dest: fabric_okD(2))

lemma follows_det: "follows W w log w1 \<Longrightarrow> follows W w log w2 \<Longrightarrow> w1 = w2"
  by (induction arbitrary: w2 rule: follows.induct) (auto simp: follows_Cons_iff)

lemma all_after_step:
  assumes "fabric_ok V W" "W q w = (r, w')" "all_after V s w" "s \<le> vw_last V w"
  shows "all_after V s w'"
  using assms(3,4) token_step_entry[OF fabric_okD(3)[OF assms(1,2)] ] unfolding all_after_def by force

text \<open>From the time a mark is written at \<open>s\<close>: it is there, or nothing older is.\<close>

definition outlives :: "'w view \<Rightarrow> kv_key \<Rightarrow> revision \<Rightarrow> 'w \<Rightarrow> bool" where
  "outlives V fk s w \<longleftrightarrow> s \<le> vw_last V w \<and> ((\<exists>s' \<ge> s. vw_revoked V w fk = Some s') \<or> all_after V s w)"

lemma outlives_step:
  assumes "fabric_ok V W" "W q w = (r, w')" "outlives V fk s w"
  shows "outlives V fk s w'"
proof -
  have l: "s \<le> vw_last V w'" using assms(3) fabric_okD(2)[OF assms(1,2)] by (simp add: outlives_def)
  from assms(3) have "(\<exists>s' \<ge> s. vw_revoked V w fk = Some s') \<or> all_after V s w" by (simp add: outlives_def)
  then have "(\<exists>s' \<ge> s. vw_revoked V w' fk = Some s') \<or> all_after V s w'"
  proof
    assume "\<exists>s' \<ge> s. vw_revoked V w fk = Some s'"
    then obtain s' where s': "s \<le> s'" "vw_revoked V w fk = Some s'" by blast
    from fabric_okD(5)[OF assms(1,2)] s'(2) have
      "(\<exists>t \<ge> s'. vw_revoked V w' fk = Some t) \<or> all_after V s' w'" unfolding family_step_def by blast
    with s'(1) show ?thesis unfolding all_after_def using le_trans le_less_trans by blast
  next
    assume "all_after V s w"
    from all_after_step[OF assms(1,2) this] assms(3) show ?thesis by (simp add: outlives_def)
  qed
  with l show ?thesis by (simp add: outlives_def)
qed

lemma outlives_follows:
  "follows W w log w' \<Longrightarrow> fabric_ok V W \<Longrightarrow> outlives V fk s w \<Longrightarrow> outlives V fk s w'"
  by (induction rule: follows.induct) (blast intro: outlives_step)+

lemma all_after_follows:
  "follows W w log w' \<Longrightarrow> fabric_ok V W \<Longrightarrow> all_after V s w \<Longrightarrow> s \<le> vw_last V w \<Longrightarrow> all_after V s w'"
proof (induction rule: follows.induct)
  case (reply q w r w1 log w')
  from all_after_step[OF reply.prems(1) reply.hyps(1) reply.prems(2,3)] fabric_okD(2)[OF reply.prems(1) reply.hyps(1)]
  show ?case using reply.IH[OF reply.prems(1)] reply.prems(3) by simp
qed

lemma put_outlives:
  assumes "fabric_ok V W" "W (FamPut fk v) w = (RDone (Inr u), w')"
  shows "\<exists>s. vw_last V w < s \<and> outlives V fk s w'"
  using fam_put_step[OF fabric_okD(5)[OF assms] ] unfolding outlives_def by blast

text \<open>A request that misses the mark, and then updates an entry: the entry is younger than the mark.\<close>

lemma missed_mark:
  assumes "fabric_ok V W" "outlives V fk s w"
    "follows W w (a @ (FamGet fk, RFam (Inr None)) # b @ (TokUpdateIf k v m, RDone (Inr u)) # c) w'"
  shows "s < m"
proof -
  from assms(3) obtain w1 w2 w3 w4 where
    w: "follows W w a w1" "W (FamGet fk) w1 = (RFam (Inr None), w2)" "follows W w2 b w3"
      "W (TokUpdateIf k v m) w3 = (RDone (Inr u), w4)"
    by (auto simp: follows_append_iff follows_Cons_iff)
  have o1: "outlives V fk s w1" by (rule outlives_follows[OF w(1) assms(1,2)])
  have "vw_revoked V w1 fk = None" using fam_get_step[OF fabric_okD(5)[OF assms(1) w(2)] ] by simp
  with o1 have a1: "all_after V s w1" "s \<le> vw_last V w1" by (auto simp: outlives_def)
  have "all_after V s w3"
    using all_after_follows[OF w(3) assms(1) all_after_step[OF assms(1) w(2) a1] ] a1(2)
      fabric_okD(2)[OF assms(1) w(2)] by simp
  moreover have "at_revision V k m w3" by (rule update_ok_step(1)[OF fabric_okD(3)[OF assms(1) w(4)] ])
  ultimately show ?thesis by (auto simp: all_after_def at_revision_def)
qed

section \<open>The token bucket under concurrent handlers\<close>

text \<open>A bucket the service itself has filled: rows under their own key, ids in use, sequence numbers known.\<close>

definition store_inv :: "lib \<Rightarrow> 'w view \<Rightarrow> 'w \<Rightarrow> bool" where
  "store_inv L V w \<longleftrightarrow> (\<forall>k v n. vw_tokens V w k = Some (v, n) \<longrightarrow>
     refresh_key L (rt_id v) = Inr k \<and> rt_id v \<in> vw_uuids V w \<and> n \<le> vw_last V w)"

text \<open>A log of the world in which each task does what its guard allows.\<close>

definition valid_log :: "lib \<Rightarrow> 'w world \<Rightarrow> 'w \<Rightarrow> (nat \<times> event) list \<Rightarrow> 'w \<Rightarrow> bool" where
  "valid_log L W w0 log w \<longleftrightarrow>
     follows W w0 (map snd log) w \<and> (\<forall>i. guarded (token_guard L) (by_task i log))"

definition redemptions :: "kv_key \<Rightarrow> (nat \<times> event) list \<Rightarrow> (nat \<times> event) list" where
  "redemptions k log =
     filter (\<lambda>e. case e of (_, TokUpdateIf k' _ _, RDone (Inr _)) \<Rightarrow> k' = k | _ \<Rightarrow> False) log"

lemma redemptions_simps [simp]:
  "redemptions k [] = []"
  "redemptions k (l1 @ l2) = redemptions k l1 @ redemptions k l2"
  by (simp_all add: redemptions_def)

definition row_seen :: "(nat \<times> event) list \<Rightarrow> kv_key \<Rightarrow> refresh_token \<Rightarrow> revision \<Rightarrow> bool" where
  "row_seen log k row n \<longleftrightarrow> (\<exists>i. (i, TokGet k, RTok (Inr (Some (row, n)))) \<in> set log)"

definition put_by :: "(nat \<times> event) list \<Rightarrow> nat \<Rightarrow> uuid \<Rightarrow> bool" where
  "put_by log i u \<longleftrightarrow> (\<exists>k v r. (i, TokPut k v, r) \<in> set log \<and> rt_id v = u)"

definition made_by :: "(nat \<times> event) list \<Rightarrow> nat \<Rightarrow> uuid \<Rightarrow> bool" where
  "made_by log i u \<longleftrightarrow> (i, NowV7, RUuid u) \<in> set log"

lemmas log_defs = row_seen_def put_by_def made_by_def

text \<open>
  The invariant, in four parts. Ids: every id made so far is in use, is made once, and was not in
  use at the start; a token is put by the task that made its id. Rows: the bucket is as the
  service filled it, and a row's id was in use at the start or has been put. Seen: a row read at
  a revision is the row at that revision. Redeemed: a redeemed entry is marked as used and never
  redeemed again.
\<close>

definition known :: "'w view \<Rightarrow> 'w \<Rightarrow> (nat \<times> event) list \<Rightarrow> uuid \<Rightarrow> bool" where
  "known V w0 log u \<longleftrightarrow> u \<in> vw_uuids V w0 \<or> (\<exists>i. put_by log i u)"

definition inv_ids :: "'w view \<Rightarrow> 'w \<Rightarrow> (nat \<times> event) list \<Rightarrow> 'w \<Rightarrow> bool" where
  "inv_ids V w0 log w \<longleftrightarrow> vw_uuids V w0 \<subseteq> vw_uuids V w \<and>
     (\<forall>i u. made_by log i u \<longrightarrow> u \<in> vw_uuids V w \<and> u \<notin> vw_uuids V w0) \<and>
     (\<forall>i j u. made_by log i u \<longrightarrow> made_by log j u \<longrightarrow> i = j) \<and>
     (\<forall>i u. put_by log i u \<longrightarrow> made_by log i u)"

definition inv_rows :: "lib \<Rightarrow> 'w view \<Rightarrow> 'w \<Rightarrow> (nat \<times> event) list \<Rightarrow> 'w \<Rightarrow> bool" where
  "inv_rows L V w0 log w \<longleftrightarrow> store_inv L V w \<and>
     (\<forall>k v n. vw_tokens V w k = Some (v, n) \<longrightarrow> known V w0 log (rt_id v))"

definition inv_seen :: "lib \<Rightarrow> 'w view \<Rightarrow> 'w \<Rightarrow> (nat \<times> event) list \<Rightarrow> 'w \<Rightarrow> bool" where
  "inv_seen L V w0 log w \<longleftrightarrow> (\<forall>k row n. row_seen log k row n \<longrightarrow>
     refresh_key L (rt_id row) = Inr k \<and> n \<le> vw_last V w \<and> known V w0 log (rt_id row) \<and>
     (\<forall>v. vw_tokens V w k = Some (v, n) \<longrightarrow> v = row))"

definition inv_redeemed :: "lib \<Rightarrow> 'w view \<Rightarrow> 'w \<Rightarrow> (nat \<times> event) list \<Rightarrow> 'w \<Rightarrow> bool" where
  "inv_redeemed L V w0 log w \<longleftrightarrow> (\<forall>k. length (redemptions k log) \<le> 1 \<and>
     (redemptions k log \<noteq> [] \<longrightarrow>
        (\<forall>v n. vw_tokens V w k = Some (v, n) \<longrightarrow> rt_used_at v \<noteq> None) \<and>
        (\<exists>u. refresh_key L u = Inr k \<and> known V w0 log u)))"

definition bucket_inv :: "lib \<Rightarrow> 'w view \<Rightarrow> 'w \<Rightarrow> (nat \<times> event) list \<Rightarrow> 'w \<Rightarrow> bool" where
  "bucket_inv L V w0 log w \<longleftrightarrow>
     inv_ids V w0 log w \<and> inv_rows L V w0 log w \<and> inv_seen L V w0 log w \<and> inv_redeemed L V w0 log w"

lemmas bucket_inv_defs = bucket_inv_def inv_ids_def inv_rows_def inv_seen_def inv_redeemed_def

lemma bucket_inv_start:
  "store_inv L V w0 \<Longrightarrow> bucket_inv L V w0 [] w0"
  by (auto simp: bucket_inv_defs log_defs known_def store_inv_def)

section \<open>The invariant is kept\<close>

lemma in_by_task: "e \<in> set (by_task i log) \<longleftrightarrow> (i, e) \<in> set log"
  by (force simp: by_task_def)

lemma log_snoc:
  "made_by (log @ [(i, q, r)]) j u \<longleftrightarrow> made_by log j u \<or> (j = i \<and> q = NowV7 \<and> r = RUuid u)"
  "put_by (log @ [(i, q, r)]) j u \<longleftrightarrow> put_by log j u \<or> (j = i \<and> (\<exists>k v. q = TokPut k v \<and> rt_id v = u))"
  "row_seen (log @ [(i, q, r)]) k row n \<longleftrightarrow>
     row_seen log k row n \<or> (q = TokGet k \<and> r = RTok (Inr (Some (row, n))))"
  unfolding log_defs by (simp, blast)+

lemma known_mono: "known V w0 log u \<Longrightarrow> known V w0 (log @ l) u"
  by (auto simp: known_def put_by_def)

lemma known_in_use: "inv_ids V w0 log w \<Longrightarrow> known V w0 log u \<Longrightarrow> u \<in> vw_uuids V w"
  unfolding inv_ids_def known_def by blast

text \<open>Where a write comes from: a token of the writer's own making, or a row that was seen.\<close>

lemma guarded_write:
  assumes inv: "bucket_inv L V w0 log w" and g: "token_guard L (by_task i log) q"
    and wr: "write_of q = Some (k, v)"
  shows "refresh_key L (rt_id v) = Inr k"
    "(q = TokPut k v \<and> made_by log i (rt_id v) \<and> (\<forall>u. \<not> put_by log i u)) \<or>
     (\<exists>n row. q = TokUpdateIf k v n \<and> row_seen log k row n \<and> rt_used_at row = None \<and>
        rt_used_at v \<noteq> None \<and> rt_id v = rt_id row)"
proof -
  have "(q = TokPut k v \<and> refresh_key L (rt_id v) = Inr k \<and> made_by log i (rt_id v) \<and> (\<forall>u. \<not> put_by log i u)) \<or>
     (\<exists>n row. q = TokUpdateIf k v n \<and> refresh_key L (rt_id v) = Inr k \<and> row_seen log k row n \<and>
        rt_used_at row = None \<and> rt_used_at v \<noteq> None \<and> rt_id v = rt_id row)"
  proof (cases q)
    case (TokPut k' v')
    then show ?thesis using g wr
      by (auto simp: token_guard_def write_of_def log_defs in_by_task no_put_def)
  next
    case (TokUpdateIf k' v' n)
    then obtain row k0 where row: "(i, TokGet k0, RTok (Inr (Some (row, n)))) \<in> set log"
        "rt_used_at row = None" "refresh_key L (rt_id row) = Inr k" "rt_used_at v \<noteq> None"
        "rt_id v = rt_id row" "k' = k" "v' = v"
      using g wr by (auto simp: token_guard_def write_of_def read_row_def in_by_task)
    then have seen: "row_seen log k0 row n" by (auto simp: row_seen_def)
    then have "refresh_key L (rt_id row) = Inr k0" using inv by (auto simp: bucket_inv_defs)
    with row seen TokUpdateIf show ?thesis by auto
  qed (use wr in \<open>auto simp: write_of_def\<close>)
  then show "refresh_key L (rt_id v) = Inr k"
    "(q = TokPut k v \<and> made_by log i (rt_id v) \<and> (\<forall>u. \<not> put_by log i u)) \<or>
     (\<exists>n row. q = TokUpdateIf k v n \<and> row_seen log k row n \<and> rt_used_at row = None \<and>
        rt_used_at v \<noteq> None \<and> rt_id v = rt_id row)" by blast+
qed

lemma inv_ids_step:
  assumes inv: "bucket_inv L V w0 log w" and g: "token_guard L (by_task i log) q"
    and us: "uuid_step V q r w w'" and free: "vw_uuids V w \<noteq> UNIV"
  shows "inv_ids V w0 (log @ [(i, q, r)]) w'"
proof -
  have put: "made_by log i u" if "q = TokPut k v" "rt_id v = u" for k v u
    using g that by (auto simp: token_guard_def made_by_def in_by_task)
  have "inv_ids V w0 log w" using inv by (simp add: bucket_inv_def)
  then show ?thesis
    using us put free unfolding inv_ids_def uuid_step_def log_snoc
    by (cases "q = NowV7") (auto split: reply.splits)
qed

lemma inv_rows_step:
  assumes inv: "bucket_inv L V w0 log w" and g: "token_guard L (by_task i log) q"
    and st: "token_step V q r w w'" and us: "uuid_step V q r w w'" and l: "vw_last V w \<le> vw_last V w'"
  shows "inv_rows L V w0 (log @ [(i, q, r)]) w'"
proof -
  have ids: "inv_ids V w0 log w" using inv by (simp add: bucket_inv_def)
  have sub: "vw_uuids V w \<subseteq> vw_uuids V w'" using us by (simp add: uuid_step_def)
  have "refresh_key L (rt_id v) = Inr k \<and> rt_id v \<in> vw_uuids V w' \<and> n \<le> vw_last V w' \<and>
      known V w0 (log @ [(i, q, r)]) (rt_id v)" if e: "vw_tokens V w' k = Some (v, n)" for k v n
    using token_step_entry[OF st e]
  proof
    assume "vw_tokens V w k = Some (v, n)"
    then show ?thesis using inv sub l
      by (fastforce simp: bucket_inv_defs store_inv_def intro: known_mono)
  next
    assume wr: "write_of q = Some (k, v) \<and> vw_last V w < n \<and> n \<le> vw_last V w'"
    then have key: "refresh_key L (rt_id v) = Inr k" and
      src: "(q = TokPut k v \<and> made_by log i (rt_id v) \<and> (\<forall>u. \<not> put_by log i u)) \<or>
        (\<exists>n row. q = TokUpdateIf k v n \<and> row_seen log k row n \<and> rt_used_at row = None \<and>
        rt_used_at v \<noteq> None \<and> rt_id v = rt_id row)"
      using guarded_write[OF inv g] by auto
    from src have "rt_id v \<in> vw_uuids V w \<and> known V w0 (log @ [(i, q, r)]) (rt_id v)"
    proof
      assume p: "q = TokPut k v \<and> made_by log i (rt_id v) \<and> (\<forall>u. \<not> put_by log i u)"
      then have "known V w0 (log @ [(i, q, r)]) (rt_id v)"
        by (auto simp: known_def log_snoc)
      with p ids show ?thesis unfolding inv_ids_def by blast
    next
      assume "\<exists>n row. q = TokUpdateIf k v n \<and> row_seen log k row n \<and> rt_used_at row = None \<and>
        rt_used_at v \<noteq> None \<and> rt_id v = rt_id row"
      then have "known V w0 log (rt_id v)" using inv by (auto simp: bucket_inv_defs)
      then show ?thesis
        using known_in_use[OF ids, of "rt_id v"] known_mono[of V w0 log "rt_id v"] by simp
    qed
    with key wr sub show ?thesis by auto
  qed
  then show ?thesis by (simp add: inv_rows_def store_inv_def)
qed

lemma inv_seen_step:
  assumes inv: "bucket_inv L V w0 log w"
    and st: "token_step V q r w w'" and l: "vw_last V w \<le> vw_last V w'"
  shows "inv_seen L V w0 (log @ [(i, q, r)]) w'"
  unfolding inv_seen_def
proof (intro allI impI)
  fix k row n
  assume "row_seen (log @ [(i, q, r)]) k row n"
  then have "refresh_key L (rt_id row) = Inr k \<and> n \<le> vw_last V w \<and> known V w0 log (rt_id row) \<and>
    (\<forall>v. vw_tokens V w k = Some (v, n) \<longrightarrow> v = row)"
    unfolding log_snoc
  proof
    assume "row_seen log k row n"
    then show ?thesis using inv by (auto simp: bucket_inv_defs)
  next
    assume "q = TokGet k \<and> r = RTok (Inr (Some (row, n)))"
    then have "vw_tokens V w k = Some (row, n)" using st get_ok_step by metis
    moreover have "inv_rows L V w0 log w" using inv by (simp add: bucket_inv_def)
    ultimately show ?thesis unfolding inv_rows_def store_inv_def by fastforce
  qed
  then show "refresh_key L (rt_id row) = Inr k \<and> n \<le> vw_last V w' \<and>
      known V w0 (log @ [(i, q, r)]) (rt_id row) \<and> (\<forall>v. vw_tokens V w' k = Some (v, n) \<longrightarrow> v = row)"
    using token_step_entry[OF st] l known_mono by fastforce
qed

text \<open>A key that was ever redeemed is never put again, and its entry stays marked.\<close>

lemma known_not_put:
  assumes libs: "uuid_ok L" "kv_key_ok L" and inv: "bucket_inv L V w0 log w"
    and made: "made_by log i (rt_id v)" "\<forall>u. \<not> put_by log i u" "refresh_key L (rt_id v) = Inr k"
  shows "\<not> (\<exists>u. refresh_key L u = Inr k \<and> known V w0 log u)"
proof
  assume "\<exists>u. refresh_key L u = Inr k \<and> known V w0 log u"
  then have "known V w0 log (rt_id v)" using refresh_key_inj[OF libs] made(3) by metis
  then show False using inv made(1,2) unfolding bucket_inv_def inv_ids_def known_def by metis
qed

lemma inv_redeemed_step:
  assumes libs: "uuid_ok L" "kv_key_ok L" and inv: "bucket_inv L V w0 log w"
    and g: "token_guard L (by_task i log) q" and st: "token_step V q r w w'"
    and l: "vw_last V w \<le> vw_last V w'"
  shows "inv_redeemed L V w0 (log @ [(i, q, r)]) w'"
  unfolding inv_redeemed_def
proof (intro allI)
  fix k
  let ?log = "log @ [(i, q, r)]"
  have old: "length (redemptions k log) \<le> 1" "redemptions k log \<noteq> [] \<Longrightarrow>
      (\<forall>v n. vw_tokens V w k = Some (v, n) \<longrightarrow> rt_used_at v \<noteq> None) \<and>
      (\<exists>u. refresh_key L u = Inr k \<and> known V w0 log u)"
    using inv by (auto simp: bucket_inv_defs)
  show "length (redemptions k ?log) \<le> 1 \<and> (redemptions k ?log \<noteq> [] \<longrightarrow>
      (\<forall>v n. vw_tokens V w' k = Some (v, n) \<longrightarrow> rt_used_at v \<noteq> None) \<and>
      (\<exists>u. refresh_key L u = Inr k \<and> known V w0 ?log u))"
  proof (cases "redemptions k [(i, q, r)] = []")
    case True
    have "rt_used_at v \<noteq> None" if ne: "redemptions k log \<noteq> []" and e: "vw_tokens V w' k = Some (v, n)" for v n
      using token_step_entry[OF st e]
    proof
      assume wr: "write_of q = Some (k, v) \<and> vw_last V w < n \<and> n \<le> vw_last V w'"
      then show ?thesis
        using guarded_write[OF inv g, of k v] known_not_put[OF libs inv, of i v k] old(2)[OF ne] by blast
    qed (use old(2)[OF ne] in blast)
    then show ?thesis using True old known_mono by fastforce
  next
    case False
    then obtain v n u where q: "q = TokUpdateIf k v n" "r = RDone (Inr u)"
      by (cases q; cases r) (auto simp: redemptions_def split: sum.splits if_splits)
    obtain row where row: "row_seen log k row n" "rt_used_at row = None" "rt_used_at v \<noteq> None" "rt_id v = rt_id row"
      using guarded_write(2)[OF inv g, of k v] q by (auto simp: write_of_def)
    have key: "refresh_key L (rt_id row) = Inr k" "known V w0 log (rt_id row)"
      using row inv by (auto simp: bucket_inv_defs)
    obtain v0 where v0: "vw_tokens V w k = Some (v0, n)"
      using update_ok_step(1) st q unfolding at_revision_def by metis
    then have "v0 = row" using row(1) inv by (auto simp: bucket_inv_defs)
    then have none: "redemptions k log = []" using old(2) v0 row(2) by fastforce
    have "\<forall>v' n'. vw_tokens V w' k = Some (v', n') \<longrightarrow> rt_used_at v' \<noteq> None"
      using update_ok_step(2) st q row(3) by fastforce
    moreover have "length (redemptions k [(i, q, r)]) \<le> 1" by (simp add: redemptions_def)
    moreover have "known V w0 ?log (rt_id row)" by (rule known_mono[OF key(2)])
    ultimately show ?thesis using none key(1) by auto
  qed
qed

lemma bucket_inv_step:
  assumes "uuid_ok L" "kv_key_ok L" "fabric_ok V W" "bucket_inv L V w0 log w"
    "token_guard L (by_task i log) q" "W q w = (r, w')" "vw_uuids V w \<noteq> UNIV"
  shows "bucket_inv L V w0 (log @ [(i, q, r)]) w'"
  using inv_ids_step[OF assms(4,5) fabric_okD(4)[OF assms(3,6)] assms(7)]
    inv_rows_step[OF assms(4,5) fabric_okD(3,4,2)[OF assms(3,6)]]
    inv_seen_step[OF assms(4) fabric_okD(3,2)[OF assms(3,6)]]
    inv_redeemed_step[OF assms(1,2,4,5) fabric_okD(3,2)[OF assms(3,6)]]
  by (simp add: bucket_inv_def[of L V w0 "log @ [(i, q, r)]" w'])

lemma valid_log_snoc:
  assumes "valid_log L W w0 (log @ [(i, q, r)]) w"
  shows "\<exists>w1. valid_log L W w0 log w1 \<and> W q w1 = (r, w) \<and> token_guard L (by_task i log) q"
proof -
  from assms obtain w1 where w1: "follows W w0 (map snd log) w1" "W q w1 = (r, w)"
    and g: "\<forall>j. guarded (token_guard L) (by_task j (log @ [(i, q, r)]))"
    by (auto simp: valid_log_def follows_append_iff follows_Cons_iff)
  have "guarded (token_guard L) (by_task j log)" for j
    using g[rule_format, of j] by (auto simp: guarded_snoc split: if_splits)
  moreover have "token_guard L (by_task i log) q"
    using g[rule_format, of i] by (auto simp: guarded_snoc)
  ultimately show ?thesis using w1 by (auto simp: valid_log_def)
qed

lemma follows_uuids_mono:
  assumes "follows W w log w'" "fabric_ok V W"
  shows "vw_uuids V w \<subseteq> vw_uuids V w'"
  using assms
proof (induction rule: follows.induct)
  case (reply q w r w1 log w')
  then show ?case using fabric_okD(4)[OF reply.prems reply.hyps(1)]
    by (auto simp: uuid_step_def)
qed simp

text \<open>The hypothesis on the ids in use: the \<open>2 ^ 128\<close> uuids have not all been handed out.\<close>

theorem valid_log_bucket_inv:
  assumes "uuid_ok L" "kv_key_ok L" "fabric_ok V W" "store_inv L V w0" "valid_log L W w0 log w"
    "vw_uuids V w \<noteq> UNIV"
  shows "bucket_inv L V w0 log w"
  using assms(5,6)
proof (induction log arbitrary: w rule: rev_induct)
  case Nil
  then show ?case using bucket_inv_start[OF assms(4)] by (simp add: valid_log_def)
next
  case (snoc e log)
  obtain i q r where e: "e = (i, q, r)" by (cases e) auto
  from valid_log_snoc[OF snoc.prems(1)[unfolded e] ] obtain w1 where
    w1: "valid_log L W w0 log w1" "W q w1 = (r, w)" "token_guard L (by_task i log) q" by blast
  have "vw_uuids V w1 \<subseteq> vw_uuids V w"
    using fabric_okD(4)[OF assms(3) w1(2)] by (simp add: uuid_step_def)
  then have free: "vw_uuids V w1 \<noteq> UNIV" using snoc.prems(2) by auto
  then show ?case using bucket_inv_step[OF assms(1-3) snoc.IH[OF w1(1) free] w1(3,2) free] e by simp
qed

end
