(* ===== verification/Families.thy ===== *)
theory Families
  imports Fabric
begin

text \<open>
  Families under concurrent handlers: the rows ever held or read under one key are of one family
  and one user; a key that was known is not stored anew, so an unused row under it is as old as it was
  at the start; and an entry that no request has updated is the one that was there or is gone.
\<close>

definition observed :: "'w view \<Rightarrow> 'w \<Rightarrow> (nat \<times> event) list \<Rightarrow> 'w \<Rightarrow> kv_key \<Rightarrow> refresh_token \<Rightarrow> bool" where
  "observed V w0 log w k row \<longleftrightarrow> (\<exists>n. row_seen log k row n) \<or>
     (\<exists>n. vw_tokens V w0 k = Some (row, n)) \<or> (\<exists>n. vw_tokens V w k = Some (row, n))"

definition same_owner :: "refresh_token \<Rightarrow> refresh_token \<Rightarrow> bool" where
  "same_owner a b \<longleftrightarrow> rt_family_id a = rt_family_id b \<and> rt_email a = rt_email b"

definition inv_family :: "'w view \<Rightarrow> 'w \<Rightarrow> (nat \<times> event) list \<Rightarrow> 'w \<Rightarrow> bool" where
  "inv_family V w0 log w \<longleftrightarrow> (\<forall>k row row'.
     observed V w0 log w k row \<longrightarrow> observed V w0 log w k row' \<longrightarrow> same_owner row row')"

lemma same_owner_trans: "same_owner a b \<Longrightarrow> same_owner c b \<Longrightarrow> same_owner a c"
  by (simp add: same_owner_def)

lemma observed_known:
  assumes "bucket_inv L V w0 log w" "store_inv L V w0" "observed V w0 log w k row"
  shows "refresh_key L (rt_id row) = Inr k \<and> known V w0 log (rt_id row)"
  using assms(3) unfolding observed_def
proof (elim disjE exE)
  fix n assume "row_seen log k row n"
  then show ?thesis using assms(1) by (auto simp: bucket_inv_defs)
next
  fix n assume "vw_tokens V w0 k = Some (row, n)"
  then show ?thesis using assms(2) by (auto simp: store_inv_def known_def)
next
  fix n assume "vw_tokens V w k = Some (row, n)"
  then show ?thesis using assms(1) unfolding bucket_inv_def inv_rows_def store_inv_def by blast
qed

text \<open>A row observed after a step was observed before, or is an owner-preserving update of one, or is new at its key.\<close>

lemma observed_step:
  assumes inv: "bucket_inv L V w0 log w" and g: "token_guard L (by_task i log) q"
    and st: "token_step V q r w w'" and ob: "observed V w0 (log @ [(i, q, r)]) w' k row"
  shows "(\<exists>row0. observed V w0 log w k row0 \<and> same_owner row row0) \<or> q = TokPut k row"
proof -
  have same: ?thesis if "observed V w0 log w k row" using that by (auto simp: same_owner_def)
  from ob consider (seen) n where "row_seen log k row n"
    | (read) n where "q = TokGet k" "r = RTok (Inr (Some (row, n)))"
    | (start) n where "vw_tokens V w0 k = Some (row, n)" | (now) n where "vw_tokens V w' k = Some (row, n)"
    unfolding observed_def log_snoc by blast
  then show ?thesis
  proof cases
    case read
    then have "vw_tokens V w k = Some (row, n)" using st get_ok_step by metis
    then show ?thesis by (intro same) (auto simp: observed_def)
  next
    case now
    show ?thesis
      using token_step_entry[OF st now]
    proof
      assume wr: "write_of q = Some (k, row) \<and> vw_last V w < n \<and> n \<le> vw_last V w'"
      show ?thesis
      proof (cases q)
        case (TokUpdateIf k' v' m)
        then obtain row0 k0 where row0: "(i, TokGet k0, RTok (Inr (Some (row0, m)))) \<in> set log"
          "refresh_key L (rt_id row0) = Inr k" "same_owner row row0"
          using g wr by (auto simp: token_guard_def write_of_def read_row_def in_by_task same_owner_def)
        then have seen: "row_seen log k0 row0 m" by (auto simp: row_seen_def)
        then have "refresh_key L (rt_id row0) = Inr k0" using inv by (auto simp: bucket_inv_defs)
        with row0 seen show ?thesis by (auto simp: observed_def)
      qed (use wr in \<open>auto simp: write_of_def\<close>)
    next
      assume "vw_tokens V w k = Some (row, n)"
      then show ?thesis by (intro same) (auto simp: observed_def)
    qed
  next
    case seen
    then show ?thesis by (intro same) (auto simp: observed_def)
  next
    case start
    then show ?thesis by (intro same) (auto simp: observed_def)
  qed
qed

lemma inv_family_step:
  assumes libs: "uuid_ok L" "kv_key_ok L" and inv: "bucket_inv L V w0 log w" and s0: "store_inv L V w0"
    and fam: "inv_family V w0 log w" and g: "token_guard L (by_task i log) q" and st: "token_step V q r w w'"
  shows "inv_family V w0 (log @ [(i, q, r)]) w'"
  unfolding inv_family_def
proof (intro allI impI)
  fix k row row'
  assume ob: "observed V w0 (log @ [(i, q, r)]) w' k row" "observed V w0 (log @ [(i, q, r)]) w' k row'"
  have fresh: "\<not> observed V w0 log w k x" if "q = TokPut k v" for v x
  proof
    assume "observed V w0 log w k x"
    from observed_known[OF inv s0 this] have "\<exists>u. refresh_key L u = Inr k \<and> known V w0 log u" by blast
    moreover have "made_by log i (rt_id v)" "\<forall>u. \<not> put_by log i u" "refresh_key L (rt_id v) = Inr k"
      using g that by (auto simp: token_guard_def log_defs in_by_task no_put_def)
    ultimately show False using known_not_put[OF libs inv] by blast
  qed
  show "same_owner row row'"
  proof (cases "\<exists>v. q = TokPut k v")
    case True
    then have "q = TokPut k row" "q = TokPut k row'"
      using observed_step[OF inv g st ob(1)] observed_step[OF inv g st ob(2)] fresh by blast+
    then show ?thesis by (simp add: same_owner_def)
  next
    case False
    then obtain a b where "observed V w0 log w k a" "same_owner row a" "observed V w0 log w k b" "same_owner row' b"
      using observed_step[OF inv g st ob(1)] observed_step[OF inv g st ob(2)] by blast
    moreover from this have "same_owner a b" using fam unfolding inv_family_def by blast
    ultimately show ?thesis by (simp add: same_owner_def)
  qed
qed

theorem valid_log_family:
  assumes "uuid_ok L" "kv_key_ok L" "fabric_ok V W" "store_inv L V w0" "valid_log L W w0 log w"
    "vw_uuids V w \<noteq> UNIV"
  shows "inv_family V w0 log w"
  using assms(5,6)
proof (induction log arbitrary: w rule: rev_induct)
  case Nil
  then show ?case by (auto simp: valid_log_def inv_family_def observed_def same_owner_def log_defs)
next
  case (snoc e log)
  obtain i q r where e: "e = (i, q, r)" by (cases e) auto
  from valid_log_snoc[OF snoc.prems(1)[unfolded e] ] obtain w1 where
    w1: "valid_log L W w0 log w1" "W q w1 = (r, w)" "token_guard L (by_task i log) q" by blast
  have "vw_uuids V w1 \<subseteq> vw_uuids V w"
    using fabric_okD(4)[OF assms(3) w1(2)] by (simp add: uuid_step_def)
  then have free: "vw_uuids V w1 \<noteq> UNIV" using snoc.prems(2) by auto
  show ?case
    unfolding e
    by (rule inv_family_step[OF assms(1,2) valid_log_bucket_inv[OF assms(1-4) w1(1) free] assms(4)
          snoc.IH[OF w1(1) free] w1(3) fabric_okD(3)[OF assms(3) w1(2)]])
qed

section \<open>An entry that was there before\<close>

text \<open>
  Only an update writes a key the bucket has held: unless there is one, the entry stays or is dropped;
  and an unused entry under such a key is not younger than the key's first sight.
\<close>

lemma known_key_write:
  assumes libs: "uuid_ok L" "kv_key_ok L" and inv: "bucket_inv L V w0 log w"
    and g: "token_guard L (by_task i log) q" and st: "token_step V q r w w'"
    and key: "known V w0 log u" "refresh_key L u = Inr k" and e: "vw_tokens V w' k = Some (v, n)"
  shows "vw_tokens V w k = Some (v, n) \<or> ((\<exists>m. q = TokUpdateIf k v m) \<and> rt_used_at v \<noteq> None)"
  using token_step_entry[OF st e]
proof
  assume "write_of q = Some (k, v) \<and> vw_last V w < n \<and> n \<le> vw_last V w'"
  then show ?thesis
    using guarded_write[OF inv g, of k v] known_not_put[OF libs inv, of i v k] key by blast
qed simp

lemma valid_log_prefix:
  assumes "valid_log L W w0 (h @ l) w"
  shows "\<exists>w1. valid_log L W w0 h w1 \<and> follows W w1 (map snd l) w"
  using assms
proof (induction l arbitrary: w rule: rev_induct)
  case Nil
  then show ?case by auto
next
  case (snoc e l)
  obtain i q r where e: "e = (i, q, r)" by (cases e)
  with snoc.prems obtain v where v: "valid_log L W w0 (h @ l) v" "W q v = (r, w)"
    using valid_log_snoc[of L W w0 "h @ l" i q r w] by auto
  from snoc.IH[OF v(1)] v(2) e show ?case by (auto simp: follows_append_iff follows_Cons_iff)
qed

lemma unused_is_old:
  assumes "uuid_ok L" "kv_key_ok L" "fabric_ok V W" "store_inv L V w0"
    and "known V w0 h u" "refresh_key L u = Inr k" "valid_log L W w0 h w1"
    and "valid_log L W w0 (h @ l) w" "vw_uuids V w \<noteq> UNIV"
    and "vw_tokens V w k = Some (v, n)" "rt_used_at v = None"
  shows "n \<le> vw_last V w1"
  using assms(8-)
proof (induction l arbitrary: w v n rule: rev_induct)
  case Nil
  then have "w = w1" using assms(7) by (auto simp: valid_log_def dest: follows_det)
  moreover have "store_inv L V w"
    using valid_log_bucket_inv[OF assms(1-4), of h w] Nil unfolding bucket_inv_def inv_rows_def by simp
  ultimately show ?case using Nil(3) by (auto simp: store_inv_def)
next
  case (snoc e l)
  obtain i q r where e: "e = (i, q, r)" by (cases e)
  from snoc.prems(1) obtain v1 where v1: "valid_log L W w0 (h @ l) v1" "W q v1 = (r, w)"
    "token_guard L (by_task i (h @ l)) q" using valid_log_snoc[of L W w0 "h @ l" i q r w] e by auto
  have "vw_uuids V v1 \<subseteq> vw_uuids V w" using fabric_okD(4)[OF assms(3) v1(2)] by (simp add: uuid_step_def)
  then have free: "vw_uuids V v1 \<noteq> UNIV" using snoc.prems(2) by auto
  from known_key_write[OF assms(1,2) valid_log_bucket_inv[OF assms(1-4) v1(1) free] v1(3)
      fabric_okD(3)[OF assms(3) v1(2)] known_mono[OF assms(5)] assms(6) snoc.prems(3)] snoc.prems(4)
  have "vw_tokens V v1 k = Some (v, n)" by simp
  then show ?case by (rule snoc.IH[OF v1(1) free _ snoc.prems(4)])
qed

lemma unspent_until_update:
  assumes "uuid_ok L" "kv_key_ok L" "fabric_ok V W" "store_inv L V w0" "valid_log L W w0 log w"
    "vw_uuids V w \<noteq> UNIV" "vw_tokens V w0 k = Some e" "\<forall>i v m r. (i, TokUpdateIf k v m, r) \<notin> set log"
  shows "vw_tokens V w k = Some e \<or> vw_tokens V w k = None"
  using assms(5,6,8)
proof (induction log arbitrary: w rule: rev_induct)
  case Nil
  then show ?case using assms(7) by (simp add: valid_log_def)
next
  case (snoc x log)
  obtain i q r where x: "x = (i, q, r)" by (cases x)
  from snoc.prems(1) obtain w1 where w1: "valid_log L W w0 log w1" "W q w1 = (r, w)"
    "token_guard L (by_task i log) q" using valid_log_snoc[of L W w0 log i q r w] x by auto
  have "vw_uuids V w1 \<subseteq> vw_uuids V w" using fabric_okD(4)[OF assms(3) w1(2)] by (simp add: uuid_step_def)
  then have free: "vw_uuids V w1 \<noteq> UNIV" using snoc.prems(2) by auto
  obtain row n where e: "e = (row, n)" by (cases e)
  have k: "known V w0 log (rt_id row)" "refresh_key L (rt_id row) = Inr k"
    using assms(4,7) e by (auto simp: store_inv_def known_def)
  have "vw_tokens V w1 k = Some (v, m)" if "vw_tokens V w k = Some (v, m)" for v m
    using known_key_write[OF assms(1,2) valid_log_bucket_inv[OF assms(1-4) w1(1) free] w1(3)
      fabric_okD(3)[OF assms(3) w1(2)] k that] snoc.prems(3) x by auto
  with snoc.IH[OF w1(1) free] snoc.prems(3) show ?case by (cases "vw_tokens V w k") auto
qed

end
