(* ===== verification/Answers.thy ===== *)
theory Answers
  imports Renewal
begin

text \<open>
  The answers of the endpoints: which tokens a response hands out, and the interface of the two
  endpoints that renew (\<open>POST /auth/refresh\<close> and the silent refresh of \<open>GET /auth/check\<close>).
\<close>

section \<open>Tokens in a response\<close>

definition cookie_token :: "string \<Rightarrow> string \<Rightarrow> string option" where
  "cookie_token name cookie = (case strip_prefix (name @ ''='') (cookie_pair cookie) of
     Some t \<Rightarrow> if t = [] then None else Some t | None \<Rightarrow> None)"

text \<open>The first cookie of this name with a value, among those a response sets.\<close>

definition issued :: "string \<Rightarrow> http_response \<Rightarrow> string option" where
  "issued name r = find_map (cookie_token name) (set_cookies r)"

lemma cookie_token_pair:
  assumes "CHR ''='' \<notin> set name" "CHR ''='' \<notin> set n" "cookie_pair c = n @ ''='' @ v"
  shows "cookie_token name c = (if n = name \<and> v \<noteq> [] then Some v else None)"
  using assms strip_prefix_sep[of "CHR ''=''" name n v] by (simp add: cookie_token_def)

lemma no_semicolon: "list_all token_char v \<Longrightarrow> CHR '';'' \<notin> set v"
  by (auto simp: list_all_iff token_char_def)

lemma cookie_token_built:
  assumes "list_all token_char v"
  shows "cookie_token (refresh_cookie_name c) (build_refresh_cookie v c) = (if v = [] then None else Some v)"
    "cookie_token (refresh_cookie_name c) (build_access_cookie v c) = None"
    "cookie_token (access_cookie_name c) (build_access_cookie v c) = (if v = [] then None else Some v)"
    "cookie_token (access_cookie_name c) (build_refresh_cookie v c) = None"
proof -
  have r: "cookie_pair (build_refresh_cookie v c) = refresh_cookie_name c @ ''='' @ v"
    unfolding build_refresh_cookie_def by (rule cookie_pair_build) (simp_all add: cookie_names no_semicolon assms)
  have a: "cookie_pair (build_access_cookie v c) = access_cookie_name c @ ''='' @ v"
    unfolding build_access_cookie_def by (rule cookie_pair_build) (simp_all add: cookie_names no_semicolon assms)
  show "cookie_token (refresh_cookie_name c) (build_refresh_cookie v c) = (if v = [] then None else Some v)"
    "cookie_token (refresh_cookie_name c) (build_access_cookie v c) = None"
    "cookie_token (access_cookie_name c) (build_access_cookie v c) = (if v = [] then None else Some v)"
    "cookie_token (access_cookie_name c) (build_refresh_cookie v c) = None"
    using cookie_token_pair[OF _ _ r] cookie_token_pair[OF _ _ a] cookie_names[of c] by auto
qed

lemma cookie_token_cleared:
  "cookie_token (refresh_cookie_name c) (build_clear_refresh_cookie c) = None"
  "cookie_token (refresh_cookie_name c) (build_clear_access_cookie c) = None"
  "cookie_token (access_cookie_name c) (build_clear_refresh_cookie c) = None"
  "cookie_token (access_cookie_name c) (build_clear_access_cookie c) = None"
proof -
  have r: "cookie_pair (build_clear_refresh_cookie c) = refresh_cookie_name c @ ''='' @ []"
    unfolding build_clear_refresh_cookie_def by (rule cookie_pair_build) (simp_all add: cookie_names)
  have a: "cookie_pair (build_clear_access_cookie c) = access_cookie_name c @ ''='' @ []"
    unfolding build_clear_access_cookie_def by (rule cookie_pair_build) (simp_all add: cookie_names)
  show "cookie_token (refresh_cookie_name c) (build_clear_refresh_cookie c) = None"
    "cookie_token (refresh_cookie_name c) (build_clear_access_cookie c) = None"
    "cookie_token (access_cookie_name c) (build_clear_refresh_cookie c) = None"
    "cookie_token (access_cookie_name c) (build_clear_access_cookie c) = None"
    using cookie_token_pair[OF _ _ r] cookie_token_pair[OF _ _ a] cookie_names[of c] by auto
qed

lemma cookie_token_session:
  assumes "core_auth_ok L" "uuid_ok L"
  shows "cookie_token (refresh_cookie_name c) (build_session_cookie L (uuid_to_string L u) c) = None"
    "cookie_token (access_cookie_name c) (build_session_cookie L (uuid_to_string L u) c) = None"
proof -
  let ?n = "core_session_cookie_name L (cc_secure c)"
  have n: "list_all token_char ?n" "CHR ''='' \<notin> set ?n" "?n \<noteq> refresh_cookie_name c" "?n \<noteq> access_cookie_name c"
    using assms(1) by (auto simp: core_auth_ok_def refresh_cookie_name_def access_cookie_name_def)
  have v: "list_all token_char (uuid_to_string L u)" using assms(2) by (simp add: uuid_ok_def)
  have "takeWhile (\<lambda>c. c \<noteq> CHR '';'') (p @ CHR '';'' # q) = p" if "CHR '';'' \<notin> set p" for p q :: string
    using that by (induction p) auto
  from this[of "?n @ ''='' @ uuid_to_string L u"]
  have "cookie_pair (build_session_cookie L (uuid_to_string L u) c) = ?n @ ''='' @ uuid_to_string L u"
    using no_semicolon[OF n(1)] no_semicolon[OF v]
    by (cases "cc_secure c")
      (simp_all add: cookie_pair_def build_session_cookie_def session_cookie_name_def Let_def)
  from cookie_token_pair[OF _ n(2) this] n cookie_names[of c] show
    "cookie_token (refresh_cookie_name c) (build_session_cookie L (uuid_to_string L u) c) = None"
    "cookie_token (access_cookie_name c) (build_session_cookie L (uuid_to_string L u) c) = None" by auto
qed

lemma session_cookie_parsed:
  assumes "core_auth_ok L" "uuid_ok L" "http_ok L"
  shows "header_value_parse L (build_session_cookie L (uuid_to_string L u) c) =
    Some (build_session_cookie L (uuid_to_string L u) c)"
  by (rule header_value_parse_visible[OF assms(3)], rule build_session_cookie_visible)
    (use assms in \<open>auto simp: core_auth_ok_def uuid_ok_def token_char_visible\<close>)

text \<open>The session cookie adds no token, and the clearing cookies and errors hand out none.\<close>

lemma issued_simps [simp]:
  "issued name (status_response n) = None" "issued name (json_response n j) = None"
  "issued name (app_error_into_response e) = None"
  by (simp_all add: issued_def)

lemma issued_append_session:
  assumes "core_auth_ok L" "uuid_ok L" "http_ok L"
    "runs (append_session_cookie_if_needed L S ex r) tr y"
    "name = refresh_cookie_name (as_cookie_config S) \<or> name = access_cookie_name (as_cookie_config S)"
  shows "issued name y = issued name r"
  using assms
  by (auto simp: runs_append_session session_cookie_parsed issued_def find_map_append
      cookie_token_session split: option.splits)

lemma issued_cleared:
  assumes "http_ok L" "set_cookies r = []"
    "runs (set_two_cookies L (build_clear_access_cookie c) (build_clear_refresh_cookie c) r) tr y"
    "name = refresh_cookie_name c \<or> name = access_cookie_name c"
  shows "issued name y = None"
  using assms
  by (auto simp: runs_set_two_cookies issued_def cookie_token_cleared
      header_value_parse_visible[OF assms(1)] built_cookies_visible)

lemma issued_token_cookies:
  assumes "http_ok L" "a \<noteq> []" "r \<noteq> []" "list_all token_char a" "list_all token_char r"
    "runs (token_cookies L S a r resp) tr y"
  shows "issued (refresh_cookie_name (as_cookie_config S)) y = Some r"
    "issued (access_cookie_name (as_cookie_config S)) y = Some a"
  using assms
  by (auto simp: token_cookies_def runs_set_two_cookies issued_def cookie_token_built
      header_value_parse_visible[OF assms(1)] built_cookies_visible token_char_visible)

lemma runs_token_cookies:
  "runs (token_cookies L S a r resp) tr y \<Longrightarrow> tr = []"
  by (simp add: token_cookies_def runs_set_two_cookies)

lemma signed_by_lib:
  "runs (sign_access_token L svc e) tr (Inr a) \<Longrightarrow> \<exists>k j. jwt_encode L k j = Inr a"
  "runs (sign_refresh_token L svc e) tr (Inr (r, u)) \<Longrightarrow> \<exists>k j. jwt_encode L k j = Inr r"
  unfolding sign_access_token_def sign_refresh_token_def Let_def
  by (auto simp: runs_calls result_iff split: sum.splits)

text \<open>What is signed is text that fits a cookie.\<close>

lemma signed_text:
  assumes "jwt_ok L"
  shows "runs (sign_access_token L svc e) tr (Inr a) \<Longrightarrow> a \<noteq> [] \<and> list_all token_char a"
    "runs (sign_refresh_token L svc e) tr (Inr (r, u)) \<Longrightarrow> r \<noteq> [] \<and> list_all token_char r"
proof -
  show "a \<noteq> [] \<and> list_all token_char a" if "runs (sign_access_token L svc e) tr (Inr a)"
    by (rule signed_by_lib(1)[OF that, THEN exE]) (erule exE, rule jwt_encode_text[OF assms])
  show "r \<noteq> [] \<and> list_all token_char r" if "runs (sign_refresh_token L svc e) tr (Inr (r, u))"
    by (rule signed_by_lib(2)[OF that, THEN exE]) (erule exE, rule jwt_encode_text[OF assms])
qed

lemma renewed_text:
  assumes "jwt_ok L" "runs (renewal L S jwt) tr (Renewed a r)"
  shows "a \<noteq> []" "list_all token_char a" "r \<noteq> []" "list_all token_char r"
proof -
  from assms(2) obtain claims row n where rb: "renewed_by L S jwt tr claims row n a r"
    unfolding renewal_renewed by (elim exE)
  from rb obtain tra where "runs (sign_access_token L (as_jwt S) (rc_sub claims)) tra (Inr a)"
    unfolding renewed_by_def by (elim exE conjE)
  from signed_text(1)[OF assms(1) this] show "a \<noteq> []" "list_all token_char a" by auto
  from rb obtain trs u where "runs (sign_refresh_token L (as_jwt S) (rc_sub claims)) trs (Inr (r, u))"
    unfolding renewed_by_def by (elim exE conjE)
  from signed_text(2)[OF assms(1) this] show "r \<noteq> []" "list_all token_char r" by auto
qed

section \<open>The two endpoints that renew\<close>

text \<open>
  An endpoint that renews looks for a refresh token, runs the renewal on it and answers from its
  outcome: it hands out a refresh token only when the outcome is \<open>Renewed\<close>, and then that one.
  \<open>laws\<close> stands for what the answer relies on of the libraries it writes cookies with.
\<close>

locale renewing =
  fixes endpoint :: "'q \<Rightarrow> 'r prog" and presented :: "'q \<Rightarrow> string option"
    and core :: "string \<Rightarrow> outcome prog" and absent :: "'q \<Rightarrow> 'r prog"
    and answer :: "'q \<Rightarrow> outcome \<Rightarrow> 'r prog" and token :: "'r \<Rightarrow> string option" and laws :: bool
  assumes factor: "endpoint q =
      (case presented q of None \<Rightarrow> absent q | Some jwt \<Rightarrow> bind (core jwt) (answer q))"
    and absent_none: "laws \<Longrightarrow> runs (absent q) tr y \<Longrightarrow> token y = None"
    and answer_token: "laws \<Longrightarrow> runs (core jwt) tr1 out \<Longrightarrow> runs (answer q out) tr2 y \<Longrightarrow>
      token y = (case out of Renewed a r \<Rightarrow> Some r | _ \<Rightarrow> None)"
begin

lemma granted:
  assumes "laws" "runs (endpoint q) tr y" "token y = Some t"
  shows "\<exists>jwt a t1 t2. presented q = Some jwt \<and> tr = t1 @ t2 \<and> runs (core jwt) t1 (Renewed a t)"
proof (cases "presented q")
  case None
  then have "runs (absent q) tr y" using assms(2) factor[of q] by simp
  then show ?thesis using absent_none[OF assms(1)] assms(3) by simp
next
  case (Some jwt)
  then have "runs (bind (core jwt) (answer q)) tr y" using assms(2) factor[of q] by simp
  then obtain t1 t2 out where t: "tr = t1 @ t2" "runs (core jwt) t1 out" "runs (answer q out) t2 y"
    unfolding runs_bind by (elim exE conjE)
  have "token y = (case out of Renewed a r \<Rightarrow> Some r | _ \<Rightarrow> None)"
    by (rule answer_token[OF assms(1) t(2,3)])
  then obtain a where "out = Renewed a t" using assms(3) by (cases out) auto
  then show ?thesis using Some t by blast
qed

lemma granted_iff:
  assumes "laws" "presented q = Some jwt" "runs (core jwt) t1 out" "runs (answer q out) t2 y"
  shows "runs (endpoint q) (t1 @ t2) y \<and> (token y \<noteq> None \<longleftrightarrow> (\<exists>a r. out = Renewed a r))"
  using runs_bindI[where f = "answer q", OF assms(3,4)] factor[of q] assms(2) answer_token[OF assms(1,3,4)]
  by (cases out) auto

end

definition answer_laws :: "lib \<Rightarrow> bool" where
  "answer_laws L \<longleftrightarrow> core_auth_ok L \<and> uuid_ok L \<and> http_ok L \<and> jwt_ok L"

text \<open>\<open>POST /auth/refresh\<close>: clearing cookies on a 401, the session cookie when there is none.\<close>

definition refresh_finish ::
  "lib \<Rightarrow> app_state \<Rightarrow> headers \<Rightarrow> app_error + http_response \<Rightarrow> http_response prog" where
  "refresh_finish L S headers res =
     bind (case res of
              Inr r \<Rightarrow> Ret r
            | Inl e \<Rightarrow>
                (let response = app_error_into_response e in
                 if status response = 401 then
                   set_two_cookies L (build_clear_access_cookie (as_cookie_config S))
                     (build_clear_refresh_cookie (as_cookie_config S)) response
                 else Ret response)) (\<lambda>response.
        append_session_cookie_if_needed L S (extract_session_cookie L headers (as_cookie_config S)) response)"

definition request_of :: "refresh_request option \<Rightarrow> refresh_request" where
  "request_of body = (case body of Some b \<Rightarrow> b | None \<Rightarrow> \<lparr>rr_refresh_token = None\<rparr>)"

lemma refresh_handler_finish:
  "refresh_handler L S headers body =
     bind (handle_refresh L S (request_of body) headers) (refresh_finish L S headers)"
  unfolding refresh_handler_def refresh_finish_def request_of_def Let_def bind_assoc ..

lemma refresh_finish_issued:
  assumes "answer_laws L" "runs (refresh_finish L S headers res) tr y"
    "name = refresh_cookie_name (as_cookie_config S) \<or> name = access_cookie_name (as_cookie_config S)"
  shows "issued name y = (case res of Inl e \<Rightarrow> None | Inr r \<Rightarrow> issued name r)"
proof -
  note laws = assms(1)[unfolded answer_laws_def]
  from assms(2) obtain t1 t2 r where r: "runs (append_session_cookie_if_needed L S
        (extract_session_cookie L headers (as_cookie_config S)) r) t2 y"
    and c: "runs (case res of Inr r \<Rightarrow> Ret r | Inl e \<Rightarrow>
                (let response = app_error_into_response e in
                 if status response = 401 then
                   set_two_cookies L (build_clear_access_cookie (as_cookie_config S))
                     (build_clear_refresh_cookie (as_cookie_config S)) response
                 else Ret response)) t1 r"
    unfolding refresh_finish_def runs_bind by (elim exE conjE)
  have "issued name y = issued name r"
    by (rule issued_append_session[OF _ _ _ r assms(3)]) (use laws in auto)
  also have "\<dots> = (case res of Inl e \<Rightarrow> None | Inr r \<Rightarrow> issued name r)"
  proof (cases res)
    case (Inl e)
    show ?thesis
    proof (cases "status (app_error_into_response e) = 401")
      case True
      then have "runs (set_two_cookies L (build_clear_access_cookie (as_cookie_config S))
          (build_clear_refresh_cookie (as_cookie_config S)) (app_error_into_response e)) t1 r"
        using c Inl by (simp add: Let_def del: app_error_status(1))
      then show ?thesis using issued_cleared[OF _ _ _ assms(3), of L "app_error_into_response e"] laws Inl by simp
    next
      case False
      then show ?thesis using c Inl by (simp add: Let_def del: app_error_status(1))
    qed
  qed (use c in simp)
  finally show ?thesis .
qed

lemma refresh_answer_issued:
  assumes "answer_laws L" "runs (renewal L S jwt) tr1 out" "runs (refresh_answer L S out) tr2 res"
  shows "(case res of Inl e \<Rightarrow> None | Inr r \<Rightarrow> issued (refresh_cookie_name (as_cookie_config S)) r) =
      (case out of Renewed a r \<Rightarrow> Some r | _ \<Rightarrow> None)"
proof (cases out)
  case (Renewed a r)
  note laws = assms(1)[unfolded answer_laws_def]
  have "runs (renewal L S jwt) tr1 (Renewed a r)" using assms(2) Renewed by simp
  note tok = renewed_text[OF _ this]
  from assms(3) obtain y where y: "runs (token_cookies L S a r (json_response 200
      (bearer_body (js_access_ttl_secs (as_jwt S))))) tr2 y" "res = Inr y"
    unfolding Renewed refresh_answer.simps runs_bind by auto
  show ?thesis using issued_token_cookies(1)[OF _ _ _ _ _ y(1)] tok laws y(2) Renewed by simp
qed (use assms(3) in auto)

lemma check_answer_issued:
  assumes "answer_laws L" "runs (renewal L S jwt) tr1 out" "runs (check_answer L S out) tr2 y"
  shows "issued (refresh_cookie_name (as_cookie_config S)) y =
      (case out of Renewed a r \<Rightarrow> Some r | _ \<Rightarrow> None)"
proof (cases "\<exists>a r. out = Renewed a r")
  case True
  then obtain a r where Renewed: "out = Renewed a r" by blast
  note laws = assms(1)[unfolded answer_laws_def]
  have "runs (renewal L S jwt) tr1 (Renewed a r)" using assms(2) Renewed by simp
  note tok = renewed_text[OF _ this]
  have "runs (token_cookies L S a r (status_response 200)) tr2 y" using assms(3) Renewed by simp
  from issued_token_cookies(1)[OF _ _ _ _ _ this] show ?thesis
    using tok laws Renewed by simp
next
  case False
  then have "runs (clear_cookies_response L S) tr2 y" using assms(3) by (cases out) auto
  then have "issued (refresh_cookie_name (as_cookie_config S)) y = None"
    unfolding clear_cookies_response_def
    by (rule issued_cleared[rotated 2]) (use assms(1) in \<open>auto simp: answer_laws_def\<close>)
  then show ?thesis using False by (cases out) auto
qed

interpretation refresh: renewing
  "\<lambda>(headers, body). refresh_handler L S headers body"
  "\<lambda>(headers, body). resolve_refresh_token L (request_of body) headers (as_cookie_config S)"
  "renewal L S"
  "\<lambda>(headers, body). refresh_finish L S headers (Inr (json_response 200 (JObj [(''status'', JStr ''no_session'')])))"
  "\<lambda>(headers, body) out. bind (refresh_answer L S out) (refresh_finish L S headers)"
  "issued (refresh_cookie_name (as_cookie_config S))"
  "answer_laws L"
  for L S
proof (unfold_locales; clarify?)
  fix headers body
  show "refresh_handler L S headers body =
      (case resolve_refresh_token L (request_of body) headers (as_cookie_config S) of
         None \<Rightarrow> refresh_finish L S headers (Inr (json_response 200 (JObj [(''status'', JStr ''no_session'')])))
       | Some jwt \<Rightarrow> bind (renewal L S jwt) (\<lambda>out. bind (refresh_answer L S out) (refresh_finish L S headers)))"
    unfolding refresh_handler_finish handle_refresh_renewal by (simp add: bind_assoc split: option.split)
next
  fix headers body tr y
  assume "answer_laws L" "runs (refresh_finish L S headers
      (Inr (json_response 200 (JObj [(''status'', JStr ''no_session'')])))) tr y"
  from refresh_finish_issued[OF this] show "issued (refresh_cookie_name (as_cookie_config S)) y = None"
    by simp
next
  fix jwt tr1 out headers body tr2 y
  assume a: "answer_laws L" "runs (renewal L S jwt) tr1 out"
    "runs (bind (refresh_answer L S out) (refresh_finish L S headers)) tr2 y"
  from a(3) obtain t1 t2 res where r: "runs (refresh_answer L S out) t1 res" "runs (refresh_finish L S headers res) t2 y"
    unfolding runs_bind by (elim exE conjE)
  show "issued (refresh_cookie_name (as_cookie_config S)) y = (case out of Renewed a r \<Rightarrow> Some r | _ \<Rightarrow> None)"
    using refresh_finish_issued[OF a(1) r(2)] refresh_answer_issued[OF a(1,2) r(1)] by simp
qed

interpretation silent: renewing
  "silent_refresh L S" "\<lambda>headers. extract_refresh_cookie L headers (as_cookie_config S)"
  "renewal L S" "\<lambda>headers. clear_access_cookie_response L S" "\<lambda>headers. check_answer L S"
  "issued (refresh_cookie_name (as_cookie_config S))" "answer_laws L"
  for L S
proof
  fix headers
  show "silent_refresh L S headers = (case extract_refresh_cookie L headers (as_cookie_config S) of
      None \<Rightarrow> clear_access_cookie_response L S | Some jwt \<Rightarrow> bind (renewal L S jwt) (check_answer L S))"
    by (rule silent_refresh_renewal)
next
  fix tr y assume "answer_laws L" "runs (clear_access_cookie_response L S) tr y"
  then show "issued (refresh_cookie_name (as_cookie_config S)) y = None"
    by (auto simp: clear_access_cookie_response_def runs_parse_header answer_laws_def
        header_value_parse_visible built_cookies_visible issued_def cookie_token_cleared)
qed (rule check_answer_issued)

end
