(* ===== verification/Service.thy ===== *)
theory Service
  imports Families Answers
begin

text \<open>
  The service as a whole: the routes of \<open>src/main.rs\<close>, any number of requests in flight at once
  on one world, and what such a pool of requests can and cannot do.
\<close>

section \<open>Routes\<close>

datatype call =
    CheckCall headers
  | TokenCall headers "token_request option"
  | RefreshCall headers "refresh_request option"
  | LogoutCall headers

fun serve :: "lib \<Rightarrow> app_state \<Rightarrow> call \<Rightarrow> http_response prog" where
  "serve L S (CheckCall h) = auth_check_handler L S h"
| "serve L S (TokenCall h b) = token_handler L S h b"
| "serve L S (RefreshCall h b) = refresh_handler L S h b"
| "serve L S (LogoutCall h) = logout_handler L S h"

text \<open>The requests being served, as a pool of tasks: one task per request.\<close>

definition service_pool :: "lib \<Rightarrow> app_state \<Rightarrow> call list \<Rightarrow> http_response pool" where
  "service_pool L S calls i = (if i < length calls then serve L S (calls ! i) else Panic)"

section \<open>The handler contract\<close>

text \<open>
  Whoever serves requests on the token bucket promises the discipline of \<open>token_guard\<close>; a client
  of the contract gets a guarded trace at every point where the handler can stop.
\<close>

locale handler_contract =
  fixes handler :: "'q \<Rightarrow> 'a prog" and guard :: "event list \<Rightarrow> request \<Rightarrow> bool"
  assumes disciplined: "obeys guard [] (handler q)"
begin

lemma steps_guarded: "steps (handler q) tr p \<Longrightarrow> guarded guard tr"
  using disciplined by (rule obeys_guarded[rotated])

lemma pool_guarded:
  assumes "pool_exec W sched P w = (P', w', log)" "P i = handler q"
  shows "guarded guard (by_task i log)"
  using pool_exec_steps[OF assms(1), of i] steps_guarded assms(2) by metis

end

interpretation service: handler_contract "serve L S" "token_guard L" for L S
proof
  fix q show "obeys (token_guard L) [] (serve L S q)"
    by (cases q) (simp_all add: obeys_auth_check obeys_token_handler obeys_refresh_handler obeys_logout)
qed

lemma service_pool_valid:
  assumes "pool_exec W sched (service_pool L S calls) w = (P', w', log)"
  shows "valid_log L W w log w'"
  unfolding valid_log_def
proof (intro conjI allI)
  show "follows W w (map snd log) w'" by (rule pool_exec_follows[OF assms])
  fix i
  show "guarded (token_guard L) (by_task i log)"
  proof (cases "i < length calls")
    case True
    then show ?thesis by (intro service.pool_guarded[OF assms]) (simp add: service_pool_def)
  next
    case False
    have "steps Panic (by_task i log) (P' i)"
      using pool_exec_steps[OF assms, of i] False by (simp add: service_pool_def)
    then show ?thesis by (auto simp: steps_Panic_iff)
  qed
qed

section \<open>A refresh token that is granted\<close>

text \<open>The refresh token that a request presents to one of the two renewing endpoints.\<close>

fun presented :: "lib \<Rightarrow> app_state \<Rightarrow> call \<Rightarrow> string option" where
  "presented L S (RefreshCall h b) = resolve_refresh_token L (request_of b) h (as_cookie_config S)"
| "presented L S (CheckCall h) = extract_refresh_cookie L h (as_cookie_config S)"
| "presented L S _ = None"

abbreviation granted :: "app_state \<Rightarrow> http_response \<Rightarrow> string option" where
  "granted S \<equiv> issued (refresh_cookie_name (as_cookie_config S))"

lemma handle_bearer_issued:
  "runs (handle_bearer L S v) tr y \<Longrightarrow> issued name y = None"
  by (auto simp: handle_bearer_def resolved_bearer_response_def runs_simps Let_def issued_def
      split: if_splits option.splits)

lemma handle_jwt_cookie_granted:
  assumes "answer_laws L" "runs (handle_jwt_cookie L S t h) tr y" "granted S y = Some r"
  shows "\<exists>jwt a t1 t2 t3. extract_refresh_cookie L h (as_cookie_config S) = Some jwt \<and>
    tr = t1 @ t2 @ t3 \<and> runs (renewal L S jwt) t2 (Renewed a r)"
proof -
  have cleared: "issued (refresh_cookie_name (as_cookie_config S)) y' = None"
    if "runs (clear_cookies_response L S) tr' y'" for tr' y'
    using that unfolding clear_cookies_response_def
    by (rule issued_cleared[rotated 2]) (use assms(1) in \<open>auto simp: answer_laws_def\<close>)
  from assms(2) obtain t1 t2 and v :: "jwt_error + access_claims" where v: "tr = t1 @ t2" "runs (case v of
        Inr _ \<Rightarrow> Ret (status_response 200)
      | Inl Expired \<Rightarrow>
          if as_auth_check_silent_refresh S then silent_refresh L S h else Ret (status_response 401)
      | Inl (Invalid _) \<Rightarrow>
          if as_auth_check_silent_refresh S then clear_cookies_response L S
          else Ret (status_response 401)) t2 y"
    unfolding handle_jwt_cookie_def runs_bind by (elim exE conjE) (rule that; assumption)
  then have "runs (silent_refresh L S h) t2 y"
    using assms(3) by (auto split: sum.splits jwt_error.splits if_splits dest: cleared)
  from silent.granted[OF assms(1) this assms(3)] v(1) show ?thesis by auto blast
qed

lemma serve_granted:
  assumes "answer_laws L" "runs (serve L S c) tr y" "presented L S c = Some jwt" "granted S y = Some r"
  shows "\<exists>a t1 t2 t3. tr = t1 @ t2 @ t3 \<and> runs (renewal L S jwt) t2 (Renewed a r)"
proof (cases c)
  case (RefreshCall h b)
  then show ?thesis using refresh.granted[where q = "(h, b)" and L = L and S = S and tr = tr and y = y and t = r] assms by fastforce
next
  case (CheckCall h)
  note laws = assms(1)[unfolded answer_laws_def]
  have session: "granted S y' = Some r" if "runs (append_session_cookie_if_needed L S ex y') t y" for ex y' t
    using issued_append_session[OF _ _ _ that] laws assms(4) by simp
  show ?thesis
  proof (cases "extract_access_cookie L h (as_cookie_config S)")
    case None
    have "\<not> runs (append_session_cookie_if_needed L S ex (status_response n)) t y" for ex n t
      using session[of ex "status_response n" t] by auto
    with None show ?thesis
      using assms(2,4) CheckCall
      by (auto simp: auth_check_handler_def Let_def handle_bearer_issued split: option.splits)
  next
    case (Some acc)
    then obtain t1 t2 y' where t: "tr = t1 @ t2" "runs (handle_jwt_cookie L S acc h) t1 y'"
        "runs (append_session_cookie_if_needed L S (extract_session_cookie L h (as_cookie_config S)) y') t2 y"
      using assms(2) CheckCall by (auto simp: auth_check_handler_def Let_def runs_bind)
    from handle_jwt_cookie_granted[OF assms(1) t(2) session[OF t(3)]] t(1) assms(3) CheckCall
    show ?thesis by auto blast
  qed
qed (use assms(3) in auto)

lemma verified_stable:
  assumes "jwt_ok L" "runs (verify_refresh_token L svc t) tr (Inr c)" "runs (verify_refresh_token L svc t) tr' (Inr c')"
  shows "c = c'"
proof -
  from assms(2) obtain n j where "jwt_decode L (js_decoding_key svc) (refresh_validation L svc)
      (\<lambda>j. refresh_claims_of_json j \<noteq> None) n t = Inr j" "c = the (refresh_claims_of_json j)"
    unfolding verify_refresh_token_def by (auto simp: runs_calls result_iff)
  moreover from assms(3) obtain n' j' where "jwt_decode L (js_decoding_key svc) (refresh_validation L svc)
      (\<lambda>j. refresh_claims_of_json j \<noteq> None) n' t = Inr j'" "c' = the (refresh_claims_of_json j')"
    unfolding verify_refresh_token_def by (auto simp: runs_calls result_iff)
  ultimately show ?thesis using jwt_decode_stable[OF assms(1)] by metis
qed

text \<open>A granted token was redeemed, by the task that was granted, under the key of its \<open>jti\<close>.\<close>

lemma renewed_redeems:
  assumes "renewed_by L S jwt tr claims row n a r"
  obtains jti k k2 row' trv where "uuid_parse_str L (rc_jti claims) = Some jti" "refresh_key L jti = Inr k"
    "refresh_key L (rt_id row) = Inr k2" "(TokGet k, RTok (Inr (Some (row, n)))) \<in> set tr"
    "(TokUpdateIf k2 row' n, RDone (Inr ())) \<in> set tr"
    "runs (verify_refresh_token L (as_jwt S) jwt) trv (Inr claims)"
  using assms unfolding renewed_by_def by (elim exE conjE) (rule that, auto)

lemma granted_redeemed:
  assumes libs: "answer_laws L" "kv_key_ok L" and inv: "bucket_inv L V w0 log w"
    and run: "runs (serve L S c) (by_task i log) y" and pres: "presented L S c = Some jwt"
    and gr: "granted S y \<noteq> None"
  obtains claims trv jti k e where "runs (verify_refresh_token L (as_jwt S) jwt) trv (Inr claims)"
    "uuid_parse_str L (rc_jti claims) = Some jti" "refresh_key L jti = Inr k"
    "(i, e) \<in> set (redemptions k log)"
proof -
  obtain r where "granted S y = Some r" using gr by blast
  from serve_granted[OF libs(1) run pres this] obtain a t1 t2 t3 where
    t: "by_task i log = t1 @ t2 @ t3" "runs (renewal L S jwt) t2 (Renewed a r)" by (elim exE conjE)
  from t(2) obtain claims row n where "renewed_by L S jwt t2 claims row n a r"
    unfolding renewal_renewed by (elim exE)
  then obtain jti k k2 row' trv where f: "uuid_parse_str L (rc_jti claims) = Some jti" "refresh_key L jti = Inr k"
    "refresh_key L (rt_id row) = Inr k2" "(TokGet k, RTok (Inr (Some (row, n)))) \<in> set t2"
    "(TokUpdateIf k2 row' n, RDone (Inr ())) \<in> set t2"
    "runs (verify_refresh_token L (as_jwt S) jwt) trv (Inr claims)"
    by (rule renewed_redeems)
  then have in_log: "(i, TokGet k, RTok (Inr (Some (row, n)))) \<in> set log"
    "(i, TokUpdateIf k2 row' n, RDone (Inr ())) \<in> set log"
    using t(1) in_by_task[of _ i log] by auto
  then have "row_seen log k row n" by (auto simp: row_seen_def)
  then have "refresh_key L (rt_id row) = Inr k" using inv by (auto simp: bucket_inv_defs)
  then have "k2 = k" using f(3) by simp
  then have "(i, TokUpdateIf k row' n, RDone (Inr ())) \<in> set (redemptions k log)"
    using in_log(2) by (simp add: redemptions_def)
  with f show thesis using that by blast
qed

lemma two_redemptions:
  assumes "(i, e) \<in> set l" "(j, f) \<in> set l" "i \<noteq> j" shows "1 < length l"
  using assms by (cases l rule: remdups_adj.cases) auto

lemma pool_run:
  assumes "pool_exec W sched (service_pool L S calls) w = (P', w', log)" "P' i = Ret y"
  shows "i < length calls" "runs (serve L S (calls ! i)) (by_task i log) y"
proof -
  have s: "steps (service_pool L S calls i) (by_task i log) (Ret y)"
    using pool_exec_steps[OF assms(1), of i] assms(2) by simp
  show i: "i < length calls"
    using s by (cases "i < length calls") (auto simp: service_pool_def steps_Panic_iff)
  show "runs (serve L S (calls ! i)) (by_task i log) y"
    using s i by (simp add: service_pool_def runs_def)
qed

lemma pool_single_grant:
  assumes libs: "answer_laws L" "kv_key_ok L" and world: "fabric_ok V W" "store_inv L V w"
    and pool: "pool_exec W sched (service_pool L S calls) w = (P', w', log)" "vw_uuids V w' \<noteq> UNIV"
    and tasks: "i \<noteq> j" "P' i = Ret yi" "P' j = Ret yj"
    and same: "presented L S (calls ! i) = Some jwt" "presented L S (calls ! j) = Some jwt"
    and gr: "granted S yi \<noteq> None"
  shows "granted S yj = None"
proof (rule ccontr)
  assume gj: "granted S yj \<noteq> None"
  have uuid: "uuid_ok L" and jwt: "jwt_ok L" using libs(1) by (auto simp: answer_laws_def)
  have inv: "bucket_inv L V w log w'"
    by (rule valid_log_bucket_inv[OF uuid libs(2) world service_pool_valid[OF pool(1)] pool(2)])
  obtain c v u k e where i: "runs (verify_refresh_token L (as_jwt S) jwt) v (Inr c)"
    "uuid_parse_str L (rc_jti c) = Some u" "refresh_key L u = Inr k" "(i, e) \<in> set (redemptions k log)"
    by (rule granted_redeemed[OF libs inv pool_run(2)[OF pool(1) tasks(2)] same(1) gr])
  obtain c' v' u' k' e' where j: "runs (verify_refresh_token L (as_jwt S) jwt) v' (Inr c')"
    "uuid_parse_str L (rc_jti c') = Some u'" "refresh_key L u' = Inr k'" "(j, e') \<in> set (redemptions k' log)"
    by (rule granted_redeemed[OF libs inv pool_run(2)[OF pool(1) tasks(3)] same(2) gj])
  have "c' = c" by (rule verified_stable[OF jwt j(1) i(1)])
  then have "k' = k" using i j by auto
  then have "1 < length (redemptions k log)" using two_redemptions[OF i(4) _ tasks(1)] j(4) by simp
  moreover have "length (redemptions k log) \<le> 1" using inv unfolding bucket_inv_def inv_redeemed_def by blast
  ultimately show False by simp
qed

end
