(* ===== verification/Revocation.thy ===== *)
theory Revocation
  imports Service
begin

text \<open>
  What a revoked family means to the requests that follow, what a replayed token brings about,
  and the order in which a rotation writes.
\<close>

section \<open>Revocation across requests\<close>

lemma pool_exec_append:
  "pool_exec W s1 P w = (P1, w1, l1) \<Longrightarrow> pool_exec W s2 P1 w1 = (P2, w2, l2) \<Longrightarrow>
     pool_exec W (s1 @ s2) P w = (P2, w2, l1 @ l2)"
proof (induction W s1 P w arbitrary: P1 w1 l1 rule: pool_exec.induct)
  case (2 W i "is" P w)
  show ?case
  proof (cases "P i")
    case (Call q k)
    obtain r v where r: "W q w = (r, v)" by (cases "W q w") auto
    obtain Q v' l where Q: "pool_exec W is (P(i := k r)) v = (Q, v', l)" by (metis prod_cases3)
    with "2.prems"(1) Call r have eq: "P1 = Q" "w1 = v'" "l1 = (i, q, r) # l" by auto
    with "2.IH"(3)[OF Call r[symmetric] Q _] Call r eq "2.prems"(2) show ?thesis by (simp add: fun_upd_def)
  qed (use 2 in auto)
qed auto

lemma runs_no_fam_put:
  "runs (verify_refresh_token L svc t) tr x \<Longrightarrow> (FamPut fk v, r) \<notin> set tr"
  by (auto simp: verify_refresh_token_def runs_calls)

lemma logout_revokes:
  assumes "runs (logout_handler L S h) tr y" "(FamPut fk v, r) \<in> set tr"
    "extract_refresh_cookie L h (as_cookie_config S) = Some jwt"
  shows "\<exists>trv claims jti k row n. runs (verify_refresh_token L (as_jwt S) jwt) trv (Inr claims) \<and>
    uuid_parse_str L (rc_jti claims) = Some jti \<and> refresh_key L jti = Inr k \<and>
    (\<exists>a b c. tr = a @ (TokGet k, RTok (Inr (Some (row, n)))) # b @ (FamPut fk v, r) # c) \<and>
    revoked_key L (rt_family_id row) = Inr fk"
proof -
  from assms(1) obtain t1 where t1: "runs (logout_revocation L S h) t1 ()" "tr = t1"
    by (auto simp: logout_handler_def runs_bind runs_set_two_cookies)
  then have "runs (bind (verify_refresh_token L (as_jwt S) jwt) (\<lambda>verified. case verified of
             Inl _ \<Rightarrow> Ret ()
           | Inr claims \<Rightarrow>
               (case uuid_parse_str L (rc_jti claims) of
                  None \<Rightarrow> Ret ()
                | Some jti \<Rightarrow>
                    bind (find_by_id L jti) (\<lambda>found. case found of
                       Inr (Some (row, revision)) \<Rightarrow>
                         bind (revoke_family L (rt_family_id row)) (\<lambda>_. Ret ())
                     | Inr None \<Rightarrow> Ret ()
                     | Inl _ \<Rightarrow> Ret ())))) t1 ()"
    using assms(3) by (simp add: logout_revocation_def)
  then obtain tv t2 ver where v: "t1 = tv @ t2" "runs (verify_refresh_token L (as_jwt S) jwt) tv ver"
    "runs (case ver of
             Inl _ \<Rightarrow> Ret ()
           | Inr claims \<Rightarrow>
               (case uuid_parse_str L (rc_jti claims) of
                  None \<Rightarrow> Ret ()
                | Some jti \<Rightarrow>
                    bind (find_by_id L jti) (\<lambda>found. case found of
                       Inr (Some (row, revision)) \<Rightarrow>
                         bind (revoke_family L (rt_family_id row)) (\<lambda>_. Ret ())
                     | Inr None \<Rightarrow> Ret ()
                     | Inl _ \<Rightarrow> Ret ()))) t2 ()"
    unfolding runs_bind[of "verify_refresh_token L (as_jwt S) jwt"] by (elim exE conjE) (rule that; assumption)
  have "(FamPut fk v, r) \<in> set t2"
    using assms(2) t1(2) v(1) runs_no_fam_put[OF v(2)] by auto
  with v(3) obtain claims where c: "ver = Inr claims" by (cases ver) auto
  with v(3) \<open>(FamPut fk v, r) \<in> set t2\<close> obtain jti k row n now where f: "uuid_parse_str L (rc_jti claims) = Some jti"
    "refresh_key L jti = Inr k" "t2 = (TokGet k, RTok (Inr (Some (row, n)))) # [(UtcNow, RUtc now)] @ (FamPut fk v, r) # []"
    "revoked_key L (rt_family_id row) = Inr fk"
    by (auto simp: runs_simps runs_find_by_id runs_revoke_family)
  moreover have "tr = tv @ (TokGet k, RTok (Inr (Some (row, n)))) # [(UtcNow, RUtc now)] @ (FamPut fk v, r) # []"
    unfolding t1(2) v(1) f(3) by simp
  ultimately show ?thesis using v(2) c by blast
qed

text \<open>A renewal that is granted has read its family, and the reading did not report it as revoked.\<close>

lemma jwt_traces:
  "runs (verify_refresh_token L svc t) tr x1 \<Longrightarrow> \<exists>n. tr = [(UtcNow, RUtc n)]"
  "runs (sign_access_token L svc e) tr x2 \<Longrightarrow> \<exists>n. tr = [(UtcNow, RUtc n)]"
  "runs (sign_refresh_token L svc e) tr x3 \<Longrightarrow> \<exists>u n. tr = [(NowV7, RUuid u), (UtcNow, RUtc n)]"
  by (auto simp: verify_refresh_token_def sign_access_token_def sign_refresh_token_def runs_calls Let_def)

lemma not_revoked_trace:
  "runs (is_family_revoked L f) tr False \<Longrightarrow>
     (tr = [] \<and> (\<exists>e. revoked_key L f = Inl e)) \<or>
     (\<exists>k x. revoked_key L f = Inr k \<and> tr = [(FamGet k, RFam x)] \<and> (\<forall>y. x \<noteq> Inr (Some y)))"
  unfolding runs_is_family_revoked by (elim disjE exE conjE) (auto split: sum.splits option.splits)

text \<open>A granted renewal: it has read the row unused, then the family, and last it has updated the row at that revision.\<close>

lemma renewed_order:
  assumes "renewed_by L S jwt tr claims row n a r" "revoked_key L (rt_family_id row) = Inr fk"
  shows "\<exists>x h1 h2 k2 v. tr = h1 @ (FamGet fk, RFam x) # h2 @ [(TokUpdateIf k2 v n, RDone (Inr ()))] \<and> (\<forall>y. x \<noteq> Inr (Some y))"
proof -
  from assms(1) obtain trv k trf tra trs u now k1 k2 now' where t: "runs (is_family_revoked L (rt_family_id row)) trf False"
    "tr = trv @ [(TokGet k, RTok (Inr (Some (row, n))))] @ trf @ tra @ trs @
          [(UtcNow, RUtc now),
           (TokPut k1 \<lparr>rt_id = u, rt_email = rc_sub claims, rt_family_id = rt_family_id row,
              rt_used_at = None, rt_replaced_by = None, rt_created_at = now\<rparr>, RDone (Inr ())),
           (UtcNow, RUtc now'),
           (TokUpdateIf k2 (row\<lparr>rt_used_at := Some now', rt_replaced_by := Some u\<rparr>) n, RDone (Inr ()))]"
    unfolding renewed_by_def by (elim exE conjE) (rule that; assumption)
  then obtain h1 h2 v where t2: "tr = h1 @ trf @ h2 @ [(TokUpdateIf k2 v n, RDone (Inr ()))]"
    by (metis append_assoc append_Cons append_Nil)
  from not_revoked_trace[OF t(1)] assms(2) obtain x where
    "trf = [(FamGet fk, RFam x)]" "\<forall>y. x \<noteq> Inr (Some y)" by auto
  with t2 show ?thesis by auto
qed

lemma renewed_unused:
  assumes "renewed_by L S jwt tr claims row n a r"
  shows "rt_used_at row = None"
  using assms by (auto simp: renewed_by_def)

text \<open>The order of a task's own requests is their order in the log.\<close>

lemma by_task_split:
  "by_task i log = a @ e # b \<Longrightarrow> \<exists>l1 l2. log = l1 @ (i, e) # l2 \<and> by_task i l1 = a \<and> by_task i l2 = b"
proof (induction log arbitrary: a)
  case (Cons x log)
  obtain j f where x: "x = (j, f)" by (cases x)
  show ?case
  proof (cases "j = i \<and> a = []")
    case True
    with Cons.prems x show ?thesis by (intro exI[of _ "[]"] exI[of _ log]) auto
  next
    case False
    then obtain a' where "by_task i log = a' @ e # b" "a = (if j = i then f # a' else a')"
      using Cons.prems x by (cases a) (auto split: if_splits)
    with Cons.IH obtain l1 l2 where "log = l1 @ (i, e) # l2" "by_task i l1 = a'" "by_task i l2 = b" by blast
    with x \<open>a = (if j = i then f # a' else a')\<close> show ?thesis
      by (intro exI[of _ "x # l1"] exI[of _ l2]) auto
  qed
qed simp

section \<open>Revoked families\<close>

text \<open>
  A request that starts after the family of its row was revoked, and whose row is older than the mark,
  is refused, unless the reading of the family fails: it finds the mark, or the mark has been dropped
  and the row with it.
\<close>

lemma pool_revoked_refused:
  assumes laws: "answer_laws L" and world: "fabric_ok V W"
    and pool: "pool_exec W s1 (service_pool L S calls) w = (P1, w1, l1)" "pool_exec W s2 P1 w1 = (P2, w2, l2)"
    and late: "by_task j l1 = []" "P2 j = Ret y" and pres: "presented L S (calls ! j) = Some jwt"
    and revoked: "outlives V fk s w1"
    and reads: "\<forall>e. (j, FamGet fk, RFam (Inl e)) \<notin> set l2"
    and row: "\<And>t claims row n a r. set t \<subseteq> set (by_task j l2) \<Longrightarrow> renewed_by L S jwt t claims row n a r \<Longrightarrow>
      revoked_key L (rt_family_id row) = Inr fk \<and> n \<le> s"
  shows "granted S y = None"
proof (rule ccontr)
  assume "granted S y \<noteq> None"
  then obtain r where gr: "granted S y = Some r" by blast
  have both: "pool_exec W (s1 @ s2) (service_pool L S calls) w = (P2, w2, l1 @ l2)"
    by (rule pool_exec_append[OF pool])
  have run: "runs (serve L S (calls ! j)) (by_task j l2) y"
    using pool_run(2)[OF both late(2)] late(1) by simp
  from serve_granted[OF laws run pres gr] obtain a t1 t2 t3 where
    t: "by_task j l2 = t1 @ t2 @ t3" "runs (renewal L S jwt) t2 (Renewed a r)" by (elim exE conjE)
  from t(2) obtain claims row n where rb: "renewed_by L S jwt t2 claims row n a r"
    unfolding renewal_renewed by (elim exE)
  have "set t2 \<subseteq> set (by_task j l2)" using t(1) by auto
  note old = row[OF this rb]
  from renewed_order[OF rb conjunct1[OF old] ] obtain x h1 h2 k v where
    x: "t2 = h1 @ (FamGet fk, RFam x) # h2 @ [(TokUpdateIf k v n, RDone (Inr ()))]" "\<forall>y. x \<noteq> Inr (Some y)" by blast
  then have "by_task j l2 = (t1 @ h1) @ (FamGet fk, RFam x) # (h2 @ (TokUpdateIf k v n, RDone (Inr ())) # t3)"
    using t(1) by simp
  from by_task_split[OF this] obtain g1 g2 where
    g: "l2 = g1 @ (j, FamGet fk, RFam x) # g2" "by_task j g2 = h2 @ (TokUpdateIf k v n, RDone (Inr ())) # t3" by blast
  from by_task_split[OF g(2)] obtain g3 g4 where g3: "g2 = g3 @ (j, TokUpdateIf k v n, RDone (Inr ())) # g4" by blast
  have "x = Inr None"
  proof (cases x)
    case (Inr o1)
    then show ?thesis using x(2) by (cases o1) auto
  qed (use reads g(1) in auto)
  with pool_exec_follows[OF pool(2)] g(1) g3 have
    "follows W w1 (map snd g1 @ (FamGet fk, RFam (Inr None)) # map snd g3 @ (TokUpdateIf k v n, RDone (Inr ())) # map snd g4) w2"
    by simp
  from missed_mark[OF world revoked this] old show False by simp
qed

lemma pool_logout_refused:
  assumes laws: "answer_laws L" "kv_key_ok L" and world: "fabric_ok V W" "store_inv L V w"
    and pool: "pool_exec W s1 (service_pool L S calls) w = (P1, w1, l1)" "pool_exec W s2 P1 w1 = (P2, w2, l2)"
      "vw_uuids V w2 \<noteq> UNIV"
    and logout: "calls ! i = LogoutCall h" "extract_refresh_cookie L h (as_cookie_config S) = Some jwt"
      "P1 i = Ret yi" "(i, FamPut fk v, RDone (Inr u)) \<in> set l1"
    and late: "by_task j l1 = []" "P2 j = Ret y" and pres: "presented L S (calls ! j) = Some jwt"
    and reads: "\<forall>fk e. (j, FamGet fk, RFam (Inl e)) \<notin> set l2"
  shows "granted S y = None"
proof -
  have uuid: "uuid_ok L" and jwt: "jwt_ok L" using laws(1) by (auto simp: answer_laws_def)
  have both: "pool_exec W (s1 @ s2) (service_pool L S calls) w = (P2, w2, l1 @ l2)"
    by (rule pool_exec_append[OF pool(1,2)])
  note valid = service_pool_valid[OF both]
  have fam: "inv_family V w (l1 @ l2) w2" by (rule valid_log_family[OF uuid laws(2) world valid pool(3)])
  have put: "(FamPut fk v, RDone (Inr u)) \<in> set (by_task i l1)" using logout(4) by (simp add: in_by_task)
  have "runs (logout_handler L S h) (by_task i l1) yi"
    using pool_run(2)[OF pool(1) logout(3)] logout(1) by simp
  from logout_revokes[OF this put logout(2)] obtain trv cl jti k row n a b c where
    lo: "runs (verify_refresh_token L (as_jwt S) jwt) trv (Inr cl)" "uuid_parse_str L (rc_jti cl) = Some jti"
    "refresh_key L jti = Inr k" "revoked_key L (rt_family_id row) = Inr fk"
    "by_task i l1 = a @ (TokGet k, RTok (Inr (Some (row, n)))) # b @ (FamPut fk v, RDone (Inr u)) # c" by (elim exE conjE)
  from by_task_split[OF lo(5)] obtain g1 g2 where
    g: "l1 = g1 @ (i, TokGet k, RTok (Inr (Some (row, n)))) # g2" "by_task i g2 = b @ (FamPut fk v, RDone (Inr u)) # c" by blast
  from by_task_split[OF g(2)] obtain g3 g4 where g3: "g2 = g3 @ (i, FamPut fk v, RDone (Inr u)) # g4" by blast
  let ?h = "g1 @ [(i, TokGet k, RTok (Inr (Some (row, n))))]"
  have "valid_log L W w (?h @ g3 @ (i, FamPut fk v, RDone (Inr u)) # g4 @ l2) w2" using valid g(1) g3 by simp
  from valid_log_prefix[OF this] obtain wr where
    wr: "valid_log L W w ?h wr" "follows W wr (map snd (g3 @ (i, FamPut fk v, RDone (Inr u)) # g4 @ l2)) w2" by blast
  then obtain wp wq where wp: "follows W wr (map snd g3) wp" "W (FamPut fk v) wp = (RDone (Inr u), wq)"
    "follows W wq (map snd g4 @ map snd l2) w2"
    by (auto simp: follows_append_iff follows_Cons_iff)
  from put_outlives[OF world(1) wp(2)] obtain s where s: "vw_last V wp < s" "outlives V fk s wq" by blast
  have "follows W w (map snd ?h) wr" using wr(1) by (simp add: valid_log_def)
  with wp(1,2) have "follows W w (map snd (?h @ g3 @ [(i, FamPut fk v, RDone (Inr u))])) wq"
    by (auto simp: follows_append_iff follows_Cons_iff)
  moreover have "map snd l1 = map snd (?h @ g3 @ [(i, FamPut fk v, RDone (Inr u))]) @ map snd g4"
    using g(1) g3 by simp
  note follows_append_iff[THEN iffD1, OF pool_exec_follows[OF pool(1), unfolded this] ]
  ultimately have "follows W wq (map snd g4) w1" by (metis follows_det)
  from outlives_follows[OF this world(1) s(2)] have mark: "outlives V fk s w1" .
  have free: "vw_uuids V wr \<noteq> UNIV" using follows_uuids_mono[OF wr(2) world(1)] pool(3) by auto
  have "row_seen ?h k row n" by (auto simp: row_seen_def)
  then have known: "known V w ?h (rt_id row)" "refresh_key L (rt_id row) = Inr k"
    using valid_log_bucket_inv[OF uuid laws(2) world wr(1) free] unfolding bucket_inv_def inv_seen_def by blast+
  have last: "vw_last V wr < s" using follows_last_mono[OF wp(1) world(1)] s(1) by simp
  show ?thesis
  proof (rule pool_revoked_refused[OF laws(1) world(1) pool(1,2) late pres mark])
    show "\<forall>e. (j, FamGet fk, RFam (Inl e)) \<notin> set l2" using reads by blast
    show "revoked_key L (rt_family_id row') = Inr fk \<and> m \<le> s"
      if sub: "set t \<subseteq> set (by_task j l2)" and rb: "renewed_by L S jwt t claims row' m a' r" for t claims row' m a' r
    proof
      from rb obtain jti' k' k2 row'' trv' where f: "uuid_parse_str L (rc_jti claims) = Some jti'"
        "refresh_key L jti' = Inr k'" "(TokGet k', RTok (Inr (Some (row', m)))) \<in> set t"
        "runs (verify_refresh_token L (as_jwt S) jwt) trv' (Inr claims)" by (rule renewed_redeems)
      have "claims = cl" by (rule verified_stable[OF jwt f(4) lo(1)])
      then have "k' = k" using f(1,2) lo(2,3) by simp
      then have read: "(j, TokGet k, RTok (Inr (Some (row', m)))) \<in> set l2" using f(3) sub by (auto simp: in_by_task)
      then have "row_seen (l1 @ l2) k row' m" "row_seen (l1 @ l2) k row n"
        using g(1) by (auto simp: row_seen_def)
      then have "same_owner row' row" using fam unfolding inv_family_def observed_def by blast
      then show "revoked_key L (rt_family_id row') = Inr fk" using lo(4) by (simp add: same_owner_def)
      from split_list[OF read] obtain x1 x2 where x: "l2 = x1 @ (j, TokGet k, RTok (Inr (Some (row', m)))) # x2" by blast
      have "valid_log L W w ((?h @ g3 @ (i, FamPut fk v, RDone (Inr u)) # g4 @ x1) @ (j, TokGet k, RTok (Inr (Some (row', m)))) # x2) w2"
        using valid g(1) g3 x by simp
      from valid_log_prefix[OF this] obtain wx where
        wx: "valid_log L W w (?h @ g3 @ (i, FamPut fk v, RDone (Inr u)) # g4 @ x1) wx"
          "follows W wx (map snd ((j, TokGet k, RTok (Inr (Some (row', m)))) # x2)) w2" by auto
      then have "vw_tokens V wx k = Some (row', m)"
        using get_ok_step[OF fabric_okD(3)[OF world(1)] ] by (auto simp: follows_Cons_iff)
      moreover have "vw_uuids V wx \<noteq> UNIV" using follows_uuids_mono[OF wx(2) world(1)] pool(3) by auto
      ultimately have "m \<le> vw_last V wr"
        using unused_is_old[OF uuid laws(2) world known wr(1) wx(1)] renewed_unused[OF rb] by blast
      with last show "m \<le> s" by simp
    qed
  qed
qed

section \<open>Replays\<close>

lemma renewal_row_cases:
  assumes "runs (renewal L S jwt) tr out"
  shows "(\<forall>k row n. (TokGet k, RTok (Inr (Some (row, n)))) \<notin> set tr) \<or>
    (\<exists>claims k row n t0 tf t1. tr = t0 @ [(TokGet k, RTok (Inr (Some (row, n))))] @ tf @ t1 \<and>
       runs (verify_refresh_token L (as_jwt S) jwt) t0 (Inr claims) \<and>
       ((runs (is_family_revoked L (rt_family_id row)) tf True \<and> t1 = [] \<and>
           out = FamilyRevoked (rt_family_id row)) \<or>
        (runs (is_family_revoked L (rt_family_id row)) tf False \<and>
           runs (renewal_rotate L S claims row n) t1 out)))"
  using assms unfolding renewal_def
proof (rule runs_bindE)
  fix t0 t ver
  assume tr: "tr = t0 @ t" and ver: "runs (verify_refresh_token L (as_jwt S) jwt) t0 ver"
    and rest: "runs (case ver of
        Inl Expired \<Rightarrow> Ret TokenExpired
      | Inl (Invalid _) \<Rightarrow> Ret TokenInvalid
      | Inr claims \<Rightarrow>
     (case uuid_parse_str L (rc_jti claims) of
        None \<Rightarrow> Ret JtiInvalid
      | Some jti \<Rightarrow>
     bind (find_by_id L jti) (\<lambda>found. case found of
        Inl e \<Rightarrow> Ret (LookupFailed e)
      | Inr None \<Rightarrow> Ret RowMissing
      | Inr (Some (token_row, revision)) \<Rightarrow>
     bind (is_family_revoked L (rt_family_id token_row)) (\<lambda>revoked.
     if revoked then Ret (FamilyRevoked (rt_family_id token_row))
     else renewal_rotate L S claims token_row revision)))) t out"
  from jwt_traces(1)[OF ver] obtain now where t0: "t0 = [(UtcNow, RUtc now)]" by blast
  show ?thesis
  proof (cases "\<exists>claims jti. ver = Inr claims \<and> uuid_parse_str L (rc_jti claims) = Some jti")
    case False
    then have "t = []" using rest by (cases ver) (auto split: jwt_error.splits option.splits)
    then show ?thesis using tr t0 by simp
  next
    case True
    then obtain claims jti where c: "ver = Inr claims" "uuid_parse_str L (rc_jti claims) = Some jti" by blast
    from rest[unfolded c(1)] c(2) obtain tg t' found where g: "t = tg @ t'" "runs (find_by_id L jti) tg found"
      "runs (case found of
        Inl e \<Rightarrow> Ret (LookupFailed e)
      | Inr None \<Rightarrow> Ret RowMissing
      | Inr (Some (token_row, revision)) \<Rightarrow>
     bind (is_family_revoked L (rt_family_id token_row)) (\<lambda>revoked.
     if revoked then Ret (FamilyRevoked (rt_family_id token_row))
     else renewal_rotate L S claims token_row revision)) t' out"
      by (simp del: split_paired_Ex) (erule runs_bindE, rule that)
    show ?thesis
    proof (cases "\<exists>row n. found = Inr (Some (row, n))")
      case False
      then have "t' = []" using g(3) by (auto split: sum.splits option.splits)
      moreover have "(TokGet k, RTok (Inr (Some (row, n)))) \<notin> set tg" for k row n
        using g(2) False unfolding runs_find_by_id by (elim disjE exE conjE) auto
      ultimately show ?thesis using tr t0 g(1) by simp
    next
      case True
      then obtain row n where found: "found = Inr (Some (row, n))" by blast
      then obtain k where tg: "tg = [(TokGet k, RTok (Inr (Some (row, n))))]"
        using g(2) by (auto simp: runs_find_row_iff)
      from g(3)[unfolded found] obtain tf t1 rev where f: "t' = tf @ t1"
        "runs (is_family_revoked L (rt_family_id row)) tf rev"
        "runs (if rev then Ret (FamilyRevoked (rt_family_id row))
          else renewal_rotate L S claims row n) t1 out"
        by simp (erule runs_bindE, rule that)
      show ?thesis
        unfolding tr g(1) f(1) tg using ver[unfolded c(1)] f(2,3)
        by (intro disjI2 exI[of _ claims] exI[of _ k] exI[of _ row] exI[of _ n] exI[of _ t0] exI[of _ tf]
            exI[of _ t1]) (cases rev; simp)
    qed
  qed
qed

lemma renewal_of_row:
  assumes "runs (renewal L S jwt) tr out" "(TokGet k, RTok (Inr (Some (row, n)))) \<in> set tr"
  shows "out = FamilyRevoked (rt_family_id row) \<or>
    (\<exists>claims t1 t2. tr = t1 @ t2 \<and> runs (renewal_rotate L S claims row n) t2 out \<and>
       (\<forall>k v m r. (TokUpdateIf k v m, r) \<notin> set t1))"
proof -
  have rot: "(TokGet k, r) \<notin> set t" if "runs (renewal_rotate L S c row' m) t o'" for c row' m t o' r
    using that unfolding renewal_rotate_def rotate_token_def
    by (auto simp: runs_simps runs_store runs_mark_used runs_revoke_family dest!: jwt_traces
        split: if_splits)
  have fam: "(TokGet k, r) \<notin> set t \<and> (TokUpdateIf k' v m, r) \<notin> set t"
    if "runs (is_family_revoked L f) t b" for f t b r k' v m
    using that by (auto simp: runs_is_family_revoked)
  from renewal_row_cases[OF assms(1)] assms(2) obtain claims k' row' n' t0 tf t1 where
    t: "tr = t0 @ [(TokGet k', RTok (Inr (Some (row', n'))))] @ tf @ t1"
      "runs (verify_refresh_token L (as_jwt S) jwt) t0 (Inr claims)"
      "(runs (is_family_revoked L (rt_family_id row')) tf True \<and> t1 = [] \<and>
           out = FamilyRevoked (rt_family_id row')) \<or>
        (runs (is_family_revoked L (rt_family_id row')) tf False \<and>
           runs (renewal_rotate L S claims row' n') t1 out)" by blast
  have "row' = row \<and> n' = n"
    using assms(2) t(3) jwt_traces(1)[OF t(2)] unfolding t(1) by (auto dest: rot fam)
  then show ?thesis
    using t(3) jwt_traces(1)[OF t(2)] unfolding t(1)
    by (elim disjE conjE exE) (simp, intro disjI2 exI[of _ claims] exI[of _ "t0 @ [(TokGet k', RTok (Inr (Some (row', n'))))] @ tf"]
        exI[of _ t1], auto dest: fam)
qed

text \<open>A token that was used already, or whose compare-and-swap is lost.\<close>

definition replayed :: "refresh_token \<Rightarrow> revision \<Rightarrow> event list \<Rightarrow> bool" where
  "replayed row n tr \<longleftrightarrow> rt_used_at row \<noteq> None \<or>
     (\<exists>k v m. (TokUpdateIf k v n, RDone (Inl (RevisionConflict m))) \<in> set tr)"

lemma revoke_trace_put:
  "runs (revoke_family L f) tr res \<Longrightarrow> revoked_key L f = Inr fk \<Longrightarrow> \<exists>v x. (FamPut fk v, RDone x) \<in> set tr"
  by (auto simp: runs_revoke_family)

lemma rotate_detects:
  assumes "runs (rotate_token L old n new) tr res" "replayed old n tr"
  shows "res = Inl (Reuse (rt_family_id old)) \<and>
    (\<forall>fk. revoked_key L (rt_family_id old) = Inr fk \<longrightarrow> (\<exists>v x. (FamPut fk v, RDone x) \<in> set tr))"
proof (cases "rt_used_at old = None")
  case False
  then show ?thesis using assms(1) by (auto simp: rotate_replay revoke_trace_def dest: revoke_trace_put)
next
  case True
  with assms(2) obtain k v m where lost: "(TokUpdateIf k v n, RDone (Inl (RevisionConflict m))) \<in> set tr"
    by (auto simp: replayed_def)
  have quiet: "(TokUpdateIf k v n, r) \<notin> set t" if "runs (revoke_family L f) t x" for f t x r
    using that by (auto simp: runs_revoke_family)
  show ?thesis
    using assms(1) lost True unfolding rotate_token_def
    by (auto simp: runs_simps runs_store runs_mark_used mark_result_iff quiet dest: revoke_trace_put)
qed

lemma renewal_rotate_cases:
  assumes "runs (renewal_rotate L S claims row n) tr out" "\<nexists>e. out = SigningFailed e"
  obtains t1 t2 new res where "tr = t1 @ t2" "runs (rotate_token L row n new) t2 res"
    "case res of Inl (Reuse f) \<Rightarrow> out = ReuseDetected f | Inl (RotStore e) \<Rightarrow> out = RotationFailed e
       | Inr _ \<Rightarrow> \<exists>a b. out = Renewed a b" "\<forall>k v m r. (TokUpdateIf k v m, r) \<notin> set t1"
  using assms unfolding renewal_rotate_def
  by (auto simp: runs_simps dest!: jwt_traces) (rule that[rotated 1], assumption, auto)+

lemma replay_outcome:
  assumes "runs (renewal L S jwt) tr out" "(TokGet k, RTok (Inr (Some (row, n)))) \<in> set tr"
    "replayed row n tr"
  shows "out = FamilyRevoked (rt_family_id row) \<or> (\<exists>e. out = SigningFailed e) \<or>
    (out = ReuseDetected (rt_family_id row) \<and>
     (\<forall>fk. revoked_key L (rt_family_id row) = Inr fk \<longrightarrow> (\<exists>v x. (FamPut fk v, RDone x) \<in> set tr)))"
  using renewal_of_row[OF assms(1,2)]
proof (elim disjE exE conjE)
  fix claims t1 t2
  assume t: "tr = t1 @ t2" "runs (renewal_rotate L S claims row n) t2 out"
    "\<forall>k v m r. (TokUpdateIf k v m, r) \<notin> set t1"
  then have rep: "replayed row n t2" using assms(3) by (auto simp: replayed_def)
  show ?thesis
  proof (cases "\<exists>e. out = SigningFailed e")
    case False
    with t(2) obtain t3 t4 new res where r: "t2 = t3 @ t4" "runs (rotate_token L row n new) t4 res"
      "case res of Inl (Reuse f) \<Rightarrow> out = ReuseDetected f | Inl (RotStore e) \<Rightarrow> out = RotationFailed e
         | Inr _ \<Rightarrow> \<exists>a b. out = Renewed a b" "\<forall>k v m r. (TokUpdateIf k v m, r) \<notin> set t3"
      by (rule renewal_rotate_cases)
    then have "replayed row n t4" using rep by (auto simp: replayed_def)
    from rotate_detects[OF r(2) this] r(1,3) t(1) show ?thesis by auto blast
  qed simp
qed simp

section \<open>The order of the writes\<close>

text \<open>
  An entry is marked as used only after the token that replaces it has been stored: whatever is
  lost in between (the task, the process), the client's old token still works.
\<close>

lemma successor_first:
  assumes "pool_exec W sched (service_pool L S calls) w = (P', w', l1 @ (i, TokUpdateIf k v n, r) # l2)"
  shows "\<exists>k' new. (i, TokPut k' new, RDone (Inr ())) \<in> set l1 \<and> rt_replaced_by v = Some (rt_id new) \<and>
    rt_family_id new = rt_family_id v \<and> rt_used_at new = None \<and> refresh_key L (rt_id new) = Inr k'"
proof -
  let ?log = "l1 @ (i, TokUpdateIf k v n, r) # l2"
  have g: "guarded (token_guard L) (by_task i ?log)"
    using service_pool_valid[OF assms] unfolding valid_log_def by blast
  have "by_task i ?log = by_task i l1 @ (TokUpdateIf k v n, r) # by_task i l2" by simp
  with g have "token_guard L (by_task i l1) (TokUpdateIf k v n)" unfolding guarded_def by blast
  then obtain k' new where put: "(TokPut k' new, RDone (Inr ())) \<in> set (by_task i l1)"
    "rt_replaced_by v = Some (rt_id new)" "rt_family_id new = rt_family_id v"
    by (auto simp: token_guard_def)
  then obtain h1 h2 where "by_task i l1 = h1 @ (TokPut k' new, RDone (Inr ())) # h2" by (auto dest: split_list)
  then have "by_task i ?log = h1 @ (TokPut k' new, RDone (Inr ())) # h2 @ (TokUpdateIf k v n, r) # by_task i l2"
    by simp
  with g have "token_guard L h1 (TokPut k' new)" unfolding guarded_def by blast
  then show ?thesis using put by (auto simp: token_guard_def in_by_task)
qed

end
