(* ===== verification/Total.thy ===== *)
theory Total
  imports Effects
begin

text \<open>
  Total programs: on replies of the right kind they never panic, so alone on any world of such
  replies they return. Rules for the constructs a program is made of.
\<close>

primrec total :: "'a prog \<Rightarrow> bool" where
  "total (Ret x) = True"
| "total Panic = False"
| "total (Call q k) = (\<forall>r. well_kinded q r \<longrightarrow> total (k r))"

definition kinded :: "event list \<Rightarrow> bool" where
  "kinded tr \<longleftrightarrow> (\<forall>(q, r) \<in> set tr. well_kinded q r)"

lemma kinded_simps [simp]:
  "kinded []" "kinded ((q, r) # tr) \<longleftrightarrow> well_kinded q r \<and> kinded tr"
  "kinded (t1 @ t2) \<longleftrightarrow> kinded t1 \<and> kinded t2"
  by (auto simp: kinded_def)

lemma total_bind_kinded:
  assumes "total m" "\<And>tr x. runs m tr x \<Longrightarrow> kinded tr \<Longrightarrow> total (f x)"
  shows "total (bind m f)"
  using assms
proof (induction m)
  case (Ret x)
  then show ?case using Ret(2)[of "[]" x] by simp
next
  case (Call q k)
  show ?case
    unfolding bind.simps total.simps
  proof (intro allI impI)
    fix r assume "well_kinded q r"
    then show "total (bind (k r) f)"
      using Call.prems(1) Call.prems(2)[of "(q, r) # tr" for tr] \<open>well_kinded q r\<close>
      by (intro Call.IH) (auto simp: runs_Call)
  qed
qed simp

lemma total_bind: "total m \<Longrightarrow> (\<And>tr x. runs m tr x \<Longrightarrow> total (f x)) \<Longrightarrow> total (bind m f)"
  by (rule total_bind_kinded)

lemma total_bind': "total m \<Longrightarrow> (\<And>x. total (f x)) \<Longrightarrow> total (bind m f)"
  by (rule total_bind)

lemma total_bindD: "total (bind m f) \<Longrightarrow> runs m tr x \<Longrightarrow> kinded tr \<Longrightarrow> total (f x)"
proof (induction m arbitrary: tr)
  case (Call q k)
  then obtain r t where "tr = (q, r) # t" "runs (k r) t x" by (auto simp: runs_Call)
  with Call.IH[of "k r" t] Call.prems show ?case by auto
qed simp_all

lemma total_calls [simp]:
  "total (utc_now f1) \<longleftrightarrow> (\<forall>x. total (f1 x))"
  "total (instant_now f2) \<longleftrightarrow> (\<forall>x. total (f2 x))"
  "total (now_v7 f3) \<longleftrightarrow> (\<forall>x. total (f3 x))"
  "total (gen_nonce f4) \<longleftrightarrow> (\<forall>x. length x = 12 \<longrightarrow> total (f4 x))"
  "total (tok_put k v f5) \<longleftrightarrow> (\<forall>x. total (f5 x))"
  "total (tok_get k f6) \<longleftrightarrow> (\<forall>x. total (f6 x))"
  "total (tok_update_if k v n f5) \<longleftrightarrow> (\<forall>x. total (f5 x))"
  "total (tok_status f5) \<longleftrightarrow> (\<forall>x. total (f5 x))"
  "total (fam_put k w f5) \<longleftrightarrow> (\<forall>x. total (f5 x))"
  "total (fam_get k f7) \<longleftrightarrow> (\<forall>x. total (f7 x))"
  "total (pl_get k f8) \<longleftrightarrow> (\<forall>x. total (f8 x))"
  "total (pl_put k s f5) \<longleftrightarrow> (\<forall>x. total (f5 x))"
  "total (pl_retract k f5) \<longleftrightarrow> (\<forall>x. total (f5 x))"
  "total (jwks_read i f9) \<longleftrightarrow> (\<forall>x. total (f9 x))"
  "total (jwks_write i ks p) \<longleftrightarrow> total p"
  "total (last_read i f2) \<longleftrightarrow> (\<forall>x. total (f2 x))"
  "total (last_write i t p) \<longleftrightarrow> total p"
  "total (http_get u f10) \<longleftrightarrow> (\<forall>x. total (f10 x))"
  "total (nats_start p) \<longleftrightarrow> total p"
  "total (nats_shutdown p) \<longleftrightarrow> total p"
  "total (pl_put_json k j f5) \<longleftrightarrow> (\<forall>x. total (f5 x))"
  "total (pl_entries u f11) \<longleftrightarrow> (\<forall>x. total (f11 x))"
  "total (pl_json_entries u f12) \<longleftrightarrow> (\<forall>x. total (f12 x))"
  by (auto simp: call_defs split: reply.splits)

lemma total_cases [simp]:
  "total (case s of Inl e \<Rightarrow> a e | Inr x \<Rightarrow> b x) \<longleftrightarrow>
     (\<forall>e. s = Inl e \<longrightarrow> total (a e)) \<and> (\<forall>x. s = Inr x \<longrightarrow> total (b x))"
  "total (case oo of None \<Rightarrow> p | Some x \<Rightarrow> c x) \<longleftrightarrow>
     (oo = None \<longrightarrow> total p) \<and> (\<forall>x. oo = Some x \<longrightarrow> total (c x))"
  "total (case pr of (x, y) \<Rightarrow> d x y) \<longleftrightarrow> (\<forall>x y. pr = (x, y) \<longrightarrow> total (d x y))"
  "total (if t then p else q) \<longleftrightarrow> (t \<longrightarrow> total p) \<and> (\<not> t \<longrightarrow> total q)"
  by (auto split: sum.splits option.splits prod.splits)

text \<open>A total program run on a world of well-kinded replies returns.\<close>

lemma total_exec:
  assumes "total p" "\<And>q w r w'. W q w = (r, w') \<Longrightarrow> well_kinded q r"
  shows "\<exists>x w'. exec W p w = (Some x, w')"
  using assms(1)
proof (induction p arbitrary: w)
  case (Call q k)
  obtain r w1 where r: "W q w = (r, w1)" by (cases "W q w") auto
  then have "total (k r)" using Call.prems assms(2) by simp
  from Call.IH[OF _ this, of w1] r show ?case by auto
qed auto

text \<open>There are replies of the right kind to every request, and they lead a total program to a result.\<close>

lemma kind_inhabited: "\<exists>r. well_kinded q r"
proof (cases q)
  case GenNonce
  then show ?thesis by (intro exI[of _ "RNonce (replicate 12 0)"]) simp
qed (fastforce split: reply.splits)+

lemma total_runs: "total p \<Longrightarrow> \<exists>tr x. runs p tr x \<and> kinded tr"
proof (induction p)
  case (Call q k)
  obtain r where r: "well_kinded q r" using kind_inhabited by blast
  with Call.prems have "total (k r)" by simp
  from Call.IH[OF _ this] obtain tr x where "runs (k r) tr x" "kinded tr" by blast
  with r show ?case by (intro exI[of _ "(q, r) # tr"] exI[of _ x]) (simp add: runs_Call)
next
  case (Ret x)
  show ?case by (rule exI[of _ "[]"]) simp
qed simp

end
