(* ===== verification/Totality.thy ===== *)
theory Totality
  imports Answers Total
begin

text \<open>
  No request is left without a response: a program is total when it never panics on replies of
  the right kind, and every handler is, for libraries with their documented behaviour. The
  \<open>expect\<close> on cookie text and the slicing of the authorization header are the places where the
  source could panic.
\<close>

named_theorems total_parts \<open>total parts of the handlers\<close>

section \<open>Parts\<close>

lemma total_simple [total_parts]:
  "total (verify_access_token L svc t)" "total (verify_refresh_token L svc t)"
  "total (sign_access_token L svc e)" "total (sign_refresh_token L svc e)"
  "total (find_by_id L u)" "total (is_family_revoked L f)" "total (revoke_family L f)"
  "total (store L v)" "total (mark_used L old rb n)" "total (resolve L key t)"
  by (simp_all add: verify_access_token_def verify_refresh_token_def sign_access_token_def
      sign_refresh_token_def find_by_id_def is_family_revoked_def revoke_family_def store_def
      mark_used_def resolve_def Let_def)

lemma total_rotate [total_parts]: "total (rotate_token L old n new)"
  by (auto simp: rotate_token_def split: store_error.split intro!: total_bind' total_parts)

lemma total_renewal [total_parts]: "total (renewal L S jwt)"
  by (auto simp: renewal_def renewal_rotate_def split: jwt_error.split rotation_error.split
      intro!: total_bind' total_parts)

lemma total_verify_id_token [total_parts]: "total (verify_id_token L ps t)"
  by (auto simp: verify_id_token_def verify_with_key_def resolve_key_def resolve_single_key_def
      refresh_jwks_def Let_def intro!: total_bind')

lemma total_set_two:
  assumes "http_ok L" "list_all ascii_visible a" "list_all ascii_visible b"
  shows "total (set_two_cookies L a b r)"
  using assms by (simp add: set_two_cookies_def parse_header_def header_value_parse_visible)

lemma total_clear [total_parts]:
  assumes "answer_laws L"
  shows "total (clear_cookies_response L S)" "total (clear_access_cookie_response L S)"
    "total (set_two_cookies L (build_clear_access_cookie c) (build_clear_refresh_cookie c) r)"
  using assms
  by (auto simp: clear_cookies_response_def clear_access_cookie_response_def parse_header_def
      header_value_parse_visible built_cookies_visible answer_laws_def intro!: total_set_two)

lemma total_append_session [total_parts]:
  "answer_laws L \<Longrightarrow> total (append_session_cookie_if_needed L S ex r)"
  by (auto simp: append_session_cookie_if_needed_def parse_header_def Let_def session_cookie_parsed
      answer_laws_def)

lemma total_token_cookies:
  assumes "answer_laws L" "list_all token_char a" "list_all token_char r"
  shows "total (token_cookies L S a r resp)"
  using assms unfolding token_cookies_def answer_laws_def
  by (intro total_set_two built_cookies_visible) (auto intro: token_char_visible)

section \<open>Endpoints\<close>

lemma total_answers:
  assumes "answer_laws L" "runs (renewal L S jwt) tr out"
  shows "total (refresh_answer L S out)" "total (check_answer L S out)"
proof -
  have "total (token_cookies L S a r resp)" if "out = Renewed a r" for a r resp
    using renewed_text[of L S jwt tr a r] assms that
    by (intro total_token_cookies) (auto simp: answer_laws_def)
  then show "total (refresh_answer L S out)" "total (check_answer L S out)"
    using assms(1) by (cases out; auto intro!: total_bind' total_parts)+
qed

lemma total_refresh_handler [total_parts]:
  assumes "answer_laws L" shows "total (refresh_handler L S headers body)"
proof -
  have "total (handle_refresh L S b headers)" for b
    unfolding handle_refresh_renewal
    by (auto intro!: total_bind[OF total_renewal] total_answers[OF assms])
  then show ?thesis
    unfolding refresh_handler_finish refresh_finish_def Let_def
    by (intro total_bind') (auto intro!: total_parts assms split: sum.splits)
qed

lemma total_silent_refresh [total_parts]:
  assumes "answer_laws L" shows "total (silent_refresh L S headers)"
  unfolding silent_refresh_renewal
  by (auto intro!: total_bind[OF total_renewal] total_answers[OF assms] total_parts assms)

text \<open>An accepted header value is ASCII, so its first seven bytes are a slice.\<close>

lemma bearer_token_of_ascii:
  assumes "http_ok L" "header_to_str L v = Some s"
  shows "bearer_token_of s \<noteq> None"
proof -
  have "list_all is_ascii s" using assms unfolding http_ok_def by metis
  then have "(of_char (s ! n) :: nat) < 128" if "n < length s" for n
    using that by (simp add: list_all_length is_ascii_def)
  then have "str_take 7 s \<noteq> None" if "7 \<le> length s"
    using that by (auto simp: str_take_def not_less[symmetric])
  then show ?thesis by (auto simp: bearer_token_of_def split: option.splits)
qed

lemma total_handle_bearer:
  assumes "answer_laws L" "header_to_str L v = Some s"
  shows "total (handle_bearer L S s)"
proof -
  have "header_value_parse L (uuid_to_string L u) = Some (uuid_to_string L u)" for u
    using assms(1) by (intro header_value_parse_visible token_char_visible) (auto simp: answer_laws_def uuid_ok_def)
  then have "total (resolved_bearer_response L e)" for e
    by (simp add: resolved_bearer_response_def parse_header_def Let_def)
  moreover have "bearer_token_of s \<noteq> None"
    using assms by (intro bearer_token_of_ascii) (auto simp: answer_laws_def)
  ultimately show ?thesis
    by (auto simp: handle_bearer_def intro!: total_bind' total_parts)
qed

lemma total_auth_check [total_parts]:
  assumes "answer_laws L" shows "total (auth_check_handler L S headers)"
proof -
  have "total (handle_jwt_cookie L S t headers)" for t
    by (auto simp: handle_jwt_cookie_def split: jwt_error.split intro!: total_bind' total_parts assms)
  then show ?thesis
    by (auto simp: auth_check_handler_def Let_def bind_eq_Some_conv
        intro!: total_bind' total_parts assms total_handle_bearer)
qed

lemma total_logout [total_parts]:
  assumes "answer_laws L" shows "total (logout_handler L S headers)"
  by (auto simp: logout_handler_def logout_revocation_def intro!: total_bind' total_parts assms)

lemma total_token_handler [total_parts]:
  assumes "answer_laws L" shows "total (token_handler L S headers body)"
proof -
  have jwt: "jwt_ok L" using assms by (simp add: answer_laws_def)
  have "total (set_two_cookies L (build_access_cookie a c) (build_refresh_cookie r c) resp)"
    if "runs (sign_access_token L svc e) t1 (Inr a)" "runs (sign_refresh_token L svc e') t2 (Inr (r, u))"
    for a r c resp svc e e' t1 t2 u
    using signed_text(1)[OF jwt that(1)] signed_text(2)[OF jwt that(2)] assms
    by (intro total_set_two built_cookies_visible token_char_visible) (auto simp: answer_laws_def)
  then have "total (handle_token L S b)" for b
    unfolding handle_token_def Let_def
    by (auto intro!: total_bind' total_parts total_bind[OF total_simple(3)] total_bind[OF total_simple(4)])
  then show ?thesis
    unfolding token_handler_def Let_def by (auto intro!: total_bind' total_parts assms)
qed

end
