(* ===== verification/Boot.thy ===== *)
theory Boot
  imports Config Revocation Totality
begin

text \<open>
  \<open>src/main.rs\<close>: from the environment to a serving process. The set-up calls of other crates
  (metrics, the fabric connection, binding the buckets, building the HTTP client, binding the
  port) enter by their results; everything the source decides from them is here. The order is the
  source's: the first failure exits the process, and nothing is served before all buckets are bound.
\<close>

section \<open>Opening the stores\<close>

definition bearer_open :: "fabric_error + unit \<Rightarrow> bearer_seal_key \<Rightarrow> bearer_validator_error + bearer_seal_key" where
  "bearer_open reader key = (case reader of Inl e \<Rightarrow> Inl (BearerOpen e) | Inr _ \<Rightarrow> Inr key)"

definition store_open :: "fabric_error + unit \<Rightarrow> fabric_error + unit \<Rightarrow> store_error + unit" where
  "store_open tokens revoked_families =
     (case tokens of
        Inl e \<Rightarrow> Inl (StoreOpen e)
      | Inr _ \<Rightarrow> (case revoked_families of Inl e \<Rightarrow> Inl (StoreOpen e) | Inr _ \<Rightarrow> Inr ()))"

section \<open>Starting\<close>

record start_up =
  su_version_flag :: bool
  su_metrics :: "string + unit"
  su_connect :: "fabric_error + unit"
  su_bearer_reader :: "fabric_error + unit"
  su_tokens :: "fabric_error + unit"
  su_families :: "fabric_error + unit"
  su_http_client :: "string + unit"
  su_listen :: bool

datatype exit_reason =
    MetricsFailed | ConfigFailed string | ConnectFailed | BearerBindFailed | StoreBindFailed | OidcFailed string

datatype start_result =
    PrintedVersion
  | ExitOne exit_reason
  | Serving app_state bool  \<comment> \<open>the state, and whether it reports ready\<close>

text \<open>\<open>RwLock::new(initial_jwks)\<close> and \<open>Mutex::new(Instant::now())\<close> of each provider.\<close>

fun init_caches :: "nat \<Rightarrow> (oidc_provider \<times> jwk_set \<times> instant) list \<Rightarrow> 'a prog \<Rightarrow> 'a prog" where
  "init_caches i [] p = p"
| "init_caches i ((_, keys, now) # ps) p = jwks_write i keys (last_write i now (init_caches (Suc i) ps p))"

definition open_oidc ::
  "lib \<Rightarrow> start_up \<Rightarrow> app_config \<Rightarrow> (string + (oidc_provider \<times> jwk_set \<times> instant) list) prog" where
  "open_oidc L su config =
     (if cf_oidc_providers config = [] then Ret (Inr [])
      else discover L (su_http_client su) (cf_oidc_providers config)
             (unat (cf_jwks_refresh_cooldown_secs config) * 1000000000))"

definition app_state_of :: "app_config \<Rightarrow> bearer_seal_key \<Rightarrow> oidc_validator \<Rightarrow> app_state" where
  "app_state_of config key oidc =
     \<lparr>as_jwt = jwt_service_new (cf_jwt_secret config) (cf_jwt_issuer config)
        (cf_access_token_ttl config) (cf_refresh_token_ttl config),
      as_oidc = oidc, as_bearer_key = key,
      as_cookie_config = cookie_config_new (cf_secure_cookies config)
        (cf_refresh_token_ttl config) (cf_access_token_ttl config),
      as_auth_check_silent_refresh = cf_auth_check_silent_refresh config\<rparr>"

definition readiness :: "lib \<Rightarrow> bool prog" where
  "readiness L =
     bind store_is_healthy (\<lambda>refresh_store_ok.
     bind (bearer_is_healthy L) (\<lambda>bearer_ok.
       Ret (refresh_store_ok \<and> bearer_ok)))"

definition main_start :: "lib \<Rightarrow> start_up \<Rightarrow> env_vars \<Rightarrow> start_result prog" where
  "main_start L su env =
     (if su_version_flag su then Ret PrintedVersion
      else case su_metrics su of Inl _ \<Rightarrow> Ret (ExitOne MetricsFailed) | Inr _ \<Rightarrow>
     bind (from_env L env) (\<lambda>loaded. case loaded of
        Inl e \<Rightarrow> Ret (ExitOne (ConfigFailed e))
      | Inr config \<Rightarrow>
     (case su_connect su of Inl _ \<Rightarrow> Ret (ExitOne ConnectFailed) | Inr _ \<Rightarrow>
     (case bearer_open (su_bearer_reader su) (cf_bearer_seal_key config) of
        Inl _ \<Rightarrow> Ret (ExitOne BearerBindFailed)
      | Inr key \<Rightarrow>
     (case store_open (su_tokens su) (su_families su) of Inl _ \<Rightarrow> Ret (ExitOne StoreBindFailed) | Inr _ \<Rightarrow>
     bind (open_oidc L su config) (\<lambda>opened. case opened of
        Inl e \<Rightarrow> Ret (ExitOne (OidcFailed e))
      | Inr providers \<Rightarrow>
     init_caches 0 providers
       (bind (readiness L) (\<lambda>ready.
         if su_listen su then Ret (Serving (app_state_of config key (map fst providers)) ready)
         else Panic))))))))"

section \<open>What a serving process is\<close>

text \<open>
  Well-formed state: tokens are verified with the key they are signed with, the cookies live as
  long as the tokens they hold, the seal key has the length of the cipher's.
\<close>

definition wf_state :: "app_state \<Rightarrow> bool" where
  "wf_state S \<longleftrightarrow>
     js_encoding_key (as_jwt S) = js_decoding_key (as_jwt S) \<and>
     cc_refresh_max_age (as_cookie_config S) = js_refresh_ttl_secs (as_jwt S) \<and>
     cc_access_max_age (as_cookie_config S) = js_access_ttl_secs (as_jwt S) \<and>
     length (seal_key_bytes (as_bearer_key S)) = BEARER_SEAL_KEY_LEN"

lemma app_state_of_wf:
  "length (seal_key_bytes key) = 32 \<Longrightarrow> wf_state (app_state_of config key oidc)"
  by (simp add: wf_state_def app_state_of_def jwt_service_new_def cookie_config_new_def BEARER_SEAL_KEY_LEN_def)

lemma runs_from_env: "runs (from_env L env) tr res \<Longrightarrow> tr = [] \<and> from_env L env = Ret res"
proof -
  have scan: "scan_providers e r = Panic \<or> (\<exists>x. scan_providers e r = Ret x)" for e r
  proof (induction r)
    case (Cons kv r)
    then show ?case by (cases kv) (auto simp: Let_def split: option.splits sum.splits)
  qed simp
  have "from_env L env = Panic \<or> (\<exists>x. from_env L env = Ret x)"
    using scan[of env env]
    by (auto simp: from_env_def discover_oidc_providers_def split: sum.splits)
  then show "runs (from_env L env) tr res \<Longrightarrow> tr = [] \<and> from_env L env = Ret res" by auto
qed

lemma runs_init_caches: "runs (init_caches i ps p) tr y \<Longrightarrow> \<exists>t1 t2. tr = t1 @ t2 \<and> runs p t2 y"
proof (induction ps arbitrary: i tr)
  case Nil
  then show ?case by (intro exI[of _ "[]"] exI[of _ tr]) simp
next
  case (Cons q ps)
  obtain o1 keys now where q: "q = (o1, keys, now)" by (cases q) auto
  with Cons.prems obtain tr' where t: "tr = (JwksWrite i keys, RUnit) # (LastWrite i now, RUnit) # tr'"
    "runs (init_caches (Suc i) ps p) tr' y" by (auto simp: runs_calls)
  from Cons.IH[OF t(2)] obtain t1 t2 where "tr' = t1 @ t2" "runs p t2 y" by blast
  then show ?case using t(1) by (intro exI[of _ "(JwksWrite i keys, RUnit) # (LastWrite i now, RUnit) # t1"] exI[of _ t2]) auto
qed

lemma case_not_isl: "(case x of Inl _ \<Rightarrow> False | Inr _ \<Rightarrow> True) = (\<not> isl x)"
  by (cases x) auto

lemma readiness_eq:
  "readiness L = tok_status (\<lambda>x.
     case kv_key_new L HEALTH_PROBE_KEY of
       Inl _ \<Rightarrow> Ret False
     | Inr probe \<Rightarrow> pl_get probe (\<lambda>y. Ret (\<not> isl x \<and> \<not> isl y)))"
  unfolding readiness_def store_is_healthy_def bearer_is_healthy_def case_not_isl
  by (cases "kv_key_new L HEALTH_PROBE_KEY") (simp_all add: bind_calls)

lemma runs_readiness:
  "runs (readiness L) tr ready \<longleftrightarrow>
     (\<exists>x probe y. kv_key_new L HEALTH_PROBE_KEY = Inr probe \<and>
        tr = [(TokStatus, RDone x), (PlGet probe, RSealed y)] \<and> ready = (\<not> isl x \<and> \<not> isl y)) \<or>
     (\<exists>x e. kv_key_new L HEALTH_PROBE_KEY = Inl e \<and> tr = [(TokStatus, RDone x)] \<and> \<not> ready)"
  unfolding readiness_eq by (auto simp: runs_simps)

text \<open>A provider that is discovered has its client id from the configuration and the configured cooldown.\<close>

lemma runs_discover_all:
  "runs (discover_all L cd cfgs) tr (Inr ps) \<Longrightarrow>
     map (op_name \<circ> fst) ps = map pc_name cfgs \<and> map (op_client_id \<circ> fst) ps = map pc_client_id cfgs \<and>
     list_all (\<lambda>p. op_refresh_cooldown (fst p) = cd) ps"
proof (induction cfgs arbitrary: tr ps)
  case (Cons cfg cfgs)
  from Cons.prems obtain t1 t2 p ps' where "runs (discover_one L cd cfg) t1 (Inr p)"
    "runs (discover_all L cd cfgs) t2 (Inr ps')" "ps = p # ps'"
    by (auto simp: runs_simps)
  then show ?case using Cons.IH by (auto simp: discover_one_def runs_simps)
qed simp

lemma serving_state:
  assumes "runs (main_start L su env) tr (Serving S ready)"
  shows "\<exists>config key t1 ps. from_env L env = Ret (Inr config) \<and> key = cf_bearer_seal_key config \<and>
    S = app_state_of config key (map fst ps) \<and> runs (open_oidc L su config) t1 (Inr ps) \<and>
    (\<exists>t3 t4. tr = t3 @ t4 \<and> runs (readiness L) t4 ready) \<and>
    su_bearer_reader su = Inr () \<and> su_tokens su = Inr () \<and> su_families su = Inr ()"
proof -
  have nv: "\<not> su_version_flag su" "\<not> isl (su_metrics su)"
    using assms by (cases "su_version_flag su"; cases "su_metrics su"; simp add: main_start_def)+
  let ?next = "\<lambda>loaded. case loaded of
        Inl e \<Rightarrow> Ret (ExitOne (ConfigFailed e))
      | Inr config \<Rightarrow>
     (case su_connect su of Inl _ \<Rightarrow> Ret (ExitOne ConnectFailed) | Inr _ \<Rightarrow>
     (case bearer_open (su_bearer_reader su) (cf_bearer_seal_key config) of
        Inl _ \<Rightarrow> Ret (ExitOne BearerBindFailed)
      | Inr key \<Rightarrow>
     (case store_open (su_tokens su) (su_families su) of Inl _ \<Rightarrow> Ret (ExitOne StoreBindFailed) | Inr _ \<Rightarrow>
     bind (open_oidc L su config) (\<lambda>opened. case opened of
        Inl e \<Rightarrow> Ret (ExitOne (OidcFailed e))
      | Inr providers \<Rightarrow>
     init_caches 0 providers
       (bind (readiness L) (\<lambda>ready.
         if su_listen su then Ret (Serving (app_state_of config key (map fst providers)) ready)
         else Panic))))))"
  have "runs (bind (from_env L env) ?next) tr (Serving S ready)"
    using assms nv unfolding main_start_def by (cases "su_metrics su") simp_all
  then obtain t1 t2 loaded where "tr = t1 @ t2" "runs (from_env L env) t1 loaded" and
    rest: "runs (?next loaded) t2 (Serving S ready)" by (rule runs_bindE)
  then have env: "from_env L env = Ret loaded" "tr = t2" using runs_from_env by auto
  from rest obtain config where c: "loaded = Inr config" by (cases loaded) auto
  let ?k = "cf_bearer_seal_key config"
  have opened: "su_bearer_reader su = Inr ()" "su_tokens su = Inr ()" "su_families su = Inr ()"
    using rest
    by (cases "su_connect su"; cases "su_bearer_reader su"; cases "su_tokens su"; cases "su_families su";
        simp add: c bearer_open_def store_open_def)+
  then have "runs (bind (open_oidc L su config) (\<lambda>opened. case opened of
        Inl e \<Rightarrow> Ret (ExitOne (OidcFailed e))
      | Inr providers \<Rightarrow>
     init_caches 0 providers
       (bind (readiness L) (\<lambda>ready.
         if su_listen su then Ret (Serving (app_state_of config ?k (map fst providers)) ready)
         else Panic)))) t2 (Serving S ready)"
    using rest by (cases "su_connect su") (simp_all add: c bearer_open_def store_open_def)
  then obtain t3 t4 res where o: "runs (open_oidc L su config) t3 res" "t2 = t3 @ t4" and
    rest: "runs (case res of
        Inl e \<Rightarrow> Ret (ExitOne (OidcFailed e))
      | Inr providers \<Rightarrow>
     init_caches 0 providers
       (bind (readiness L) (\<lambda>ready.
         if su_listen su then Ret (Serving (app_state_of config ?k (map fst providers)) ready)
         else Panic))) t4 (Serving S ready)" by (rule runs_bindE)
  from rest obtain ps where ps: "res = Inr ps" by (cases res) auto
  let ?last = "bind (readiness L) (\<lambda>ready.
         if su_listen su then Ret (Serving (app_state_of config ?k (map fst ps)) ready)
         else Panic)"
  from rest have "runs (init_caches 0 ps ?last) t4 (Serving S ready)" by (simp add: ps)
  from runs_init_caches[OF this] obtain t5 t6 where t: "t4 = t5 @ t6" "runs ?last t6 (Serving S ready)"
    by (elim exE conjE)
  from t(2) obtain t7 t8 rd where rd: "t6 = t7 @ t8" "runs (readiness L) t7 rd"
    "runs (if su_listen su then Ret (Serving (app_state_of config ?k (map fst ps)) rd) else Panic) t8 (Serving S ready)"
    by (rule runs_bindE)
  then have fin: "t8 = []" "rd = ready" "S = app_state_of config ?k (map fst ps)"
    by (cases "su_listen su"; simp)+
  have "tr = (t3 @ t5) @ t7" "runs (readiness L) t7 ready" using env o t rd fin by simp_all
  then have "\<exists>t3 t4. tr = t3 @ t4 \<and> runs (readiness L) t4 ready" by blast
  then show ?thesis
    using env c o(1) ps opened fin
    by (intro exI[of _ config] exI[of _ ?k] exI[of _ t3] exI[of _ ps]) simp
qed

end
