(* ===== verification/Responses.thy ===== *)
theory Responses
  imports Answers
begin

text \<open>
  The responses of the endpoints as tables: status and \<open>Set-Cookie\<close> values by outcome. The tables
  are the specification; each endpoint is shown to answer by its table.
\<close>

section \<open>Set-Cookie\<close>

lemma parsed_cookies:
  assumes "http_ok L"
  shows "header_value_parse L (build_clear_access_cookie c) = Some (build_clear_access_cookie c)"
    "header_value_parse L (build_clear_refresh_cookie c) = Some (build_clear_refresh_cookie c)"
    "list_all token_char t \<Longrightarrow> header_value_parse L (build_access_cookie t c) = Some (build_access_cookie t c)"
    "list_all token_char t \<Longrightarrow> header_value_parse L (build_refresh_cookie t c) = Some (build_refresh_cookie t c)"
  by (rule header_value_parse_visible[OF assms], (rule built_cookies_visible)?; (rule token_char_visible)?; assumption?)+

text \<open>What \<open>append_session_cookie_if_needed\<close> adds: at most one session cookie.\<close>

definition session_part :: "lib \<Rightarrow> app_state \<Rightarrow> string list \<Rightarrow> bool" where
  "session_part L S cs \<longleftrightarrow> cs = [] \<or> (\<exists>u. cs = [build_session_cookie L (uuid_to_string L u) (as_cookie_config S)])"

lemma session_appended:
  assumes "answer_laws L" "runs (append_session_cookie_if_needed L S ex r) tr y"
  shows "status y = status r \<and> resp_body y = resp_body r \<and>
    (\<exists>cs. set_cookies y = set_cookies r @ cs \<and> session_part L S cs \<and> (cs = [] \<longleftrightarrow> ex \<noteq> None))"
  using assms
  by (auto simp: runs_append_session session_cookie_parsed answer_laws_def session_part_def)

abbreviation clearing :: "app_state \<Rightarrow> string list" where
  "clearing S \<equiv> [build_clear_access_cookie (as_cookie_config S), build_clear_refresh_cookie (as_cookie_config S)]"

abbreviation handing_out :: "app_state \<Rightarrow> string \<Rightarrow> string \<Rightarrow> string list" where
  "handing_out S a r \<equiv> [build_access_cookie a (as_cookie_config S), build_refresh_cookie r (as_cookie_config S)]"

lemma cleared_response:
  assumes "answer_laws L" "set_cookies r = []"
    "runs (set_two_cookies L (build_clear_access_cookie (as_cookie_config S)) (build_clear_refresh_cookie (as_cookie_config S)) r) tr y"
  shows "status y = status r \<and> resp_body y = resp_body r \<and> set_cookies y = clearing S \<and> tr = []"
  using assms by (auto simp: runs_set_two_cookies answer_laws_def parsed_cookies)

lemma handing_response:
  assumes "answer_laws L" "set_cookies resp = []" "list_all token_char a" "list_all token_char r"
    "runs (token_cookies L S a r resp) tr y"
  shows "status y = status resp \<and> resp_body y = resp_body resp \<and> set_cookies y = handing_out S a r \<and> tr = []"
  using assms by (auto simp: token_cookies_def runs_set_two_cookies answer_laws_def parsed_cookies)

section \<open>The tables\<close>

text \<open>The response of \<open>/auth/refresh\<close>, outcome by outcome.\<close>

fun refresh_reply :: "app_state \<Rightarrow> outcome \<Rightarrow> nat \<times> string list" where
  "refresh_reply S (Renewed a r) = (200, handing_out S a r)"
| "refresh_reply S (LookupFailed e) = (500, [])"
| "refresh_reply S (SigningFailed e) = (500, [])"
| "refresh_reply S (RotationFailed e) = (500, [])"
| "refresh_reply S _ = (401, clearing S)"

lemma refresh_reply_ok:
  assumes "answer_laws L" "runs (renewal L S jwt) tr1 out"
    "runs (bind (refresh_answer L S out) (refresh_finish L S headers)) tr2 y"
  shows "\<exists>cs. (status y, set_cookies y) = (fst (refresh_reply S out), snd (refresh_reply S out) @ cs) \<and> session_part L S cs"
proof -
  from assms(3) obtain t1 t2 res where r: "runs (refresh_answer L S out) t1 res"
    "runs (refresh_finish L S headers res) t2 y" by (rule runs_bindE)
  from r(2) obtain t3 t4 mid where mid: "runs (case res of
              Inr r \<Rightarrow> Ret r
            | Inl e \<Rightarrow>
                (let response = app_error_into_response e in
                 if status response = 401 then
                   set_two_cookies L (build_clear_access_cookie (as_cookie_config S))
                     (build_clear_refresh_cookie (as_cookie_config S)) response
                 else Ret response)) t3 mid"
    "runs (append_session_cookie_if_needed L S (extract_session_cookie L headers (as_cookie_config S)) mid) t4 y"
    unfolding refresh_finish_def by (rule runs_bindE)
  have "status mid = fst (refresh_reply S out) \<and> set_cookies mid = snd (refresh_reply S out)"
  proof (cases "\<exists>a r. out = Renewed a r")
    case True
    then obtain a rt where out: "out = Renewed a rt" by blast
    have jwt: "jwt_ok L" using assms(1) by (simp add: answer_laws_def)
    from r(1)[unfolded out refresh_answer.simps] obtain t5 t6 z where
      z: "runs (token_cookies L S a rt (json_response 200 (bearer_body (js_access_ttl_secs (as_jwt S))))) t5 z"
      "res = Inr z" by (auto elim: runs_bindE)
    from handing_response[OF assms(1) _ _ _ z(1)] renewed_text[OF jwt assms(2)[unfolded out] ]
    show ?thesis using mid(1) z(2) out by auto
  next
    case False
    then obtain e where e: "res = Inl e" "fst (refresh_reply S out) = status (app_error_into_response e)"
      "snd (refresh_reply S out) = (if status (app_error_into_response e) = 401 then clearing S else [])"
      using r(1) by (cases out) auto
    show ?thesis
    proof (cases "status (app_error_into_response e) = 401")
      case True
      then have "runs (set_two_cookies L (build_clear_access_cookie (as_cookie_config S))
          (build_clear_refresh_cookie (as_cookie_config S)) (app_error_into_response e)) t3 mid"
        using mid(1) e(1) by (simp add: Let_def del: app_error_status(1))
      from cleared_response[OF assms(1) _ this] show ?thesis using True e by simp
    next
      case False
      then show ?thesis using mid(1) e by (simp add: Let_def del: app_error_status(1))
    qed
  qed
  then show ?thesis using session_appended[OF assms(1) mid(2)] by auto
qed

lemma logout_response:
  assumes "answer_laws L" "runs (logout_handler L S h) tr y"
  shows "status y = 200 \<and> set_cookies y = clearing S"
proof -
  from assms(2) obtain t1 t2 u where "runs (set_two_cookies L (build_clear_access_cookie (as_cookie_config S))
         (build_clear_refresh_cookie (as_cookie_config S))
         (json_response 200 (JObj [(''status'', JStr ''logged_out'')]))) t2 y"
    unfolding logout_handler_def by (rule runs_bindE)
  from cleared_response[OF assms(1) _ this] show ?thesis by simp
qed

text \<open>The response of a silent refresh: 200 in every case, and the cookies cleared unless it renewed.\<close>

fun check_reply :: "app_state \<Rightarrow> outcome \<Rightarrow> nat \<times> string list" where
  "check_reply S (Renewed a r) = (200, handing_out S a r)"
| "check_reply S _ = (200, clearing S)"

lemma check_reply_ok:
  assumes "answer_laws L" "runs (renewal L S jwt) tr1 out" "runs (check_answer L S out) tr2 y"
  shows "(status y, set_cookies y) = check_reply S out"
proof (cases "\<exists>a r. out = Renewed a r")
  case True
  then obtain a rt where out: "out = Renewed a rt" by blast
  have jwt: "jwt_ok L" using assms(1) by (simp add: answer_laws_def)
  show ?thesis
    using handing_response[OF assms(1) _ _ _ assms(3)[unfolded out check_answer.simps] ]
      renewed_text[OF jwt assms(2)[unfolded out] ] out by simp
next
  case False
  then have "runs (clear_cookies_response L S) tr2 y" using assms(3) by (cases out) auto
  from cleared_response[OF assms(1) _ this[unfolded clear_cookies_response_def] ] False
  show ?thesis by (cases out) auto
qed

text \<open>A bearer request is answered by what the resolution of its token gives.\<close>

definition bearer_reply :: "lib \<Rightarrow> bearer_validator_error + bearer_entry option \<Rightarrow> http_response" where
  "bearer_reply L res = (case res of
     Inl _ \<Rightarrow> status_response 502
   | Inr None \<Rightarrow> status_response 401
   | Inr (Some e) \<Rightarrow>
       \<lparr>status = 200, resp_headers =
          [(if is_human (be_actor e) then ''x-auth-user-id'' else ''x-auth-service-account-id'',
            uuid_to_string L (actor_id (be_actor e))),
           (''x-auth-token-id'', uuid_to_string L (be_token_id e))], resp_body = Empty\<rparr>)"

lemma bearer_reply_ok:
  assumes "answer_laws L" "bearer_token_of v = Some t"
  shows "runs (handle_bearer L S v) tr y \<longleftrightarrow>
    (\<exists>res. runs (resolve L (as_bearer_key S) t) tr res \<and> y = bearer_reply L res)"
proof -
  have p: "header_value_parse L (uuid_to_string L u) = Some (uuid_to_string L u)" for u
    using assms(1) by (intro header_value_parse_visible token_char_visible) (auto simp: answer_laws_def uuid_ok_def)
  have rep: "runs (resolved_bearer_response L e) tr' z \<longleftrightarrow> tr' = [] \<and> z = bearer_reply L (Inr (Some e))" for e tr' z
    by (auto simp: resolved_bearer_response_def runs_parse_header p Let_def bearer_reply_def
        header_insert_def status_response_def)
  have last: "runs (case res of Inr (Some entry) \<Rightarrow> resolved_bearer_response L entry
      | Inr None \<Rightarrow> Ret (status_response 401) | Inl e \<Rightarrow> Ret (status_response 502)) tr' z \<longleftrightarrow>
      tr' = [] \<and> z = bearer_reply L res" for res tr' z
    by (cases res rule: sum.exhaust[case_names Inl Inr]; (cases "projr res")?)
       (auto simp: rep bearer_reply_def split: option.split)
  show ?thesis
    unfolding handle_bearer_def assms(2) option.case runs_bind last by auto
qed

section \<open>Signing in\<close>

text \<open>The part of \<open>POST /auth/token\<close> that follows the verification of the id token.\<close>

definition session_for :: "lib \<Rightarrow> app_state \<Rightarrow> string \<Rightarrow> (app_error + http_response) prog" where
  "session_for L S email =
     bind (sign_access_token L (as_jwt S) email) (\<lambda>signed. case signed of
        Inl e \<Rightarrow> Ret (Inl (Internal e))
      | Inr a \<Rightarrow> bind (sign_refresh_token L (as_jwt S) email) (\<lambda>signed. case signed of
        Inl e \<Rightarrow> Ret (Inl (Internal e))
      | Inr (r, u) \<Rightarrow> now_v7 (\<lambda>f. utc_now (\<lambda>now.
         bind (store L \<lparr>rt_id = u, rt_email = email, rt_family_id = f,
           rt_used_at = None, rt_replaced_by = None, rt_created_at = now\<rparr>) (\<lambda>stored. case stored of
        Inl e \<Rightarrow> Ret (Inl (Internal ''failed to create session''))
      | Inr _ \<Rightarrow> bind (token_cookies L S a r (json_response 200 (bearer_body (js_access_ttl_secs (as_jwt S)))))
                  (\<lambda>response. Ret (Inr response)))))))"

definition sign_in_request :: "token_request \<Rightarrow> string option" where
  "sign_in_request body =
     (if tr_grant_type body = Some ''id_token'' \<and> tr_id_token body \<noteq> Some [] then tr_id_token body else None)"

lemma handle_token_eq:
  "sign_in_request body = Some idt \<Longrightarrow> handle_token L S body =
     bind (verify_id_token L (as_oidc S) idt) (\<lambda>verified. case verified of
        Inl msg \<Rightarrow> Ret (Inl (Unauthorized msg))
      | Inr claims \<Rightarrow>
          if oc_email claims = [] then Ret (Inl (Validation ''no_email_in_token''))
          else session_for L S (oc_email claims))"
  "sign_in_request body = None \<Longrightarrow> \<exists>m. handle_token L S body = Ret (Inl (Validation m))"
  unfolding handle_token_def session_for_def Let_def token_cookies_def sign_in_request_def
  by (auto split: if_splits option.split)

text \<open>A session that is granted: both tokens for the e-mail, one new row under its own key.\<close>

lemma session_for_ok:
  assumes "answer_laws L" "runs (session_for L S email) tr (Inr y)"
  shows "\<exists>a r u ta ts k row.
    runs (sign_access_token L (as_jwt S) email) ta (Inr a) \<and>
    runs (sign_refresh_token L (as_jwt S) email) ts (Inr (r, u)) \<and>
    refresh_key L u = Inr k \<and> (TokPut k row, RDone (Inr ())) \<in> set tr \<and>
    rt_id row = u \<and> rt_email row = email \<and> rt_used_at row = None \<and>
    status y = 200 \<and> set_cookies y = handing_out S a r"
proof -
  let ?svc = "as_jwt S" and ?plain = "json_response 200 (bearer_body (js_access_ttl_secs (as_jwt S)))"
  from assms(2)[unfolded session_for_def] obtain t1 t1' a where
    a: "tr = t1 @ t1'" "runs (sign_access_token L ?svc email) t1 (Inr a)"
    and r2: "runs (bind (sign_refresh_token L ?svc email) (\<lambda>signed. case signed of
        Inl e \<Rightarrow> Ret (Inl (Internal e))
      | Inr (r, u) \<Rightarrow> now_v7 (\<lambda>f. utc_now (\<lambda>now.
         bind (store L \<lparr>rt_id = u, rt_email = email, rt_family_id = f,
           rt_used_at = None, rt_replaced_by = None, rt_created_at = now\<rparr>) (\<lambda>stored. case stored of
        Inl e \<Rightarrow> Ret (Inl (Internal ''failed to create session''))
      | Inr _ \<Rightarrow> bind (token_cookies L S a r ?plain) (\<lambda>response. Ret (Inr response))))))) t1' (Inr y)"
    by (rule runs_try_bindE)
  from r2 obtain t2 t2' ru where s0: "t1' = t2 @ t2'" "runs (sign_refresh_token L ?svc email) t2 (Inr ru)"
    and r2': "runs (case ru of (r, u) \<Rightarrow> now_v7 (\<lambda>f. utc_now (\<lambda>now.
         bind (store L \<lparr>rt_id = u, rt_email = email, rt_family_id = f,
           rt_used_at = None, rt_replaced_by = None, rt_created_at = now\<rparr>) (\<lambda>stored. case stored of
        Inl e \<Rightarrow> Ret (Inl (Internal ''failed to create session''))
      | Inr _ \<Rightarrow> bind (token_cookies L S a r ?plain) (\<lambda>response. Ret (Inr response)))))) t2' (Inr y)"
    by (rule runs_try_bindE)
  obtain r u where ru: "ru = (r, u)" by (cases ru)
  from r2' obtain f now t3 where s: "t2' = (NowV7, RUuid f) # (UtcNow, RUtc now) # t3"
    and r3: "runs (bind (store L \<lparr>rt_id = u, rt_email = email, rt_family_id = f,
           rt_used_at = None, rt_replaced_by = None, rt_created_at = now\<rparr>) (\<lambda>stored. case stored of
        Inl e \<Rightarrow> Ret (Inl (Internal ''failed to create session''))
      | Inr _ \<Rightarrow> bind (token_cookies L S a r ?plain) (\<lambda>response. Ret (Inr response)))) t3 (Inr y)"
    unfolding ru prod.case runs_calls by (elim exE conjE) simp
  let ?row = "\<lparr>rt_id = u, rt_email = email, rt_family_id = f,
           rt_used_at = None, rt_replaced_by = None, rt_created_at = now\<rparr>"
  from r3 obtain t4 t4' where st: "t3 = t4 @ t4'" "runs (store L ?row) t4 (Inr ())"
    and r4: "runs (bind (token_cookies L S a r ?plain) (\<lambda>response. Ret (Inr response))) t4' (Inr y :: app_error + _)"
    by (rule runs_try_bindE) simp
  from st(2) obtain k where k: "refresh_key L u = Inr k" "t4 = [(TokPut k ?row, RDone (Inr ()))]"
    by (auto simp: runs_store result_iff split: sum.split_asm)
  from r4 have tc: "runs (token_cookies L S a r ?plain) t4' y" by (auto elim: runs_bindE)
  have jwt: "jwt_ok L" using assms(1) by (simp add: answer_laws_def)
  have "status y = 200 \<and> set_cookies y = handing_out S a r"
    using handing_response[OF assms(1) _ _ _ tc] signed_text(1)[OF jwt a(2)]
      signed_text(2)[OF jwt s0(2)[unfolded ru] ] by simp
  moreover have "(TokPut k ?row, RDone (Inr ())) \<in> set tr"
    using a(1) s0(1) s st(1) k(2) by simp
  ultimately show ?thesis
    using a(2) s0(2)[unfolded ru] k(1)
    by (intro exI[of _ a] exI[of _ r] exI[of _ u] exI[of _ t1] exI[of _ t2] exI[of _ k] exI[of _ ?row]) simp
qed

text \<open>A sign-in that succeeds: a verified id token, and a session for its e-mail.\<close>

lemma handle_token_ok:
  assumes "runs (handle_token L S body) tr (Inr y)"
  shows "\<exists>idt claims t1 t2. sign_in_request body = Some idt \<and> tr = t1 @ t2 \<and>
    runs (verify_id_token L (as_oidc S) idt) t1 (Inr claims) \<and> oc_email claims \<noteq> [] \<and>
    runs (session_for L S (oc_email claims)) t2 (Inr y)"
proof (cases "sign_in_request body")
  case None
  from handle_token_eq(2)[OF this, of L S] assms show ?thesis by auto
next
  case (Some idt)
  from assms[unfolded handle_token_eq(1)[OF this] ] obtain t1 t2 claims where
    "tr = t1 @ t2" "runs (verify_id_token L (as_oidc S) idt) t1 (Inr claims)"
    "runs (if oc_email claims = [] then Ret (Inl (Validation ''no_email_in_token''))
          else session_for L S (oc_email claims)) t2 (Inr y)" by (rule runs_try_bindE)
  with Some show ?thesis
    by (intro exI[of _ idt] exI[of _ claims] exI[of _ t1] exI[of _ t2]) (auto split: if_splits)
qed

end
