(* ===== verification/Reference_Lib.thy ===== *)
theory Reference_Lib
  imports External "HOL-Library.Code_Target_Nat"
begin

text \<open>
  One concrete record of third-party functions that has every documented behaviour, so that a
  property with those behaviours as hypotheses is about something: uuids are decimal numerals,
  base64 is two letters per byte, JSON documents are flat objects, a token is the three parts of
  a JWT with the key in place of a signature, and sealing prepends key, nonce and associated
  data, framed by their lengths. It is executable, so the witnesses run the handlers on it.
\<close>

section \<open>Two letters per byte\<close>

fun hex :: "string \<Rightarrow> string" where
  "hex [] = []"
| "hex (Char b0 b1 b2 b3 b4 b5 b6 b7 # cs) =
     Char b4 b5 b6 b7 False False True False # Char b0 b1 b2 b3 False False True False # hex cs"

fun unhex :: "string \<Rightarrow> string option" where
  "unhex [] = Some []"
| "unhex [c] = None"
| "unhex (Char b4 b5 b6 b7 _ _ _ _ # Char b0 b1 b2 b3 _ _ _ _ # cs) = (case unhex cs of None \<Rightarrow> None
     | Some s \<Rightarrow> Some (Char b0 b1 b2 b3 b4 b5 b6 b7 # s))"

lemma unhex_hex [simp]: "unhex (hex s) = Some s"
  by (induction s rule: hex.induct) simp_all

lemma char_range: "of_char c < (256 :: nat)"
  by (simp add: nat_of_char_less_256)

definition letter :: "char \<Rightarrow> bool" where
  "letter c \<longleftrightarrow> (\<exists>b0 b1 b2 b3. c = Char b0 b1 b2 b3 False False True False)"

lemma letter_Char [simp]: "letter (Char b0 b1 b2 b3 b4 b5 b6 b7) \<longleftrightarrow> \<not> b4 \<and> \<not> b5 \<and> b6 \<and> \<not> b7"
  by (auto simp: letter_def)

lemma letter_hex: "list_all letter (hex s)"
  by (induction s rule: hex.induct) simp_all

lemma not_in_hex:
  assumes "\<not> letter c" shows "c \<notin> set (hex s)"
  using assms letter_hex[of s] by (auto simp: list_all_iff)

lemma ascii_visible_Char [code]:
  "ascii_visible (Char b0 b1 b2 b3 b4 b5 b6 b7) \<longleftrightarrow>
     \<not> b7 \<and> (b5 \<or> b6) \<and> \<not> (b0 \<and> b1 \<and> b2 \<and> b3 \<and> b4 \<and> b5 \<and> b6)"
  by (cases b0; cases b1; cases b2; cases b3; cases b4; cases b5; cases b6; cases b7)
    (simp_all add: ascii_visible_def)

lemma letter_token: "letter c \<Longrightarrow> token_char c"
  by (cases c) (auto simp: token_char_def ascii_visible_Char)

lemma hex_token: "list_all token_char (hex s)"
  using letter_hex[of s] by (auto simp: list_all_iff letter_token)

definition of_bytes :: "bytes \<Rightarrow> string" where
  "of_bytes b = map (\<lambda>x. char_of (unat x)) b"

lemma of_bytes_as_bytes [simp]: "of_bytes (as_bytes s) = s"
  by (simp add: of_bytes_def as_bytes_def comp_def unat_of_nat take_bit_eq_mod char_range
      map_idI)

lemma of_bytes_append: "of_bytes (a @ b) = of_bytes a @ of_bytes b"
  by (simp add: of_bytes_def)

lemma as_bytes_of_bytes [simp]: "as_bytes (of_bytes b) = b"
proof -
  have "unat x < 256" for x :: "8 word" using unsigned_less[of x, where ?'a = nat] by simp
  then show ?thesis by (simp add: of_bytes_def as_bytes_def comp_def map_idI)
qed

section \<open>Flat JSON documents\<close>

definition show_int :: "int \<Rightarrow> string" where
  "show_int n = (if n < 0 then CHR ''-'' # show_nat (nat (- n)) else show_nat (nat n))"

definition parse_int :: "string \<Rightarrow> int option" where
  "parse_int s = (case s of
     [] \<Rightarrow> None
   | c # cs \<Rightarrow> if c = CHR ''-'' then map_option (\<lambda>n. - int n) (digits_val 0 cs)
               else map_option int (digits_val 0 s))"

lemma parse_show_int [simp]: "parse_int (show_int n) = Some n"
proof (cases "n < 0")
  case True
  then show ?thesis by (simp add: show_int_def parse_int_def digits_val_show_nat)
next
  case False
  obtain c cs where s: "show_nat (nat n) = c # cs" by (cases "show_nat (nat n)") auto
  then have "is_digit c" using show_nat_digits[of "nat n"] by auto
  then have "c \<noteq> CHR ''-''" by (auto simp: is_digit_def)
  moreover have "digits_val 0 (c # cs) = Some (nat n)" using digits_val_show_nat[of "nat n"] s by simp
  ultimately show ?thesis using False s unfolding show_int_def parse_int_def by simp
qed

fun flat_value :: "json \<Rightarrow> string option" where
  "flat_value (JStr s) = Some (CHR ''s'' # hex s)"
| "flat_value (JInt n) = Some (CHR ''i'' # hex (show_int n))"
| "flat_value _ = None"

fun unflat_value :: "string \<Rightarrow> json option" where
  "unflat_value (c # cs) =
     (if c = CHR ''s'' then map_option JStr (unhex cs)
      else map_option JInt (Option.bind (unhex cs) parse_int))"
| "unflat_value [] = None"

fun flat_fields :: "(string \<times> json) list \<Rightarrow> string option" where
  "flat_fields [] = Some []"
| "flat_fields ((n, v) # fs) = (case (flat_value v, flat_fields fs) of
     (Some t, Some r) \<Rightarrow> Some (hex n @ CHR '':'' # t @ CHR '','' # r)
   | _ \<Rightarrow> None)"

definition unflat_field :: "string \<Rightarrow> (string \<times> json) option" where
  "unflat_field p = (case split_on CHR '':'' p of
     [n, t] \<Rightarrow> (case (unhex n, unflat_value t) of (Some n, Some v) \<Rightarrow> Some (n, v) | _ \<Rightarrow> None)
   | _ \<Rightarrow> None)"

fun unflat_fields :: "string list \<Rightarrow> (string \<times> json) list option" where
  "unflat_fields [] = None"
| "unflat_fields [p] = (if p = [] then Some [] else None)"
| "unflat_fields (p # ps) = (case (unflat_field p, unflat_fields ps) of
     (Some f, Some fs) \<Rightarrow> Some (f # fs) | _ \<Rightarrow> None)"

fun flat :: "json \<Rightarrow> string option" where
  "flat (JObj fs) = flat_fields fs"
| "flat _ = None"

definition unflat :: "string \<Rightarrow> json option" where
  "unflat s = map_option JObj (unflat_fields (split_on CHR '','' s))"

lemma flat_value_ok:
  "flat_value v = Some t \<Longrightarrow> unflat_value t = Some v \<and> CHR '':'' \<notin> set t \<and> CHR '','' \<notin> set t"
proof (induction v rule: flat_value.induct)
qed (auto simp: not_in_hex letter_def)

lemma unflat_fields_Cons: "ps \<noteq> [] \<Longrightarrow> unflat_fields (p # ps) =
    (case (unflat_field p, unflat_fields ps) of (Some f, Some fs) \<Rightarrow> Some (f # fs) | _ \<Rightarrow> None)"
  by (cases ps) auto

lemma unflat_fields_flat: "flat_fields fs = Some s \<Longrightarrow> unflat_fields (split_on CHR '','' s) = Some fs"
proof (induction fs arbitrary: s rule: flat_fields.induct)
  case (2 n v fs)
  then obtain t r where t: "flat_value v = Some t" "flat_fields fs = Some r"
      "s = hex n @ CHR '':'' # t @ CHR '','' # r"
    by (auto split: option.splits)
  note v = flat_value_ok[OF t(1)]
  have no: "CHR '':'' \<notin> set (hex n)" "CHR '','' \<notin> set (hex n)" by (simp_all add: not_in_hex letter_def)
  have "split_on CHR '','' s = (hex n @ CHR '':'' # t) # split_on CHR '','' r"
    using t(3) no v split_on_append_sep[of "CHR '',''" "hex n @ CHR '':'' # t" r] by simp
  moreover have "unflat_field (hex n @ CHR '':'' # t) = Some (n, v)"
    using v no by (simp add: unflat_field_def split_on_append_sep split_on_no_sep)
  ultimately show ?case using "2.IH"[OF t(2)] t by (simp add: unflat_fields_Cons)
qed simp

lemma flat_value_token: "flat_value v = Some t \<Longrightarrow> list_all token_char t \<and> CHR ''.'' \<notin> set t"
proof (induction v rule: flat_value.induct)
qed (auto simp: not_in_hex letter_def hex_token token_char_def[of "CHR ''s''"] token_char_def[of "CHR ''i''"]
    ascii_visible_def)

lemma flat_fields_token: "flat_fields fs = Some s \<Longrightarrow> list_all token_char s \<and> CHR ''.'' \<notin> set s"
proof (induction fs arbitrary: s rule: flat_fields.induct)
  case (2 n v fs)
  then show ?case
    by (auto split: option.splits dest!: flat_value_token
        simp: hex_token not_in_hex letter_def token_char_def[of "CHR '':''"] token_char_def[of "CHR '',''"]
          ascii_visible_def)
qed simp

lemma flat_token: "flat j = Some s \<Longrightarrow> list_all token_char s \<and> CHR ''.'' \<notin> set s"
  by (cases j) (auto dest: flat_fields_token)

lemma unflat_flat: "flat j = Some s \<Longrightarrow> unflat s = Some j"
  by (cases j) (auto simp: unflat_def unflat_fields_flat)

section \<open>Tokens\<close>

fun ref_header :: "string \<Rightarrow> jwt_header option" where
  "ref_header [] = None"
| "ref_header (c # cs) =
     (if c = CHR ''h'' then Some \<lparr>hdr_alg = HS256, hdr_kid = None\<rparr>
      else if c = CHR ''n'' then Some \<lparr>hdr_alg = RS256, hdr_kid = None\<rparr>
      else map_option (\<lambda>kid. \<lparr>hdr_alg = RS256, hdr_kid = Some kid\<rparr>) (unhex cs))"

definition ref_token :: "string \<Rightarrow> string \<Rightarrow> bytes \<Rightarrow> string" where
  "ref_token header payload key =
     header @ CHR ''.'' # payload @ CHR ''.'' # hex (of_bytes key)"

definition ref_jwt_encode :: "bytes \<Rightarrow> json \<Rightarrow> string + string" where
  "ref_jwt_encode key j =
     (case flat j of None \<Rightarrow> Inl ''unsupported claims'' | Some s \<Rightarrow> Inr (ref_token ''h'' s key))"

definition ref_payload :: "string \<Rightarrow> json option" where
  "ref_payload t = (case split_on CHR ''.'' t of
     [h, p, s] \<Rightarrow> unflat p | _ \<Rightarrow> None)"

definition ref_signature_ok :: "bytes \<Rightarrow> validation \<Rightarrow> string \<Rightarrow> bool" where
  "ref_signature_ok key v t = (case split_on CHR ''.'' t of
     [h, p, s] \<Rightarrow> s = hex (of_bytes key) \<and>
       (case ref_header h of None \<Rightarrow> False | Some hdr \<Rightarrow> hdr_alg hdr \<in> set (v_algorithms v))
   | _ \<Rightarrow> False)"

definition ref_jwt_decode ::
  "bytes \<Rightarrow> validation \<Rightarrow> (json \<Rightarrow> bool) \<Rightarrow> i64 \<Rightarrow> string \<Rightarrow> jwt_kind + json" where
  "ref_jwt_decode key v acc now t =
     (if \<not> ref_signature_ok key v t then Inl (OtherKind ''InvalidSignature'')
      else case ref_payload t of
        None \<Rightarrow> Inl (OtherKind ''InvalidToken'')
      | Some j \<Rightarrow>
          if acc j \<and> claims_shape_ok v j then
            (case json_field j ''exp'' of
               Some (JInt e) \<Rightarrow>
                 if claims_alive v now e then Inr j else Inl (ExpiredSignature ''ExpiredSignature'')
             | Some _ \<Rightarrow> Inl (OtherKind ''InvalidClaim'')
             | None \<Rightarrow> Inr j)
          else Inl (OtherKind ''InvalidClaim''))"

definition ref_decode_header :: "string \<Rightarrow> string + jwt_header" where
  "ref_decode_header t = (case ref_header (hd (split_on CHR ''.'' t)) of
     None \<Rightarrow> Inl ''InvalidToken'' | Some h \<Rightarrow> Inr h)"

definition ref_validation :: "algorithm \<Rightarrow> validation" where
  "ref_validation alg =
     \<lparr>v_algorithms = [alg], v_iss = None, v_aud = None, v_required = [''exp''], v_leeway = 60\<rparr>"

lemma split_ref_token:
  assumes "CHR ''.'' \<notin> set h" "CHR ''.'' \<notin> set p"
  shows "split_on CHR ''.'' (ref_token h p k) = [h, p, hex (of_bytes k)]"
  using assms by (simp add: ref_token_def split_on_append_sep split_on_no_sep not_in_hex letter_def)

section \<open>Sealing, actors, documents\<close>

definition ref_seal_header :: "bytes \<Rightarrow> bytes \<Rightarrow> bytes \<Rightarrow> bytes" where
  "ref_seal_header k n a = as_bytes (hex (of_bytes k) @ CHR ''.'' # hex (of_bytes n) @ CHR ''.'' #
     hex (of_bytes a) @ ''.'')"

definition ref_encrypt :: "bytes \<Rightarrow> bytes \<Rightarrow> bytes \<Rightarrow> bytes \<Rightarrow> bytes option" where
  "ref_encrypt k n a m = Some (ref_seal_header k n a @ m)"

definition ref_decrypt :: "bytes \<Rightarrow> bytes \<Rightarrow> bytes \<Rightarrow> bytes \<Rightarrow> bytes option" where
  "ref_decrypt k n a c = (let h = ref_seal_header k n a in
     if take (length h) c = h then Some (drop (length h) c) else None)"

fun ref_actor_to_json :: "actor \<Rightarrow> json" where
  "ref_actor_to_json (Human u) = JStr (CHR ''h'' # show_nat (unat u))"
| "ref_actor_to_json (Service u) = JStr (CHR ''s'' # show_nat (unat u))"

definition ref_uuid_parse :: "string \<Rightarrow> uuid option" where
  "ref_uuid_parse s = map_option word_of_nat (parse_unsigned (2 ^ 128) s)"

fun ref_actor_of_json :: "json \<Rightarrow> actor option" where
  "ref_actor_of_json (JStr (c # cs)) =
     map_option (if c = CHR ''h'' then Human else Service) (ref_uuid_parse cs)"
| "ref_actor_of_json _ = None"

definition ref_discovery :: "string \<Rightarrow> string + discovery_document" where
  "ref_discovery body = (case split_on CHR '' '' body of
     [i, u] \<Rightarrow> Inr \<lparr>dd_issuer = i, dd_jwks_uri = u\<rparr> | _ \<Rightarrow> Inl ''not a discovery document'')"

definition ref_jwk :: "string \<Rightarrow> jwk option" where
  "ref_jwk p = (case split_on CHR '':'' p of
     [kid, m] \<Rightarrow> Some \<lparr>jwk_key_id = Some kid, jwk_key_algorithm = Some KA_RS256, jwk_material = as_bytes m\<rparr>
   | _ \<Rightarrow> None)"

definition ref_jwks :: "string \<Rightarrow> string + jwk_set" where
  "ref_jwks body = (let ks = map ref_jwk (split_on CHR '' '' body) in
     if None \<in> set ks then Inl ''not a key set'' else Inr (map the ks))"

definition ref_session_name :: "bool \<Rightarrow> string" where
  "ref_session_name secure = (if secure then ''__Host-session_id'' else ''session_id'')"

text \<open>The remaining functions, each under a name, so that selecting one evaluates no other.\<close>

definition ref_uuid_to_string :: "uuid \<Rightarrow> string" where
  "ref_uuid_to_string u = show_nat (unat u)"

definition ref_kv_key :: "string \<Rightarrow> string + kv_key" where
  "ref_kv_key s = (if s = [] then Inl ''empty key'' else Inr (KvKey s))"

definition ref_session_id :: "string \<Rightarrow> bool \<Rightarrow> string option" where
  "ref_session_id h secure =
     find_map (\<lambda>c. strip_prefix (ref_session_name secure @ ''='') (trim c)) (split_on CHR '';'' h)"

definition ref_header_text :: "string \<Rightarrow> string option" where
  "ref_header_text v = (if list_all ascii_visible v then Some v else None)"

definition ref_b64 :: "bytes \<Rightarrow> string" where "ref_b64 b = hex (of_bytes b)"

definition ref_unb64 :: "string \<Rightarrow> bytes option" where "ref_unb64 s = map_option as_bytes (unhex s)"

definition ref_url_unb64 :: "string \<Rightarrow> bytes option" where "ref_url_unb64 s = Some (as_bytes s)"

definition ref_to_vec :: "json \<Rightarrow> string + bytes" where
  "ref_to_vec j = (case flat j of None \<Rightarrow> Inl ''unsupported'' | Some s \<Rightarrow> Inr (as_bytes s))"

definition ref_from_slice :: "bytes \<Rightarrow> string + json" where
  "ref_from_slice b = (case unflat (of_bytes b) of None \<Rightarrow> Inl ''bad JSON'' | Some j \<Rightarrow> Inr j)"

definition ref_serde_error :: "json \<Rightarrow> string" where "ref_serde_error j = ''invalid shape''"

definition ref_key_of :: "jwk \<Rightarrow> string + bytes" where "ref_key_of k = Inr (jwk_material k)"

definition ref_prefix :: "string \<Rightarrow> string + string" where
  "ref_prefix s = (if s = [] then Inl ''empty prefix'' else Inr s)"

fun ref_actor_debug :: "actor \<Rightarrow> string" where
  "ref_actor_debug (Human u) = ''Human '' @ show_nat (unat u)"
| "ref_actor_debug (Service u) = ''Service '' @ show_nat (unat u)"

definition ref_b64_error :: "string \<Rightarrow> string" where "ref_b64_error s = ''Invalid byte''"

section \<open>The record\<close>

definition ref_lib :: lib where
  "ref_lib = \<lparr>
     uuid_to_string = ref_uuid_to_string,
     uuid_parse_str = ref_uuid_parse,
     kv_key_new = ref_kv_key,
     core_session_cookie_name = ref_session_name,
     core_extract_session_id = ref_session_id,
     core_bearer_token_key = hex,
     header_to_str = ref_header_text,
     header_value_parse = ref_header_text,
     b64_encode = ref_b64,
     b64_decode = ref_unb64,
     b64url_decode = ref_url_unb64,
     aead_encrypt = ref_encrypt,
     aead_decrypt = ref_decrypt,
     json_to_vec = ref_to_vec,
     json_from_slice = ref_from_slice,
     serde_error = ref_serde_error,
     actor_to_json = ref_actor_to_json,
     actor_of_json = ref_actor_of_json,
     jwt_encode = ref_jwt_encode,
     jwt_decode = ref_jwt_decode,
     jwt_decode_header = ref_decode_header,
     jwt_key_from_jwk = ref_key_of,
     jwt_validation_default = ref_validation HS256,
     jwt_validation_new = ref_validation,
     discovery_from_body = ref_discovery,
     jwks_from_body = ref_jwks,
     kv_prefix_new = ref_prefix,
     uuid_simple = ref_uuid_to_string,
     actor_debug = ref_actor_debug,
     b64_error = ref_b64_error\<rparr>"

lemmas ref_fields = ref_lib_def ref_uuid_to_string_def ref_kv_key_def ref_header_text_def ref_b64_def
  ref_unb64_def ref_to_vec_def ref_from_slice_def

section \<open>It has the documented behaviour\<close>

lemma ref_uuid_roundtrip: "ref_uuid_parse (show_nat (unat (u :: uuid))) = Some u"
proof -
  have "unat u < 2 ^ 128" using unsigned_less[of u, where ?'a = nat] by simp
  then show ?thesis by (simp add: ref_uuid_parse_def parse_show_nat del: power_numeral)
qed

lemma show_nat_token: "list_all token_char (show_nat n)"
proof -
  have "token_char c" if "is_digit c" for c
    using that by (auto simp: is_digit_def token_char_def ascii_visible_def Let_def)
  then show ?thesis using show_nat_digits[of n] by (auto simp: list_all_iff)
qed

lemma ref_uuid_ok: "uuid_ok ref_lib"
  by (simp add: uuid_ok_def ref_fields ref_uuid_roundtrip show_nat_token)

lemma ref_kv_key_ok: "kv_key_ok ref_lib"
  by (simp add: kv_key_ok_def ref_fields)

lemma ref_http_ok: "http_ok ref_lib"
  by (auto simp: http_ok_def ref_fields is_ascii_def ascii_visible_def Let_def list_all_iff)

lemma ref_core_auth_ok: "core_auth_ok ref_lib"
  by (simp add: core_auth_ok_def ref_fields ref_session_name_def token_char_def ascii_visible_def Let_def)

lemma ref_aead_ok: "aead_ok ref_lib"
  by (auto simp: aead_ok_def ref_fields ref_encrypt_def ref_decrypt_def Let_def split: if_splits)
    (metis append_take_drop_id)

lemma ref_aead_binds: "aead_binds ref_lib"
proof -
  have "a' = a" if "ref_encrypt k n a m = Some c" "ref_decrypt k n a' c = Some m'" for k n a a' m m' c
  proof -
    let ?h = "ref_seal_header k n"
    from that have "take (length (?h a')) (?h a @ m) = ?h a'"
      by (auto simp: ref_encrypt_def ref_decrypt_def Let_def split: if_splits)
    then obtain r where "?h a @ m = ?h a' @ r" by (metis append_take_drop_id)
    then have "of_bytes (?h a @ m) = of_bytes (?h a' @ r)" by simp
    then have "hex (of_bytes k) @ CHR ''.'' # hex (of_bytes n) @ CHR ''.'' # hex (of_bytes a) @ CHR ''.'' # of_bytes m =
        hex (of_bytes k) @ CHR ''.'' # hex (of_bytes n) @ CHR ''.'' # hex (of_bytes a') @ CHR ''.'' # of_bytes r"
      by (simp add: ref_seal_header_def of_bytes_append)
    then have "hex (of_bytes a) = hex (of_bytes a')"
      by (simp add: append_eq_at_sep not_in_hex)
    then have "of_bytes a = of_bytes a'" by (metis option.inject unhex_hex)
    then show ?thesis by (metis as_bytes_of_bytes)
  qed
  then show ?thesis unfolding aead_binds_def by (simp add: ref_fields) blast
qed

lemma ref_b64_ok: "b64_ok ref_lib"
  by (simp add: b64_ok_def ref_fields)

lemma ref_json_text_ok: "json_text_ok ref_lib"
  by (simp add: json_text_ok_def ref_fields unflat_flat split: option.splits)

lemma ref_actor_json_ok: "actor_json_ok ref_lib"
proof -
  have "ref_actor_of_json (ref_actor_to_json a) = Some a" for a
    by (cases a) (simp_all add: ref_uuid_roundtrip)
  then show ?thesis by (simp add: actor_json_ok_def ref_fields)
qed

lemma ref_jwt_ok: "jwt_ok ref_lib"
proof -
  have split: "split_on CHR ''.'' (ref_token ''h'' s key) = [''h'', s, hex (of_bytes key)]"
    if "flat j = Some s" for j s key
    by (rule split_ref_token) (use flat_token[OF that] in simp_all)
  have pay: "ref_payload t = Some j" "HS256 \<in> set (v_algorithms v) \<Longrightarrow> ref_signature_ok key v t"
    "t \<noteq> [] \<and> list_all token_char t" if "ref_jwt_encode key j = Inr t" for key j t v
  proof -
    from that obtain s where s: "flat j = Some s" "t = ref_token ''h'' s key"
      by (auto simp: ref_jwt_encode_def split: option.splits)
    show "ref_payload t = Some j" "HS256 \<in> set (v_algorithms v) \<Longrightarrow> ref_signature_ok key v t"
      using s split[OF s(1)] by (simp_all add: ref_payload_def ref_signature_ok_def unflat_flat)
    show "t \<noteq> [] \<and> list_all token_char t"
      using s hex_token flat_token[OF s(1)] by (simp add: ref_token_def token_char_def ascii_visible_def Let_def)
  qed
  have sound: "ref_payload t = Some j \<and> acc j \<and> claims_shape_ok v j \<and>
      (\<forall>e. json_field j ''exp'' = Some (JInt e) \<longrightarrow> claims_alive v now e)"
    if "ref_jwt_decode key v acc now t = Inr j" for key v acc now t j
    using that unfolding ref_jwt_decode_def
    by (auto split: if_splits option.splits json.splits)
  have "jwt_default_ok ref_lib" by (simp add: jwt_default_ok_def ref_fields ref_validation_def)
  moreover have "jwt_complete ref_lib"
    unfolding jwt_complete_def
  proof (intro allI impI)
    fix key j t v acc now e
    assume a: "jwt_encode ref_lib key j = Inr t \<and> HS256 \<in> set (v_algorithms v) \<and> acc j \<and>
      claims_shape_ok v j \<and> json_field j ''exp'' = Some (JInt e) \<and> 0 \<le> e \<and> 0 \<le> sint (now :: i64)"
    then have "ref_jwt_encode key j = Inr t" by (simp add: ref_fields)
    then show "if claims_alive v now e then jwt_decode ref_lib key v acc now t = Inr j
      else \<exists>m. jwt_decode ref_lib key v acc now t = Inl (ExpiredSignature m)"
      using a by (simp add: ref_fields ref_jwt_decode_def pay)
  qed
  moreover have "jwt_sound ref_lib"
  proof -
    have "jwt_decode ref_lib = ref_jwt_decode" by (simp add: ref_fields)
    then show ?thesis
      unfolding jwt_sound_def by (metis sound)
  qed
  moreover have "jwt_text_ok ref_lib" using pay(3) by (simp add: jwt_text_ok_def ref_fields)
  moreover have "jwt_stable ref_lib"
    unfolding jwt_stable_def
  proof (intro allI impI)
    fix k1 v1 a1 n1 j1 k2 v2 a2 n2 j2 t
    assume "jwt_decode ref_lib k1 v1 a1 n1 t = Inr j1 \<and> jwt_decode ref_lib k2 v2 a2 n2 t = Inr j2"
    then have "ref_payload t = Some j1" "ref_payload t = Some j2"
      using sound[of k1 v1 a1 n1 t j1] sound[of k2 v2 a2 n2 t j2] by (simp_all add: ref_fields)
    then show "j1 = j2" by simp
  qed
  ultimately show ?thesis by (simp add: jwt_ok_def)
qed

lemma ref_jwt_modular: "jwt_modular ref_lib"
proof -
  have "ref_jwt_decode key v' acc now t = Inr j"
    if d: "ref_jwt_decode key v acc now t = Inr j" and v: "v_algorithms v' = v_algorithms v" "v_leeway v' = v_leeway v"
      and shape: "claims_shape_ok v' j" for key v v' acc now t j
  proof -
    have same: "ref_signature_ok key v' t = ref_signature_ok key v t" "claims_alive v' n e = claims_alive v n e" for n e
      by (simp_all only: ref_signature_ok_def claims_alive_def v)
    have sig: "ref_signature_ok key v t" using d by (rule contrapos_pp) (simp add: ref_jwt_decode_def)
    obtain j0 where p: "ref_payload t = Some j0"
      using d sig by (cases "ref_payload t") (simp_all add: ref_jwt_decode_def)
    let ?verdict = "case json_field j0 ''exp'' of
               Some (JInt e) \<Rightarrow>
                 if claims_alive v now e then Inr j0 else Inl (ExpiredSignature ''ExpiredSignature'')
             | Some _ \<Rightarrow> Inl (OtherKind ''InvalidClaim'')
             | None \<Rightarrow> Inr j0"
    have v: "acc j0" "?verdict = Inr j" using d sig p by (simp_all add: ref_jwt_decode_def split: if_splits)
    then have "j0 = j" by (cases "json_field j0 ''exp''"; cases "the (json_field j0 ''exp'')") (auto split: if_splits)
    with v p sig shape show ?thesis by (simp only: ref_jwt_decode_def same option.case) simp
  qed
  moreover have "jwt_decode ref_lib = ref_jwt_decode" by (simp add: ref_fields)
  ultimately show ?thesis unfolding jwt_modular_def by metis
qed

lemmas ref_lib_laws = ref_uuid_ok ref_kv_key_ok ref_http_ok ref_core_auth_ok ref_aead_ok ref_aead_binds ref_b64_ok
  ref_json_text_ok ref_actor_json_ok ref_jwt_ok

end
