(* ===== verification/Reference_World.thy ===== *)
theory Reference_World
  imports Fabric Reference_Lib
begin

text \<open>
  One concrete world with every documented behaviour of the fabric, for the witnesses: the two
  views of the bucket and the bearer bucket as maps with one revision counter, a switch that
  makes every KV call fail, clocks that advance at every reading, uuids from a counter, the
  cached keys of the providers, and a fixed web. It is no test harness: the requests of the
  conformance battery find no bucket there.
\<close>

record rworld =
  rw_tokens :: "kv_key \<Rightarrow> (refresh_token \<times> revision) option"
  rw_families :: "kv_key \<Rightarrow> (revoked_family \<times> revision) option"
  rw_bearers :: "kv_key \<Rightarrow> sealed_bearer option"
  rw_revision :: nat
  rw_down :: bool
  rw_clock :: int
  rw_mono :: nat
  rw_uuids :: nat
  rw_jwks :: "nat \<Rightarrow> jwk_set"
  rw_last :: "nat \<Rightarrow> instant"
  rw_web :: "string \<Rightarrow> string + (string + string)"

definition kv_down :: "fabric_error" where
  "kv_down = FabricFailure ''no responders''"

definition rw_write :: "kv_key \<Rightarrow> refresh_token \<Rightarrow> rworld \<Rightarrow> rworld" where
  "rw_write k v w = w\<lparr>rw_tokens := (rw_tokens w)(k \<mapsto> (v, Suc (rw_revision w))),
     rw_revision := Suc (rw_revision w)\<rparr>"

fun rw_step :: "request \<Rightarrow> rworld \<Rightarrow> reply \<times> rworld" where
  "rw_step UtcNow w = (RUtc (rw_clock w), w\<lparr>rw_clock := rw_clock w + 1000000000\<rparr>)"
| "rw_step MonoNow w = (RMono (rw_mono w), w\<lparr>rw_mono := rw_mono w + 1000000000\<rparr>)"
| "rw_step NowV7 w = (RUuid (word_of_nat (rw_uuids w)), w\<lparr>rw_uuids := Suc (rw_uuids w)\<rparr>)"
| "rw_step GenNonce w = (RNonce (replicate 12 7), w)"
| "rw_step (TokPut k v) w = (if rw_down w then (RDone (Inl kv_down), w)
     else (RDone (Inr ()), rw_write k v w))"
| "rw_step (TokGet k) w = (if rw_down w then (RTok (Inl kv_down), w)
     else (RTok (Inr (rw_tokens w k)), w))"
| "rw_step (TokUpdateIf k v n) w = (if rw_down w then (RDone (Inl kv_down), w)
     else if (case rw_tokens w k of Some (_, m) \<Rightarrow> m = n | None \<Rightarrow> False)
     then (RDone (Inr ()), rw_write k v w)
     else (RDone (Inl (RevisionConflict ''wrong last sequence'')), w))"
| "rw_step TokStatus w = (RDone (if rw_down w then Inl kv_down else Inr ()), w)"
| "rw_step (FamPut k v) w = (if rw_down w then (RDone (Inl kv_down), w)
     else (RDone (Inr ()), w\<lparr>rw_families := (rw_families w)(k \<mapsto> (v, Suc (rw_revision w))),
       rw_revision := Suc (rw_revision w)\<rparr>))"
| "rw_step (FamGet k) w = (if rw_down w then (RFam (Inl kv_down), w)
     else (RFam (Inr (rw_families w k)), w))"
| "rw_step (PlGet k) w = (if rw_down w then (RSealed (Inl kv_down), w)
     else (RSealed (Inr (rw_bearers w k)), w))"
| "rw_step (PlPut k v) w = (if rw_down w then (RDone (Inl kv_down), w)
     else (RDone (Inr ()), w\<lparr>rw_bearers := (rw_bearers w)(k \<mapsto> v)\<rparr>))"
| "rw_step (PlRetract k) w = (if rw_down w then (RDone (Inl kv_down), w)
     else (RDone (Inr ()), w\<lparr>rw_bearers := (rw_bearers w)(k := None)\<rparr>))"
| "rw_step (JwksRead i) w = (RJwks (rw_jwks w i), w)"
| "rw_step (JwksWrite i ks) w = (RUnit, w\<lparr>rw_jwks := (rw_jwks w)(i := ks)\<rparr>)"
| "rw_step (LastRead i) w = (RMono (rw_last w i), w)"
| "rw_step (LastWrite i t) w = (RUnit, w\<lparr>rw_last := (rw_last w)(i := t)\<rparr>)"
| "rw_step (HttpGet u) w = (RHttp (rw_web w u), w)"
| "rw_step NatsStart w = (RUnit, w)"
| "rw_step NatsShutdown w = (RUnit, w)"
| "rw_step (PlPutJson k v) w = (RDone (Inl kv_down), w)"
| "rw_step (PlEntries p) w = (REntries (Inl kv_down), w)"
| "rw_step (PlJsonEntries p) w = (RJsonEntries (Inl kv_down), w)"

definition rw_view :: "rworld view" where
  "rw_view = \<lparr>vw_tokens = rw_tokens, vw_last = rw_revision,
     vw_uuids = \<lambda>w. word_of_nat ` {..< rw_uuids w}, 
     vw_revoked = \<lambda>w k. map_option (\<lambda>e. min (snd e) (rw_revision w)) (rw_families w k)\<rparr>"

lemma fresh_uuid:
  assumes "(word_of_nat ` {..<n} :: uuid set) \<noteq> UNIV"
  shows "word_of_nat n \<notin> (word_of_nat ` {..<n} :: uuid set)"
proof
  assume "word_of_nat n \<in> (word_of_nat ` {..<n} :: uuid set)"
  then obtain m where m: "m < n" "(word_of_nat n :: uuid) = word_of_nat m" by auto
  have "2 ^ 128 \<le> n"
  proof (rule ccontr)
    assume "\<not> 2 ^ 128 \<le> n"
    then have "unat (word_of_nat n :: uuid) = n" "unat (word_of_nat m :: uuid) = m"
      using m(1) by (auto simp: unat_of_nat take_bit_eq_mod simp del: power_numeral)
    with m show False by simp
  qed
  then have "u \<in> word_of_nat ` {..<n}" for u :: uuid
    using unsigned_less[of u, where ?'a = nat]
    by (intro image_eqI[of _ _ "unat u"]) (auto simp del: power_numeral)
  with assms show False by blast
qed

lemma rw_write_writes: "writes rw_view k v w (rw_write k v w)"
  by (auto simp: writes_def evicts_def rw_view_def rw_write_def)

lemma rw_fabric_ok: "fabric_ok rw_view rw_step"
  unfolding fabric_ok_def
proof (intro allI impI)
  fix q w r w' assume "rw_step q w = (r, w')"
  then show "well_kinded q r \<and> vw_last rw_view w \<le> vw_last rw_view w' \<and>
     token_step rw_view q r w w' \<and> uuid_step rw_view q r w w' \<and> family_step rw_view q r w w'"
    using fresh_uuid[of "rw_uuids w"]
    by (cases q)
      (auto simp: token_step_def uuid_step_def family_step_def rw_view_def evicts_def kv_down_def
        at_revision_def rw_write_def writes_def lessThan_Suc split: if_splits option.splits)
qed

lemma few_uuids: "rw_uuids w < 2 ^ 128 \<Longrightarrow> vw_uuids rw_view w \<noteq> UNIV"
proof
  assume few: "rw_uuids w < 2 ^ 128" and "vw_uuids rw_view w = UNIV"
  then have "(word_of_nat (rw_uuids w) :: uuid) \<in> word_of_nat ` {..<rw_uuids w}"
    by (simp add: rw_view_def)
  then obtain m where m: "m < rw_uuids w" "(word_of_nat (rw_uuids w) :: uuid) = word_of_nat m" by auto
  from m(1) few have "unat (word_of_nat (rw_uuids w) :: uuid) = rw_uuids w" "unat (word_of_nat m :: uuid) = m"
    by (auto simp: unat_of_nat take_bit_eq_mod simp del: power_numeral)
  with m show False by simp
qed

end
