(* ===== verification/Reference_Run.thy ===== *)
theory Reference_Run
  imports Boot Responses Reference_World
begin

text \<open>
  The service on the reference world: a configuration, a bucket with one unused refresh token,
  the token's JWT, and requests that present it. The facts here are evaluated in the kernel.
\<close>

definition demo_jwt :: jwt_service where
  "demo_jwt = jwt_service_new ''k'' ''i'' 900 86400"

definition demo_state :: app_state where
  "demo_state = \<lparr>as_jwt = demo_jwt, as_oidc = [], as_bearer_key = BearerSealKey (replicate 32 1),
     as_cookie_config = cookie_config_new False 86400 900, as_auth_check_silent_refresh = True\<rparr>"

definition demo_row :: refresh_token where
  "demo_row = \<lparr>rt_id = 1, rt_email = ''e'', rt_family_id = 2, rt_used_at = None, rt_replaced_by = None,
     rt_created_at = 0\<rparr>"

definition demo_world :: rworld where
  "demo_world = \<lparr>rw_tokens = [KvKey ''refresh.1'' \<mapsto> (demo_row, 1)], rw_families = Map.empty,
     rw_bearers = Map.empty, rw_revision = 1, rw_down = False, rw_clock = 1000000000, rw_mono = 0,
     rw_uuids = 3, rw_jwks = (\<lambda>_. []), rw_last = (\<lambda>_. 0), rw_web = (\<lambda>_. Inl ''unreachable'')\<rparr>"

definition demo_claims :: refresh_claims where
  "demo_claims = \<lparr>rc_sub = ''e'', rc_jti = ''1'', rc_iss = ''i'', rc_iat = 0, rc_exp = 86400\<rparr>"

definition demo_token :: string where
  "demo_token = (case ref_jwt_encode (as_bytes ''k'') (refresh_claims_to_json demo_claims) of Inr t \<Rightarrow> t | _ \<Rightarrow> [])"

definition demo_headers :: headers where
  "demo_headers = [''cookie'' \<mapsto> ''refresh_token='' @ demo_token]"

definition demo_calls :: "call list" where
  "demo_calls = [RefreshCall demo_headers None, RefreshCall demo_headers None]"

definition prog_result :: "'a prog \<Rightarrow> 'a option" where
  "prog_result p = (case p of Ret x \<Rightarrow> Some x | _ \<Rightarrow> None)"

lemma demo_store_inv: "store_inv ref_lib rw_view demo_world"
proof -
  have "refresh_key ref_lib 1 = Inr (KvKey ''refresh.1'')" by code_simp
  moreover have "(1 :: uuid) \<in> word_of_nat ` {..<3}" by (rule image_eqI[of _ _ 1]) simp_all
  ultimately show ?thesis
    by (auto simp: store_inv_def rw_view_def demo_world_def demo_row_def split: if_splits)
qed

lemma demo_answer_laws: "answer_laws ref_lib"
  by (simp add: answer_laws_def ref_lib_laws)

end
