(* ===== verification/Reference_Race.thy ===== *)
theory Reference_Race
  imports Reference_Run
begin

text \<open>Two requests with the same refresh token, interleaved step by step on the reference world.\<close>

text \<open>
  Both requests are read before either has written. The first stores and redeems, and is granted;
  the second loses the compare-and-swap, revokes the family and is refused.
\<close>

definition race_log :: "(nat \<times> event) list" where
  "race_log =
     [(0, UtcNow, RUtc 1000000000), (1, UtcNow, RUtc 2000000000),
      (0, TokGet (KvKey ''refresh.1''), RTok (Inr (Some (demo_row, 1)))),
      (1, TokGet (KvKey ''refresh.1''), RTok (Inr (Some (demo_row, 1)))),
      (0, FamGet (KvKey ''revoked.2''), RFam (Inr None)), (1, FamGet (KvKey ''revoked.2''), RFam (Inr None)),
      (0, UtcNow, RUtc 3000000000), (1, UtcNow, RUtc 4000000000), (0, NowV7, RUuid 3), (1, NowV7, RUuid 4),
      (0, UtcNow, RUtc 5000000000), (1, UtcNow, RUtc 6000000000),
      (0, UtcNow, RUtc 7000000000), (1, UtcNow, RUtc 8000000000),
      (0, TokPut (KvKey ''refresh.3'') (demo_row\<lparr>rt_id := 3, rt_created_at := 7000000000\<rparr>), RDone (Inr ())),
      (1, TokPut (KvKey ''refresh.4'') (demo_row\<lparr>rt_id := 4, rt_created_at := 8000000000\<rparr>), RDone (Inr ())),
      (0, UtcNow, RUtc 9000000000), (1, UtcNow, RUtc 10000000000),
      (0, TokUpdateIf (KvKey ''refresh.1'')
        (demo_row\<lparr>rt_used_at := Some 9000000000, rt_replaced_by := Some 3\<rparr>) 1, RDone (Inr ())),
      (1, TokUpdateIf (KvKey ''refresh.1'')
        (demo_row\<lparr>rt_used_at := Some 10000000000, rt_replaced_by := Some 4\<rparr>) 1,
        RDone (Inl (RevisionConflict ''wrong last sequence''))),
      (0, NowV7, RUuid 5), (1, UtcNow, RUtc 11000000000),
      (1, FamPut (KvKey ''revoked.2'') \<lparr>revoked_at = 11000000000\<rparr>, RDone (Inr ())), (1, NowV7, RUuid 6)]"

definition demo_schedule :: "nat list" where
  "demo_schedule = map fst race_log"

definition demo_result :: "http_response pool \<times> rworld \<times> (nat \<times> event) list" where
  "demo_result = pool_exec rw_step demo_schedule (service_pool ref_lib demo_state demo_calls) demo_world"

definition is_update :: "nat \<times> event \<Rightarrow> bool" where
  "is_update e = (case e of (_, TokUpdateIf _ _ _, _) \<Rightarrow> True | _ \<Rightarrow> False)"

definition early_clock :: "nat \<times> event \<Rightarrow> bool" where
  "early_clock e = (case e of (_, UtcNow, RUtc t) \<Rightarrow> 0 \<le> t \<and> t < 1000000000000 | _ \<Rightarrow> True)"

lemma race_first:
  "case feed_result (serve ref_lib demo_state (demo_calls ! 0)) (by_task 0 race_log) of
     None \<Rightarrow> False | Some y \<Rightarrow> granted demo_state y \<noteq> None"
  by code_simp

lemma race_second:
  "case feed_result (serve ref_lib demo_state (demo_calls ! 1)) (by_task 1 race_log) of
     None \<Rightarrow> False | Some y \<Rightarrow> status y = 401"
  by code_simp

lemma race_world:
  "case replay rw_step demo_world (map snd race_log) of None \<Rightarrow> False | Some w \<Rightarrow> rw_uuids w = 7"
  by code_simp

lemma race_facts: "list_ex is_update race_log" "list_all early_clock race_log"
  by (simp_all add: race_log_def is_update_def early_clock_def)

lemma race_others: "1 < i \<Longrightarrow> by_task i race_log = []"
  by (simp add: race_log_def)

lemma demo_raced:
  obtains P' w' log y0 y1 r where "demo_result = (P', w', log)" "P' 0 = Ret y0" "P' 1 = Ret y1"
    "granted demo_state y0 = Some r" "status y1 = 401" "vw_uuids rw_view w' \<noteq> UNIV"
    "list_ex is_update log" "list_all early_clock log"
proof -
  let ?P = "service_pool ref_lib demo_state demo_calls"
  have p: "?P 0 = serve ref_lib demo_state (demo_calls ! 0)" "?P 1 = serve ref_lib demo_state (demo_calls ! 1)"
    by (simp_all add: service_pool_def demo_calls_def)
  obtain y0 where y0: "steps (?P 0) (by_task 0 race_log) (Ret y0)" "granted demo_state y0 \<noteq> None"
    using race_first unfolding p runs_def[symmetric] feed_runs by (auto split: option.splits)
  obtain y1 where y1: "steps (?P 1) (by_task 1 race_log) (Ret y1)" "status y1 = 401"
    using race_second unfolding p runs_def[symmetric] feed_runs by (auto split: option.splits)
  obtain w' where w': "follows rw_step demo_world (map snd race_log) w'" "rw_uuids w' = 7"
    using race_world unfolding replay_follows[symmetric] by (auto split: option.splits)
  let ?P' = "?P(0 := Ret y0, 1 := Ret y1)"
  have "steps (?P i) (by_task i race_log) (?P' i)" for i
    using y0(1) y1(1) race_others[of i] by (cases "i = 0"; cases "i = 1") (auto simp: steps_Nil_iff)
  then have "demo_result = (?P', w', race_log)"
    unfolding demo_result_def demo_schedule_def by (rule pool_of_steps[OF w'(1)])
  moreover have "vw_uuids rw_view w' \<noteq> UNIV" by (rule few_uuids) (simp add: w'(2))
  ultimately show thesis using y0(2) y1(2) race_facts that[of ?P' w' race_log y0 y1] by auto
qed

lemma demo_run: "pool_exec rw_step demo_schedule (service_pool ref_lib demo_state demo_calls) demo_world = demo_result"
  by (simp add: demo_result_def)

lemma demo_presents:
  "i < 2 \<Longrightarrow> presented ref_lib demo_state (demo_calls ! i) = Some demo_token"
proof -
  have "presented ref_lib demo_state (demo_calls ! 0) = Some demo_token"
    "presented ref_lib demo_state (demo_calls ! 1) = Some demo_token" by code_simp+
  then show "i < 2 \<Longrightarrow> ?thesis" by (auto simp: less_2_cases_iff)
qed

text \<open>The renewal that was granted, as a run of its own.\<close>

lemma demo_renewed:
  obtains tr a r where "runs (renewal ref_lib demo_state demo_token) tr (Renewed a r)"
    "\<forall>t. (UtcNow, RUtc t) \<in> set tr \<longrightarrow> 0 \<le> t \<and> t < 1000000000000"
proof -
  obtain P' w' log y0 y1 r where d: "demo_result = (P', w', log)" "P' 0 = Ret y0" "granted demo_state y0 = Some r"
    "list_all early_clock log" by (rule demo_raced)
  have run: "runs (serve ref_lib demo_state (demo_calls ! 0)) (by_task 0 log) y0"
    by (rule pool_run(2)[OF demo_run[unfolded d(1)] d(2)])
  from serve_granted[OF demo_answer_laws run demo_presents d(3)] obtain a t1 t2 t3 where
    t: "by_task 0 log = t1 @ t2 @ t3" "runs (renewal ref_lib demo_state demo_token) t2 (Renewed a r)" by auto
  have "0 \<le> x \<and> x < 1000000000000" if "(UtcNow, RUtc x) \<in> set t2" for x
  proof -
    have "(0, UtcNow, RUtc x) \<in> set log" using that t(1) in_by_task[of "(UtcNow, RUtc x)" 0 log] by auto
    with d(4) show ?thesis by (auto simp: list_all_iff early_clock_def)
  qed
  with t(2) that show thesis by blast
qed

end
