(* ===== verification/Reference_Logout.thy ===== *)
theory Reference_Logout
  imports Reference_Run
begin

text \<open>A user logs out on the reference world; then the same refresh token is presented again.\<close>

definition logout_calls :: "call list" where
  "logout_calls = [LogoutCall demo_headers, RefreshCall demo_headers None]"

definition first_log :: "(nat \<times> event) list" where
  "first_log =
     [(0, UtcNow, RUtc 1000000000), (0, TokGet (KvKey ''refresh.1''), RTok (Inr (Some (demo_row, 1)))),
      (0, UtcNow, RUtc 2000000000),
      (0, FamPut (KvKey ''revoked.2'') \<lparr>revoked_at = 2000000000\<rparr>, RDone (Inr ()))]"

definition then_log :: "(nat \<times> event) list" where
  "then_log =
     [(1, UtcNow, RUtc 3000000000), (1, TokGet (KvKey ''refresh.1''), RTok (Inr (Some (demo_row, 1)))),
      (1, FamGet (KvKey ''revoked.2''), RFam (Inr (Some (\<lparr>revoked_at = 2000000000\<rparr>, 2)))),
      (1, NowV7, RUuid 3)]"

definition is_put :: "nat \<times> event \<Rightarrow> bool" where
  "is_put e = (case e of (i, FamPut _ _, RDone (Inr _)) \<Rightarrow> i = 0 | _ \<Rightarrow> False)"

definition is_failed_read :: "nat \<times> event \<Rightarrow> bool" where
  "is_failed_read e = (case e of (i, FamGet _, RFam (Inl _)) \<Rightarrow> True | _ \<Rightarrow> False)"

lemma is_put_iff: "is_put e \<longleftrightarrow> (\<exists>fk v u. e = (0, FamPut fk v, RDone (Inr u)))"
proof -
  obtain i q r where e: "e = (i, q, r)" by (cases e)
  show ?thesis unfolding e by (cases q; cases r) (auto simp: is_put_def split: sum.splits)
qed

lemma logout_feed:
  "feed_result (serve ref_lib demo_state (logout_calls ! 0)) (by_task 0 first_log) \<noteq> None"
  by code_simp

lemma refresh_feed:
  "case feed_result (serve ref_lib demo_state (logout_calls ! 1)) (by_task 1 then_log) of
     None \<Rightarrow> False | Some y \<Rightarrow> status y = 401"
  by code_simp

lemma logout_world:
  "case replay rw_step demo_world (map snd first_log) of None \<Rightarrow> False | Some w \<Rightarrow>
     (case replay rw_step w (map snd then_log) of None \<Rightarrow> False | Some w2 \<Rightarrow> rw_uuids w2 = 4)"
  by code_simp

lemma logout_others: "i \<noteq> 0 \<Longrightarrow> by_task i first_log = []" "i \<noteq> 1 \<Longrightarrow> by_task i then_log = []"
  by (simp_all add: first_log_def then_log_def)

lemma logout_facts: "list_ex is_put first_log" "\<not> list_ex is_failed_read then_log"
  by (simp_all add: first_log_def then_log_def is_put_def is_failed_read_def)

lemma demo_logout:
  obtains P1 w1 P2 w2 y0 y where
    "pool_exec rw_step (replicate 4 0) (service_pool ref_lib demo_state logout_calls) demo_world = (P1, w1, first_log)"
    "pool_exec rw_step (replicate 4 1) P1 w1 = (P2, w2, then_log)"
    "P1 0 = Ret y0" "P2 1 = Ret y" "status y = 401" "rw_uuids w2 = 4"
proof -
  let ?P = "service_pool ref_lib demo_state logout_calls"
  have p: "?P 0 = serve ref_lib demo_state (logout_calls ! 0)" "?P 1 = serve ref_lib demo_state (logout_calls ! 1)"
    by (simp_all add: service_pool_def logout_calls_def)
  have s: "map fst first_log = replicate 4 0" "map fst then_log = replicate 4 1"
    by (simp_all add: first_log_def then_log_def numeral_eq_Suc)
  obtain y0 where y0: "steps (?P 0) (by_task 0 first_log) (Ret y0)"
    using logout_feed unfolding p runs_def[symmetric] feed_runs by auto
  obtain y where y: "steps (?P 1) (by_task 1 then_log) (Ret y)" "status y = 401"
    using refresh_feed unfolding p runs_def[symmetric] feed_runs by (auto split: option.splits)
  obtain w1 w2 where w: "follows rw_step demo_world (map snd first_log) w1"
    "follows rw_step w1 (map snd then_log) w2" "rw_uuids w2 = 4"
    using logout_world unfolding replay_follows[symmetric] by (auto split: option.splits)
  let ?P1 = "?P(0 := Ret y0)" and ?P2 = "?P(0 := Ret y0, 1 := Ret y)"
  have "steps (?P i) (by_task i first_log) (?P1 i)" for i
    using y0 logout_others(1)[of i] by (cases "i = 0") (auto simp: steps_Nil_iff)
  from pool_of_steps[OF w(1) this] have one: "pool_exec rw_step (replicate 4 0) ?P demo_world = (?P1, w1, first_log)"
    unfolding s .
  have "steps (?P1 i) (by_task i then_log) (?P2 i)" for i
    using y(1) logout_others(2)[of i] by (cases "i = 1") (auto simp: steps_Nil_iff)
  from pool_of_steps[OF w(2) this] have "pool_exec rw_step (replicate 4 1) ?P1 w1 = (?P2, w2, then_log)"
    unfolding s .
  with one show thesis using y(2) w(3) that by auto
qed

end
