(* ===== verification/Tickets.thy ===== *)
theory Tickets
  imports Service
begin

text \<open>
  The abstract machine that the token bucket implements: single-use tickets. A ticket is issued
  once, under a name never used before, redeemed at most once, and may be lost (evicted, expired)
  at any time. The concrete bucket, its revisions, its rows and the failures of its calls are
  mapped to this machine by \<open>tickets_of\<close>, and every step of the service is a step of the machine.
\<close>

section \<open>The machine\<close>

datatype ticket = Unused | Used

record tickets =
  tk_state :: "kv_key \<Rightarrow> ticket option"
  tk_names :: "kv_key set"  \<comment> \<open>names that were ever issued\<close>

definition loses :: "(kv_key \<Rightarrow> ticket option) \<Rightarrow> (kv_key \<Rightarrow> ticket option) \<Rightarrow> bool" where
  "loses f g \<longleftrightarrow> (\<forall>k. g k = f k \<or> g k = None)"

inductive ticket_step :: "tickets \<Rightarrow> tickets \<Rightarrow> bool" where
  lose: "loses (tk_state T) (tk_state T') \<Longrightarrow> tk_names T' = tk_names T \<Longrightarrow> ticket_step T T'"
| issue: "k \<notin> tk_names T \<Longrightarrow> loses ((tk_state T)(k \<mapsto> Unused)) (tk_state T') \<Longrightarrow>
    tk_names T' = insert k (tk_names T) \<Longrightarrow> ticket_step T T'"
| redeem: "tk_state T k = Some Unused \<Longrightarrow> loses ((tk_state T)(k \<mapsto> Used)) (tk_state T') \<Longrightarrow>
    tk_names T' = tk_names T \<Longrightarrow> ticket_step T T'"

inductive_cases ticket_stepE: "ticket_step T T'"

definition named :: "tickets \<Rightarrow> bool" where
  "named T \<longleftrightarrow> dom (tk_state T) \<subseteq> tk_names T"

text \<open>A ticket that was used, or lost, never becomes usable again.\<close>

definition spent :: "tickets \<Rightarrow> kv_key \<Rightarrow> bool" where
  "spent T k \<longleftrightarrow> k \<in> tk_names T \<and> tk_state T k \<noteq> Some Unused"

lemma loses_dom: "loses f g \<Longrightarrow> dom g \<subseteq> dom f"
  unfolding loses_def dom_def by (metis (mono_tags, lifting) Collect_mono)

lemma named_step: "ticket_step T T' \<Longrightarrow> named T \<Longrightarrow> named T'"
proof (induction rule: ticket_step.induct)
  case (redeem T k T')
  then have "k \<in> tk_names T" by (auto simp: named_def)
  with loses_dom[OF redeem.hyps(2)] redeem show ?case by (auto simp: named_def)
next
  case (issue k T T')
  with loses_dom[OF issue.hyps(2)] show ?case by (auto simp: named_def)
next
  case (lose T T')
  with loses_dom[OF lose.hyps(1)] show ?case by (auto simp: named_def)
qed

lemma spent_step: "ticket_step T T' \<Longrightarrow> spent T k \<Longrightarrow> spent T' k"
  by (induction rule: ticket_step.induct) (auto simp: spent_def loses_def split: if_splits; metis option.distinct(1) option.inject ticket.distinct(1))+

lemma spent_reachable: "ticket_step\<^sup>*\<^sup>* T T' \<Longrightarrow> spent T k \<Longrightarrow> spent T' k"
  by (induction rule: rtranclp_induct) (auto dest: spent_step)

section \<open>The abstraction\<close>

definition ticket_of :: "refresh_token \<Rightarrow> ticket" where
  "ticket_of row = (if rt_used_at row = None then Unused else Used)"

definition tickets_of :: "lib \<Rightarrow> 'w view \<Rightarrow> 'w \<Rightarrow> (nat \<times> event) list \<Rightarrow> 'w \<Rightarrow> tickets" where
  "tickets_of L V w0 log w =
     \<lparr>tk_state = (\<lambda>k. map_option (ticket_of \<circ> fst) (vw_tokens V w k)),
      tk_names = {k. \<exists>u. refresh_key L u = Inr k \<and> known V w0 log u}\<rparr>"

lemma tickets_of_simps [simp]:
  "tk_state (tickets_of L V w0 log w) k = map_option (ticket_of \<circ> fst) (vw_tokens V w k)"
  "k \<in> tk_names (tickets_of L V w0 log w) \<longleftrightarrow> (\<exists>u. refresh_key L u = Inr k \<and> known V w0 log u)"
  by (simp_all add: tickets_of_def)

lemma tickets_of_state: "tk_state (tickets_of L V w0 log w) = (\<lambda>k. map_option (ticket_of \<circ> fst) (vw_tokens V w k))"
  by (simp add: tickets_of_def)

lemma tokens_lose: "evicts V {} w w' \<Longrightarrow> loses (tk_state (tickets_of L V w0 log w)) (tk_state (tickets_of L V w0 log' w'))"
  unfolding loses_def evicts_def tickets_of_state by (metis empty_iff option.map_disc_iff)

lemma writes_lose:
  assumes "writes V k v w w'"
  shows "loses ((tk_state (tickets_of L V w0 log w))(k \<mapsto> ticket_of v)) (tk_state (tickets_of L V w0 log' w'))"
proof -
  from assms obtain n where n: "vw_tokens V w' k = Some (v, n)" and ev: "evicts V {k} w w'"
    by (auto simp: writes_def)
  show ?thesis
    unfolding loses_def
  proof
    fix k'
    show "tk_state (tickets_of L V w0 log' w') k' = ((tk_state (tickets_of L V w0 log w))(k \<mapsto> ticket_of v)) k' \<or>
      tk_state (tickets_of L V w0 log' w') k' = None"
      using n ev by (cases "k' = k") (auto simp: evicts_def)
  qed
qed

lemma names_snoc:
  assumes "\<And>k v. q \<noteq> TokPut k v"
  shows "tk_names (tickets_of L V w0 (log @ [(i, q, r)]) w') = tk_names (tickets_of L V w0 log w)"
  using assms by (auto simp: tickets_of_def known_def log_snoc)

lemma names_put:
  assumes "refresh_key L (rt_id v) = Inr k" "uuid_ok L" "kv_key_ok L"
  shows "tk_names (tickets_of L V w0 (log @ [(i, TokPut k v, r)]) w') = insert k (tk_names (tickets_of L V w0 log w))"
  using assms refresh_key_inj[OF assms(2,3)] by (auto simp: tickets_of_def known_def log_snoc)

lemma tickets_named:
  assumes "bucket_inv L V w0 log w"
  shows "named (tickets_of L V w0 log w)"
proof -
  have "vw_tokens V w k = Some (v, n) \<Longrightarrow> refresh_key L (rt_id v) = Inr k \<and> known V w0 log (rt_id v)" for k v n
    using assms unfolding bucket_inv_def inv_rows_def store_inv_def by blast
  then show ?thesis unfolding named_def by fastforce
qed

lemma tickets_step:
  assumes libs: "uuid_ok L" "kv_key_ok L" and inv: "bucket_inv L V w0 log w"
    and g: "token_guard L (by_task i log) q" and st: "token_step V q r w w'"
  shows "ticket_step (tickets_of L V w0 log w) (tickets_of L V w0 (log @ [(i, q, r)]) w')"
proof (cases "write_of q")
  case None
  then have "evicts V {} w w'"
    using st by (cases q; cases r) (auto simp: write_of_def token_step_def split: sum.splits)
  moreover have "q \<noteq> TokPut k v" for k v using None by (auto simp: write_of_def)
  ultimately show ?thesis by (intro ticket_step.lose tokens_lose names_snoc)
next
  case (Some kv)
  then obtain k v where kv: "write_of q = Some (k, v)" by (cases kv) auto
  note key = guarded_write(1)[OF inv g kv]
  from guarded_write(2)[OF inv g kv] show ?thesis
  proof (elim disjE exE conjE)
    assume put: "q = TokPut k v" "made_by log i (rt_id v)" "\<forall>u. \<not> put_by log i u"
    have new: "k \<notin> tk_names (tickets_of L V w0 log w)"
      using known_not_put[OF libs inv put(2,3) key] by simp
    have "writes V k v w w' \<or> evicts V {} w w'"
      using st put(1) by (cases r) (auto simp: token_step_def split: sum.splits)
    moreover have "rt_used_at v = None" using g put(1) by (auto simp: token_guard_def)
    ultimately have "loses ((tk_state (tickets_of L V w0 log w))(k \<mapsto> Unused))
        (tk_state (tickets_of L V w0 (log @ [(i, q, r)]) w'))"
    proof (elim disjE)
      assume "writes V k v w w'" "rt_used_at v = None"
      then show ?thesis using writes_lose[of V k v w w' L w0 log "log @ [(i, q, r)]"] by (simp add: ticket_of_def)
    next
      assume ev: "evicts V {} w w'"
      have "tk_state (tickets_of L V w0 log w) k = None"
        using tickets_named[OF inv] new unfolding named_def by blast
      with tokens_lose[OF ev, of L w0 log "log @ [(i, q, r)]"] show ?thesis
        unfolding loses_def by (metis fun_upd_apply)
    qed
    with new show ?thesis
      unfolding put(1) by (rule ticket_step.issue[OF _ _ names_put[OF key libs] ])
  next
    fix n row
    assume u: "q = TokUpdateIf k v n" "row_seen log k row n" "rt_used_at row = None" "rt_used_at v \<noteq> None"
    have names: "tk_names (tickets_of L V w0 (log @ [(i, q, r)]) w') = tk_names (tickets_of L V w0 log w)"
      by (rule names_snoc) (simp add: u(1))
    have "(at_revision V k n w \<and> writes V k v w w') \<or> evicts V {} w w'"
      using st u(1) by (cases r) (auto simp: token_step_def split: sum.splits fabric_error.splits)
    then show ?thesis
    proof (elim disjE conjE)
      assume "at_revision V k n w" and w: "writes V k v w w'"
      then have "vw_tokens V w k = Some (row, n)"
        using inv u(2) unfolding at_revision_def bucket_inv_def inv_seen_def by blast
      then have "tk_state (tickets_of L V w0 log w) k = Some Unused"
        using u(3) by (simp add: ticket_of_def)
      moreover have "ticket_of v = Used" using u(4) by (simp add: ticket_of_def)
      ultimately show ?thesis using ticket_step.redeem[OF _ _ names] writes_lose[OF w] by metis
    qed (intro ticket_step.lose tokens_lose names)
  qed
qed

text \<open>Every valid log refines a run of the machine.\<close>

lemma valid_log_tickets:
  assumes "uuid_ok L" "kv_key_ok L" "fabric_ok V W" "store_inv L V w0" "valid_log L W w0 log w"
    "vw_uuids V w \<noteq> UNIV"
  shows "ticket_step\<^sup>*\<^sup>* (tickets_of L V w0 [] w0) (tickets_of L V w0 log w)"
  using assms(5,6)
proof (induction log arbitrary: w rule: rev_induct)
  case Nil
  then show ?case by (simp add: valid_log_def)
next
  case (snoc e log)
  obtain i q r where e: "e = (i, q, r)" by (cases e) auto
  from valid_log_snoc[OF snoc.prems(1)[unfolded e] ] obtain w1 where
    w1: "valid_log L W w0 log w1" "W q w1 = (r, w)" "token_guard L (by_task i log) q" by blast
  have "vw_uuids V w1 \<subseteq> vw_uuids V w"
    using fabric_okD(4)[OF assms(3) w1(2)] by (simp add: uuid_step_def)
  then have free: "vw_uuids V w1 \<noteq> UNIV" using snoc.prems(2) by auto
  have "ticket_step (tickets_of L V w0 log w1) (tickets_of L V w0 (log @ [e]) w)"
    unfolding e by (rule tickets_step[OF assms(1,2) valid_log_bucket_inv[OF assms(1-4) w1(1) free] w1(3)
          fabric_okD(3)[OF assms(3) w1(2)]])
  with snoc.IH[OF w1(1) free] show ?case by (rule rtranclp.rtrancl_into_rtrancl)
qed

lemma pool_tickets:
  assumes "answer_laws L" "kv_key_ok L" "fabric_ok V W" "store_inv L V w"
    "pool_exec W sched (service_pool L S calls) w = (P', w', log)" "vw_uuids V w' \<noteq> UNIV"
  shows "ticket_step\<^sup>*\<^sup>* (tickets_of L V w [] w) (tickets_of L V w log w')"
  by (rule valid_log_tickets[OF _ assms(2-4) service_pool_valid[OF assms(5)] assms(6)])
    (use assms(1) in \<open>simp add: answer_laws_def\<close>)

text \<open>A row that is used at the start is never usable again, whatever the service does.\<close>

lemma pool_used_stays:
  assumes "answer_laws L" "kv_key_ok L" "fabric_ok V W" "store_inv L V w"
    "pool_exec W sched (service_pool L S calls) w = (P', w', log)" "vw_uuids V w' \<noteq> UNIV"
    "vw_tokens V w k = Some (row, n)" "rt_used_at row \<noteq> None" "vw_tokens V w' k = Some (row', n')"
  shows "rt_used_at row' \<noteq> None"
proof -
  have "spent (tickets_of L V w [] w) k"
    using assms(4,7,8) unfolding spent_def by (auto simp: ticket_of_def store_inv_def known_def) blast
  from spent_reachable[OF pool_tickets[OF assms(1-6)] this] show ?thesis
    using assms(9) by (auto simp: spent_def ticket_of_def split: if_splits)
qed

end
