(* ===== verification/Liveness.thy ===== *)
theory Liveness
  imports Totality Service
begin

text \<open>
  How many requests a handler makes: at most sixteen, whatever the replies. With totality this
  gives an answer to every request that the scheduler lets move often enough, no matter what the
  other requests do in between.
\<close>

primrec cost_le :: "'a prog \<Rightarrow> nat \<Rightarrow> bool" where
  "cost_le (Ret x) = (\<lambda>n. True)"
| "cost_le Panic = (\<lambda>n. True)"
| "cost_le (Call q k) = (\<lambda>n. 0 < n \<and> (\<forall>r. cost_le (k r) (n - 1)))"

named_theorems cost_parts \<open>bounds of the parts of the handlers\<close>

lemma cost_mono: "cost_le p m \<Longrightarrow> m \<le> n \<Longrightarrow> cost_le p n"
proof (induction p arbitrary: m n)
  case (Call q k)
  have m: "0 < m" "\<And>r. cost_le (k r) (m - 1)" using Call.prems(1) by simp_all
  have "m - 1 \<le> n - 1" using Call.prems(2) by simp
  then have "cost_le (k r) (n - 1)" for r by (rule Call.IH[OF rangeI m(2)])
  then show ?case using m(1) Call.prems(2) by simp
qed simp_all

lemma cost_bind:
  "cost_le m a \<Longrightarrow> (\<And>tr x. runs m tr x \<Longrightarrow> cost_le (f x) b) \<Longrightarrow> cost_le (bind m f) (a + b)"
proof (induction m arbitrary: a)
  case (Ret x)
  then show ?case using cost_mono[of "f x" b "a + b"] Ret(2)[of "[]" x] by simp
next
  case (Call q k)
  have "cost_le (bind (k r) f) (a - 1 + b)" for r
    by (rule Call.IH) (use Call.prems(1) Call.prems(2)[of "(q, r) # tr" for tr] in \<open>auto simp: runs_Call\<close>)
  then show ?case using Call.prems(1) by auto
qed simp

lemma cost_runs: "cost_le p n \<Longrightarrow> runs p tr x \<Longrightarrow> length tr \<le> n"
proof (induction p arbitrary: n tr)
  case (Call q k)
  then obtain r t where "tr = (q, r) # t" "runs (k r) t x" by (auto simp: runs_Call)
  with Call.IH[of "k r" "n - 1" t] Call.prems(1) show ?case by auto
qed simp_all

text \<open>The bound of a sequence, given the bound of its first part.\<close>

lemma cost_step: "cost_le m a \<Longrightarrow> a \<le> n \<Longrightarrow> (\<And>x. cost_le (f x) (n - a)) \<Longrightarrow> cost_le (bind m f) n"
  using cost_bind[of m a f "n - a"] by simp

lemma cost_calls [simp]:
  "cost_le (utc_now f1) n \<longleftrightarrow> 0 < n \<and> (\<forall>x. cost_le (f1 x) (n - 1))"
  "cost_le (instant_now f2) n \<longleftrightarrow> 0 < n \<and> (\<forall>x. cost_le (f2 x) (n - 1))"
  "cost_le (now_v7 f3) n \<longleftrightarrow> 0 < n \<and> (\<forall>x. cost_le (f3 x) (n - 1))"
  "cost_le (tok_put k v f5) n \<longleftrightarrow> 0 < n \<and> (\<forall>x. cost_le (f5 x) (n - 1))"
  "cost_le (tok_get k f6) n \<longleftrightarrow> 0 < n \<and> (\<forall>x. cost_le (f6 x) (n - 1))"
  "cost_le (tok_update_if k v m f5) n \<longleftrightarrow> 0 < n \<and> (\<forall>x. cost_le (f5 x) (n - 1))"
  "cost_le (fam_put k w f5) n \<longleftrightarrow> 0 < n \<and> (\<forall>x. cost_le (f5 x) (n - 1))"
  "cost_le (fam_get k f7) n \<longleftrightarrow> 0 < n \<and> (\<forall>x. cost_le (f7 x) (n - 1))"
  "cost_le (pl_get k f8) n \<longleftrightarrow> 0 < n \<and> (\<forall>x. cost_le (f8 x) (n - 1))"
  "cost_le (jwks_read i f9) n \<longleftrightarrow> 0 < n \<and> (\<forall>x. cost_le (f9 x) (n - 1))"
  "cost_le (jwks_write i ks p) n \<longleftrightarrow> 0 < n \<and> cost_le p (n - 1)"
  "cost_le (last_read i f2) n \<longleftrightarrow> 0 < n \<and> (\<forall>x. cost_le (f2 x) (n - 1))"
  "cost_le (last_write i t p) n \<longleftrightarrow> 0 < n \<and> cost_le p (n - 1)"
  "cost_le (http_get u f10) n \<longleftrightarrow> 0 < n \<and> (\<forall>x. cost_le (f10 x) (n - 1))"
  by (auto simp: call_defs split: reply.splits)

lemma cost_cases [simp]:
  "cost_le (case s of Inl e \<Rightarrow> a e | Inr x \<Rightarrow> b x) n \<longleftrightarrow>
     (\<forall>e. s = Inl e \<longrightarrow> cost_le (a e) n) \<and> (\<forall>x. s = Inr x \<longrightarrow> cost_le (b x) n)"
  "cost_le (case oo of None \<Rightarrow> p | Some x \<Rightarrow> c x) n \<longleftrightarrow>
     (oo = None \<longrightarrow> cost_le p n) \<and> (\<forall>x. oo = Some x \<longrightarrow> cost_le (c x) n)"
  "cost_le (case pr of (x, y) \<Rightarrow> d x y) n \<longleftrightarrow> (\<forall>x y. pr = (x, y) \<longrightarrow> cost_le (d x y) n)"
  "cost_le (if t then p else q) n \<longleftrightarrow> (t \<longrightarrow> cost_le p n) \<and> (\<not> t \<longrightarrow> cost_le q n)"
  "cost_le (case je of Expired \<Rightarrow> p | Invalid m \<Rightarrow> f m) n \<longleftrightarrow>
     (je = Expired \<longrightarrow> cost_le p n) \<and> (\<forall>m. je = Invalid m \<longrightarrow> cost_le (f m) n)"
  "cost_le (case re of Reuse x \<Rightarrow> g x | RotStore e \<Rightarrow> h e) n \<longleftrightarrow>
     (\<forall>x. re = Reuse x \<longrightarrow> cost_le (g x) n) \<and> (\<forall>e. re = RotStore e \<longrightarrow> cost_le (h e) n)"
  "cost_le (case se of StoreOpen a' \<Rightarrow> f1 a' | StoreKv b' \<Rightarrow> f2 b' | StoreKey c' \<Rightarrow> f3 c' | StoreConflict d' \<Rightarrow> f4 d') n \<longleftrightarrow>
     (\<forall>x. se = StoreOpen x \<longrightarrow> cost_le (f1 x) n) \<and> (\<forall>x. se = StoreKv x \<longrightarrow> cost_le (f2 x) n) \<and>
     (\<forall>x. se = StoreKey x \<longrightarrow> cost_le (f3 x) n) \<and> (\<forall>x. se = StoreConflict x \<longrightarrow> cost_le (f4 x) n)"
  by (auto split: sum.splits option.splits prod.splits jwt_error.splits rotation_error.splits store_error.splits)

section \<open>Parts\<close>

lemma cost_simple:
  "cost_le (verify_access_token L svc t) 1" "cost_le (verify_refresh_token L svc t) 1"
  "cost_le (sign_access_token L svc e) 1" "cost_le (sign_refresh_token L svc e) 2"
  "cost_le (find_by_id L u) 1" "cost_le (is_family_revoked L f) 1" "cost_le (revoke_family L f) 2"
  "cost_le (store L v) 1" "cost_le (mark_used L old rb m) 2" "cost_le (resolve L key t) 1"
  "cost_le (set_two_cookies L c1 c2 resp) 0" "cost_le (append_session_cookie_if_needed L S ex resp) 1"
  by (simp_all add: verify_access_token_def verify_refresh_token_def sign_access_token_def
      sign_refresh_token_def find_by_id_def is_family_revoked_def revoke_family_def store_def
      mark_used_def resolve_def Let_def set_two_cookies_def append_session_cookie_if_needed_def parse_header_def
      del: One_nat_def)

lemma cost_session [simp]: "cost_le (append_session_cookie_if_needed L S ex resp) (Suc 0)"
  using cost_simple(12) by simp

lemma cost_rotate: "cost_le (rotate_token L old n new) 5"
  unfolding rotate_token_def
  by (auto intro!: cost_step[OF cost_simple(7)] cost_step[OF cost_simple(8)] cost_step[OF cost_simple(9)])

lemma cost_renewal: "cost_le (renewal L S jwt) 12"
  unfolding renewal_def renewal_rotate_def
  by (auto intro!: cost_step[OF cost_simple(2)] cost_step[OF cost_simple(3)] cost_step[OF cost_simple(4)]
      cost_step[OF cost_simple(5)] cost_step[OF cost_simple(6)] cost_step[OF cost_rotate])

lemma cost_refresh_jwks: "cost_le (refresh_jwks L i p) 6"
  by (simp add: refresh_jwks_def)

lemma cost_verify_id_token: "cost_le (verify_id_token L ps t) 9"
proof -
  have k: "cost_le (resolve_key L i p kid) 8" for i p kid
    by (auto simp: resolve_key_def intro!: cost_step[OF cost_refresh_jwks])
  have s: "cost_le (resolve_single_key i p) 8" for i p by (simp add: resolve_single_key_def)
  have "cost_le (case o' of Some kid \<Rightarrow> resolve_key L i p kid | None \<Rightarrow> resolve_single_key i p) 8" for o' i p
    using k s by (cases o') auto
  then show ?thesis
    unfolding verify_id_token_def
    by (auto simp: verify_with_key_def Let_def intro!: cost_step[of _ 8])
qed

section \<open>Handlers\<close>

lemma cost_answers: "cost_le (refresh_answer L S out) 0" "cost_le (check_answer L S out) 0"
  "cost_le (clear_cookies_response L S) 0"
  using cost_simple(11)
  by (cases out; auto simp: token_cookies_def clear_cookies_response_def intro!: cost_step[OF cost_simple(11)])+

lemma cost_refresh_handler: "cost_le (refresh_handler L S h b) 13"
proof -
  have "cost_le (handle_refresh L S b' h) 12" for b'
    unfolding handle_refresh_renewal
    by (auto intro!: cost_step[OF cost_renewal] cost_answers)
  moreover have "cost_le (refresh_finish L S h res) 1" for res
    unfolding refresh_finish_def
    by (rule cost_step[of _ 0]) (auto simp: Let_def cost_simple(11) cost_simple(12) split: sum.split)
  ultimately show ?thesis
    unfolding refresh_handler_finish by (intro cost_step[of _ 12]) auto
qed

lemma cost_silent_refresh: "cost_le (silent_refresh L S h) 12"
  unfolding silent_refresh_renewal
  by (auto simp: clear_access_cookie_response_def parse_header_def split: option.split
      intro!: cost_step[OF cost_renewal] cost_answers)

lemma cost_auth_check: "cost_le (auth_check_handler L S h) 14"
proof -
  have "cost_le (handle_jwt_cookie L S t h) 13" for t
    unfolding handle_jwt_cookie_def
    using cost_mono[OF cost_silent_refresh[of L S h], of 12] cost_mono[OF cost_answers(3)[of L S], of 12]
    by (intro cost_step[OF cost_simple(1)]) auto
  moreover have "cost_le (handle_bearer L S v) 14" for v
    unfolding handle_bearer_def resolved_bearer_response_def
    by (auto simp: Let_def parse_header_def split: option.split intro!: cost_step[OF cost_simple(10)])
  moreover have "cost_le (append_session_cookie_if_needed L S ex r) 14" for ex r
    by (rule cost_mono[OF cost_simple(12)]) simp
  ultimately show ?thesis
    unfolding auth_check_handler_def Let_def
    by (auto simp: cost_simple(12) split: option.split intro!: cost_step[of _ 13])
qed

lemma cost_token_handler: "cost_le (token_handler L S h b) 16"
proof -
  have "cost_le (handle_token L S b') 15" for b'
    unfolding handle_token_def
    by (auto simp: Let_def intro!: cost_step[OF cost_verify_id_token] cost_step[OF cost_simple(3)]
        cost_step[OF cost_simple(4)] cost_step[OF cost_simple(8)] cost_step[OF cost_simple(11)] split: option.split)
  then show ?thesis
    unfolding token_handler_def Let_def
    by (auto intro!: cost_step[of _ 15] simp: cost_simple(12) split: option.split)
qed

lemma cost_logout: "cost_le (logout_handler L S h) 4"
proof -
  have "cost_le (logout_revocation L S h) 4"
    unfolding logout_revocation_def
    by (auto intro!: cost_step[OF cost_simple(2)] cost_step[OF cost_simple(5)] cost_step[OF cost_simple(7)] split: option.split)
  then show ?thesis
    unfolding logout_handler_def by (intro cost_step[of _ 4]) (auto simp: cost_simple(11))
qed

lemma cost_serve: "cost_le (serve L S c) 16"
  by (cases c)
    (auto intro: cost_mono[OF cost_auth_check] cost_token_handler cost_mono[OF cost_refresh_handler] cost_mono[OF cost_logout])

lemma total_serve: "answer_laws L \<Longrightarrow> total (serve L S c)"
  by (cases c) (auto intro: total_parts)

section \<open>Answers under any scheduling\<close>

lemma cost_pool:
  assumes "\<forall>q w r w'. W q w = (r, w') \<longrightarrow> well_kinded q r"
    "pool_exec W sched P w = (P', w', log)" "total (P i)" "cost_le (P i) (count_list sched i)"
  shows "\<exists>y. P' i = Ret y"
  using assms
proof (induction W sched P w arbitrary: P' w' log rule: pool_exec.induct)
  case (1 W P w)
  then show ?case by (cases "P i") auto
next
  case (2 W j "is" P w)
  note wk = "2.prems"(1)
  have rest: "cost_le (P i) (count_list is i)" if "j = i \<longrightarrow> (\<exists>y. P i = Ret y)"
    using that "2.prems"(4) by (cases "j = i") auto
  show ?case
  proof (cases "P j")
    case (Call q k)
    obtain r w1 where r: "W q w = (r, w1)" by (cases "W q w") auto
    obtain Q v l where Q: "pool_exec W is (P(j := k r)) w1 = (Q, v, l)" by (metis prod_cases3)
    with "2.prems"(2) Call r have eq: "P' = Q" by auto
    have "well_kinded q r" using wk r by blast
    then have "total ((P(j := k r)) i)" "cost_le ((P(j := k r)) i) (count_list is i)"
      using "2.prems"(3,4) Call by (cases "j = i"; simp)+
    from "2.IH"(3)[OF Call r[symmetric] wk Q this] eq show ?thesis by simp
  next
    case (Ret x)
    then have "pool_exec W is P w = (P', w', log)" using "2.prems"(2) by simp
    from "2.IH"(1)[OF Ret wk this "2.prems"(3) rest] Ret show ?thesis by auto
  next
    case Panic
    then have "pool_exec W is P w = (P', w', log)" "j \<noteq> i" using "2.prems"(2,3) by auto
    from "2.IH"(2)[OF Panic wk this(1) "2.prems"(3) rest] this(2) show ?thesis by auto
  qed
qed

end
