(* ===== verification/Token_Properties.thy ===== *)
theory Token_Properties
  imports Reference_Run
begin

text \<open>
  The properties of the tokens and cookies: \<open>src/jwt.rs\<close> and \<open>src/cookie.rs\<close>. Each is stated for
  every library with its documented behaviour, and witnessed on the reference library.
\<close>

section \<open>Signed tokens on the reference library\<close>

abbreviation at_sec :: "int \<Rightarrow> event list" where
  "at_sec n \<equiv> [(UtcNow, RUtc (n * 1000000000))]"

lemma demo_signs:
  "\<exists>a. runs (sign_access_token ref_lib demo_jwt ''e'') (at_sec 1) (Inr a)"
  "\<exists>r. runs (sign_refresh_token ref_lib demo_jwt ''e'') ((NowV7, RUuid 3) # at_sec 1) (Inr (r, 3))"
  unfolding runs_sign_access runs_sign_refresh_iff
  by (simp_all add: ref_fields ref_jwt_encode_def access_claims_to_json_def refresh_claims_to_json_def)

lemma demo_fits:
  "fits 1000000000 (js_access_ttl_secs demo_jwt)" "fits 1000000000 (js_refresh_ttl_secs demo_jwt)"
  "js_encoding_key demo_jwt = js_decoding_key demo_jwt"
  by (simp_all add: fits_def timestamp_def demo_jwt_def jwt_service_new_def)

section \<open>Round trips and expiry\<close>

text \<open>
  C15. An access token that the service signs is accepted by \<open>verify_access_token\<close> exactly until five
  seconds (the leeway) after its lifetime, with the claims it was signed with; after that it is
  reported as expired. (For lifetimes that do not overflow the clock.)
\<close>

theorem access_token_roundtrip:
  assumes "jwt_ok L" "js_encoding_key svc = js_decoding_key svc"
    "runs (sign_access_token L svc e) [(UtcNow, RUtc t)] (Inr a)"
    "fits t (js_access_ttl_secs svc)" "0 \<le> sint (timestamp t')"
  shows "runs (verify_access_token L svc a) [(UtcNow, RUtc t')] res \<longleftrightarrow>
    res = (if sint (timestamp t') \<le> sint (timestamp t) + uint (js_access_ttl_secs svc) + 5
           then Inr \<lparr>ac_sub = e, ac_iss = js_issuer svc, ac_iat = timestamp t,
                     ac_exp = timestamp t + js_access_ttl_secs svc\<rparr>
           else Inl Expired)"
  by (rule access_verified[OF assms])

lemma access_token_roundtrip_witness:
  "\<exists>a. runs (sign_access_token ref_lib demo_jwt ''e'') (at_sec 1) (Inr a) \<and>
     runs (verify_access_token ref_lib demo_jwt a) (at_sec 906)
       (Inr \<lparr>ac_sub = ''e'', ac_iss = ''i'', ac_iat = 1, ac_exp = 901\<rparr>) \<and>
     runs (verify_access_token ref_lib demo_jwt a) (at_sec 907) (Inl Expired)"
proof -
  obtain a where a: "runs (sign_access_token ref_lib demo_jwt ''e'') (at_sec 1) (Inr a)"
    using demo_signs(1) by blast
  note rt = access_token_roundtrip[OF ref_jwt_ok demo_fits(3) a]
  have "0 \<le> sint (timestamp (906 * 1000000000))" "0 \<le> sint (timestamp (907 * 1000000000))"
    by (simp_all add: timestamp_def)
  from rt[OF _ this(1)] rt[OF _ this(2)] a demo_fits(1) show ?thesis
    by (intro exI[of _ a]) (simp add: timestamp_def demo_jwt_def jwt_service_new_def)
qed

text \<open>
  C16. A refresh token that the service signs is accepted by \<open>verify_refresh_token\<close> exactly until five
  seconds after its lifetime, if that does not overflow the clock, and carries the subject and, as \<open>jti\<close>,
  the id it was signed with.
\<close>

theorem refresh_token_roundtrip:
  assumes "jwt_ok L" "uuid_ok L" "js_encoding_key svc = js_decoding_key svc"
    "runs (sign_refresh_token L svc e) [(NowV7, RUuid u), (UtcNow, RUtc t)] (Inr (r, u))"
    "fits t (js_refresh_ttl_secs svc)" "0 \<le> sint (timestamp t')"
    "runs (verify_refresh_token L svc r) [(UtcNow, RUtc t')] res"
  shows "if sint (timestamp t') \<le> sint (timestamp t) + uint (js_refresh_ttl_secs svc) + 5
    then \<exists>c. res = Inr c \<and> rc_sub c = e \<and> rc_iss c = js_issuer svc \<and> uuid_parse_str L (rc_jti c) = Some u \<and>
      sint (rc_exp c) = sint (timestamp t) + uint (js_refresh_ttl_secs svc)
    else res = Inl Expired"
  using refresh_verified(1)[OF assms(1,3-6), of res] assms(2,5,7) by (simp add: uuid_ok_def fits_exp)

lemma refresh_token_roundtrip_witness:
  "\<exists>r c. runs (verify_refresh_token ref_lib demo_jwt r) (at_sec 86406) (Inr c) \<and>
     rc_sub c = ''e'' \<and> uuid_parse_str ref_lib (rc_jti c) = Some 3"
proof -
  obtain r where r: "runs (sign_refresh_token ref_lib demo_jwt ''e'') ((NowV7, RUuid 3) # at_sec 1) (Inr (r, 3))"
    using demo_signs(2) by blast
  obtain res where res: "runs (verify_refresh_token ref_lib demo_jwt r) (at_sec 86406) res"
    by (simp add: verify_refresh_token_def runs_calls)
  have "0 \<le> sint (timestamp (86406 * 1000000000))" by (simp add: timestamp_def)
  from refresh_token_roundtrip[OF ref_jwt_ok ref_uuid_ok demo_fits(3) r _ this res] demo_fits(2)
  have "\<exists>c. res = Inr c \<and> rc_sub c = ''e'' \<and> uuid_parse_str ref_lib (rc_jti c) = Some 3"
    by (simp add: timestamp_def demo_jwt_def jwt_service_new_def) blast
  with res show ?thesis by blast
qed

text \<open>
  C34. A refresh token is accepted by \<open>verify_access_token\<close> too, for its whole lifetime: nothing in the
  claims tells the two kinds apart, and the access validation asks for no claim a refresh token lacks.
  (For lifetimes that do not overflow the clock.)
\<close>

theorem refresh_token_passes_as_access:
  assumes "jwt_ok L" "js_encoding_key svc = js_decoding_key svc"
    "runs (sign_refresh_token L svc e) [(NowV7, RUuid u), (UtcNow, RUtc t)] (Inr (r, u))"
    "fits t (js_refresh_ttl_secs svc)" "0 \<le> sint (timestamp t')"
    "sint (timestamp t') \<le> sint (timestamp t) + uint (js_refresh_ttl_secs svc) + 5"
  shows "\<exists>c. runs (verify_access_token L svc r) [(UtcNow, RUtc t')] (Inr c) \<and> ac_sub c = e"
  unfolding refresh_verified(2)[OF assms(1-5)] using assms(6) by simp

lemma refresh_token_passes_as_access_witness:
  "\<exists>r c. runs (verify_access_token ref_lib demo_jwt r) (at_sec 86400) (Inr c) \<and> ac_sub c = ''e''"
proof -
  obtain r where r: "runs (sign_refresh_token ref_lib demo_jwt ''e'') ((NowV7, RUuid 3) # at_sec 1) (Inr (r, 3))"
    using demo_signs(2) by blast
  have "0 \<le> sint (timestamp (86400 * 1000000000))" by (simp add: timestamp_def)
  from refresh_token_passes_as_access[OF ref_jwt_ok demo_fits(3) r _ this] demo_fits(2)
  show ?thesis by (simp add: timestamp_def demo_jwt_def jwt_service_new_def) blast
qed

text \<open>
  C35. An access token, with a lifetime that does not overflow the clock, is never accepted as a refresh
  token: it has no \<open>jti\<close>.
\<close>

theorem access_token_never_refreshes:
  assumes "jwt_ok L" "runs (sign_access_token L svc e) [(UtcNow, RUtc t)] (Inr a)" "fits t (js_access_ttl_secs svc)"
  shows "\<not> runs (verify_refresh_token L svc a) tr (Inr c)"
  by (rule access_not_refresh[OF assms])

lemma access_token_never_refreshes_witness:
  "\<exists>a. runs (sign_access_token ref_lib demo_jwt ''e'') (at_sec 1) (Inr a) \<and>
     \<not> runs (verify_refresh_token ref_lib demo_jwt a) (at_sec 2) (Inr demo_claims)"
proof -
  obtain a where a: "runs (sign_access_token ref_lib demo_jwt ''e'') (at_sec 1) (Inr a)"
    using demo_signs(1) by blast
  have "fits (1 * 1000000000) (js_access_ttl_secs demo_jwt)" using demo_fits(1) by simp
  from access_token_never_refreshes[OF ref_jwt_ok a this] a show ?thesis by blast
qed

text \<open>
  C17. Whatever text is presented, verification accepts it only for the service's own issuer and no
  later than five seconds after the expiry that it carries.
\<close>

theorem verification_sound:
  assumes "jwt_ok L"
  shows "(runs (verify_access_token L svc token) [(UtcNow, RUtc t)] (Inr c) \<longrightarrow>
      ac_iss c = js_issuer svc \<and> sint (timestamp t) \<le> sint (ac_exp c) + 5) \<and>
    (runs (verify_refresh_token L svc token) [(UtcNow, RUtc t)] (Inr d) \<longrightarrow>
      rc_iss d = js_issuer svc \<and> sint (timestamp t) \<le> sint (rc_exp d) + 5)"
  using verified_sound[OF assms] by blast

lemma demo_verifies: "runs (verify_refresh_token ref_lib demo_jwt demo_token) (at_sec 1) (Inr demo_claims)"
  unfolding feed_runs by code_simp

lemma verification_sound_witness:
  "runs (verify_refresh_token ref_lib demo_jwt demo_token) (at_sec 1) (Inr demo_claims) \<and>
     rc_iss demo_claims = js_issuer demo_jwt \<and> sint (timestamp (1 * 1000000000)) \<le> sint (rc_exp demo_claims) + 5"
  using verification_sound[OF ref_jwt_ok, of demo_jwt demo_token] demo_verifies by blast

text \<open>
  C36. The expiry written into an access token is the signing time plus the lifetime while the sum
  fits into a signed 64-bit number; above, it wraps to a time before the signing.
\<close>

theorem expiry_width:
  assumes "0 \<le> sint (timestamp t)" "runs (sign_access_token L svc e) [(UtcNow, RUtc t)] (Inr a)"
  shows "\<exists>c. jwt_encode L (js_encoding_key svc) (access_claims_to_json c) = Inr a \<and> ac_sub c = e \<and>
    (let n = sint (timestamp t) + uint (js_access_ttl_secs svc) in
     if n < 2 ^ 63 then sint (ac_exp c) = n
     else sint (ac_exp c) = n - 2 ^ 64 \<and> sint (ac_exp c) < sint (timestamp t))"
proof -
  let ?c = "\<lparr>ac_sub = e, ac_iss = js_issuer svc, ac_iat = timestamp t, ac_exp = timestamp t + js_access_ttl_secs svc\<rparr>"
  have "jwt_encode L (js_encoding_key svc) (access_claims_to_json ?c) = Inr a"
    using assms(2) by (simp add: runs_sign_access)
  moreover have "uint (js_access_ttl_secs svc) < 2 ^ 64"
    using unsigned_less[of "js_access_ttl_secs svc", where ?'a = int] by simp
  ultimately show ?thesis
    using sint_exp_wraps[OF assms(1), of "js_access_ttl_secs svc"]
    by (intro exI[of _ ?c]) (simp add: Let_def del: power_numeral split: if_splits)
qed

lemma expiry_width_witness:
  "\<exists>a c. ref_jwt_encode (as_bytes ''k'') (access_claims_to_json c) = Inr a \<and> sint (ac_exp c) < 1"
proof -
  let ?svc = "jwt_service_new ''k'' ''i'' (- 1) 1"
  obtain a where a: "runs (sign_access_token ref_lib ?svc ''e'') (at_sec 1) (Inr a)"
    unfolding runs_sign_access by (simp add: ref_fields ref_jwt_encode_def access_claims_to_json_def)
  have "0 \<le> sint (timestamp (1 * 1000000000))" by (simp add: timestamp_def)
  moreover have "uint (js_access_ttl_secs ?svc) = 2 ^ 64 - 1" by (simp add: jwt_service_new_def unsigned_minus_1_eq_mask mask_eq_exp_minus_1)
  moreover have "sint (timestamp (1 * 1000000000)) = 1" by (simp add: timestamp_def)
  moreover have "js_encoding_key ?svc = as_bytes ''k''" "jwt_encode ref_lib = ref_jwt_encode"
    by (simp_all add: jwt_service_new_def ref_lib_def)
  ultimately show ?thesis using expiry_width[OF _ a] by (auto simp: Let_def)
qed

text \<open>
  C28. The cookies of a sign-in come back: from the \<open>Set-Cookie\<close> pairs of the two built cookies, in one
  \<open>Cookie\<close> header, the handlers extract the two tokens that went in.
\<close>

theorem token_cookies_roundtrip:
  assumes "http_ok L" "list_all token_char a" "list_all token_char r"
    "headers COOKIE = Some (cookie_pair (build_access_cookie a c) @ ''; '' @ cookie_pair (build_refresh_cookie r c))"
  shows "extract_access_cookie L headers c = Some a \<and> extract_refresh_cookie L headers c = Some r"
  using cookies_roundtrip(1)[OF assms(1-3), of headers c] cookies_roundtrip(2)[OF assms(1-3), of headers c] assms(4) by simp

lemma token_cookies_roundtrip_witness:
  "let c = cookie_config_new True 60 30;
       h = [COOKIE \<mapsto> cookie_pair (build_access_cookie ''a1'' c) @ ''; '' @ cookie_pair (build_refresh_cookie ''r2'' c)] in
   extract_access_cookie ref_lib h c = Some ''a1'' \<and> extract_refresh_cookie ref_lib h c = Some ''r2''"
proof -
  have "list_all token_char ''a1''" "list_all token_char ''r2''" by (simp_all add: token_char_def ascii_visible_def)
  from token_cookies_roundtrip[OF ref_http_ok this] show ?thesis by (simp add: Let_def)
qed

text \<open>
  The attributes of the token cookies: never readable by scripts, never sent cross-site, on the
  whole path; with secure cookies also \<open>Secure\<close> and a \<open>__Host-\<close> name (which a user agent accepts only
  with \<open>Secure\<close>, \<open>Path=/\<close> and no \<open>Domain\<close>). The clearing cookie is the same cookie with no value and no lifetime.
\<close>

theorem token_cookie_attributes:
  assumes "list_all token_char t"
  shows "cookie_attributes (build_refresh_cookie t c) =
      [''HttpOnly''] @ (if cc_secure c then [''Secure''] else []) @
      [''SameSite=Strict'', ''Path=/'', ''Max-Age='' @ show_nat (unat (cc_refresh_max_age c))] \<and>
    cookie_pair (build_refresh_cookie t c) = refresh_cookie_name c @ ''='' @ t \<and>
    (cc_secure c \<longrightarrow> prefix ''__Host-'' (refresh_cookie_name c)) \<and>
    cookie_pair (build_clear_refresh_cookie c) = refresh_cookie_name c @ ''='' \<and>
    last (cookie_attributes (build_clear_refresh_cookie c)) = ''Max-Age=0''"
proof -
  have "CHR '';'' \<notin> set t" using assms by (auto simp: list_all_iff token_char_def)
  note built = cookie_attributes_build[OF cookie_names(4)[of c] this] cookie_pair_build[OF cookie_names(4)[of c] this]
  have "CHR '';'' \<notin> set []" by simp
  note cleared = cookie_attributes_build[OF cookie_names(4)[of c] this] cookie_pair_build[OF cookie_names(4)[of c] this]
  have "show_nat 0 = ''0''" by code_simp
  then show ?thesis
    using built cleared by (auto simp: build_refresh_cookie_def build_clear_refresh_cookie_def refresh_cookie_name_def)
qed

lemma token_cookie_attributes_witness:
  "cookie_attributes (build_refresh_cookie ''t'' (cookie_config_new True 60 30)) =
     [''HttpOnly'', ''Secure'', ''SameSite=Strict'', ''Path=/'', ''Max-Age=60'']"
proof -
  have "list_all token_char ''t''" by (simp add: token_char_def ascii_visible_def)
  moreover have "show_nat 60 = ''60''" by code_simp
  ultimately show ?thesis
    using token_cookie_attributes[of "''t''" "cookie_config_new True 60 30"] by (simp add: cookie_config_new_def)
qed

text \<open>
  C29. Extraction is a lookup: for the pairs of any well-formed \<open>Cookie\<close> header, the value extracted
  under a name is the first one sent under exactly that name.
\<close>

theorem extraction_is_lookup:
  assumes "http_ok L" "headers COOKIE = Some (cookie_header ps)" "list_all wf_pair ps" "CHR ''='' \<notin> set name"
  shows "extract_cookie L headers name = map_of ps name"
  using assms by (rule extract_cookie_lookup)

lemma extraction_is_lookup_witness:
  "extract_cookie ref_lib [COOKIE \<mapsto> ''xa=1; a=2; a=3''] ''a'' = Some ''2''"
proof -
  let ?ps = "[(''xa'', ''1''), (''a'', ''2''), (''a'', ''3'')]"
  have "list_all wf_pair ?ps" by (simp add: wf_pair_def is_ws_def ascii_visible_def)
  from extraction_is_lookup[OF ref_http_ok _ this, of "[COOKIE \<mapsto> ''xa=1; a=2; a=3'']" "''a''"]
  show ?thesis by simp
qed

end
