(* ===== verification/Atomic.thy ===== *)
theory Atomic
  imports Effects
begin

text \<open>
  Operations that take effect at one moment. A task may make several requests, but only the last one
  touches the shared object; then any interleaving of such tasks does to the object what a
  sequential run of the abstract operations does, in the order in which the tasks make their last
  requests. The interface \<open>atomic_object\<close> states that of one operation; its client is the pool.
\<close>

section \<open>The interface\<close>

text \<open>
  The object is what the world keeps for the tasks, of type \<open>'b\<close>; \<open>law q r b b'\<close>: a request \<open>q\<close>
  answered by \<open>r\<close> may take it from \<open>b\<close> to \<open>b'\<close>. All requests but the last leave the object as it
  is; the last one and the value returned after it are a step of the specification.
\<close>

primrec one_effect ::
  "(request \<Rightarrow> reply \<Rightarrow> 'b \<Rightarrow> 'b \<Rightarrow> bool) \<Rightarrow> ('a \<Rightarrow> 'b \<Rightarrow> 'b \<Rightarrow> bool) \<Rightarrow> 'a prog \<Rightarrow> bool" where
  "one_effect law spec (Ret a) = True"
| "one_effect law spec Panic = True"
| "one_effect law spec (Call q k) = (\<forall>r. well_kinded q r \<longrightarrow> one_effect law spec (k r) \<and>
     (\<forall>b b'. law q r b b' \<longrightarrow> (case k r of Ret a \<Rightarrow> spec a b b' | _ \<Rightarrow> b' = b)))"

lemma one_effect_calls [simp]:
  "one_effect law spec (gen_nonce f) \<longleftrightarrow> (\<forall>n. length n = 12 \<longrightarrow> one_effect law spec (f n) \<and>
     (\<forall>b b'. law GenNonce (RNonce n) b b' \<longrightarrow> (case f n of Ret a \<Rightarrow> spec a b b' | _ \<Rightarrow> b' = b)))"
  "one_effect law spec (pl_get k g) \<longleftrightarrow> (\<forall>x. one_effect law spec (g x) \<and>
     (\<forall>b b'. law (PlGet k) (RSealed x) b b' \<longrightarrow> (case g x of Ret a \<Rightarrow> spec a b b' | _ \<Rightarrow> b' = b)))"
  "one_effect law spec (pl_put k s h) \<longleftrightarrow> (\<forall>x. one_effect law spec (h x) \<and>
     (\<forall>b b'. law (PlPut k s) (RDone x) b b' \<longrightarrow> (case h x of Ret a \<Rightarrow> spec a b b' | _ \<Rightarrow> b' = b)))"
  "one_effect law spec (pl_retract k h) \<longleftrightarrow> (\<forall>x. one_effect law spec (h x) \<and>
     (\<forall>b b'. law (PlRetract k) (RDone x) b b' \<longrightarrow> (case h x of Ret a \<Rightarrow> spec a b b' | _ \<Rightarrow> b' = b)))"
  by (auto simp: call_defs split: reply.splits)

lemma last_request [simp]: "(case pl_put k s h of Ret a \<Rightarrow> f a | Panic \<Rightarrow> y | Call q c \<Rightarrow> y) = y"
  by (simp add: call_defs)

locale atomic_object =
  fixes law :: "request \<Rightarrow> reply \<Rightarrow> 'b \<Rightarrow> 'b \<Rightarrow> bool"
    and spec :: "'c \<Rightarrow> 'a \<Rightarrow> 'b \<Rightarrow> 'b \<Rightarrow> bool"
    and task :: "'c \<Rightarrow> 'a prog"
  assumes atomic: "one_effect law (spec c) (task c)"

section \<open>Pools of tasks\<close>

text \<open>One task per call; a world that keeps to the law.\<close>

definition task_pool :: "('c \<Rightarrow> 'a prog) \<Rightarrow> 'c list \<Rightarrow> 'a pool" where
  "task_pool task cs i = (if i < length cs then task (cs ! i) else Panic)"

definition lawful :: "(request \<Rightarrow> reply \<Rightarrow> 'b \<Rightarrow> 'b \<Rightarrow> bool) \<Rightarrow> ('w \<Rightarrow> 'b) \<Rightarrow> 'w world \<Rightarrow> bool" where
  "lawful law B W \<longleftrightarrow> (\<forall>q w r w'. W q w = (r, w') \<longrightarrow> well_kinded q r \<and> law q r (B w) (B w'))"

lemma lawfulD: "lawful law B W \<Longrightarrow> W q w = (r, w') \<Longrightarrow> well_kinded q r \<and> law q r (B w) (B w')"
  unfolding lawful_def by blast

text \<open>The tasks that return while a log is made, in the order of their last requests.\<close>

fun completions :: "'a pool \<Rightarrow> (nat \<times> event) list \<Rightarrow> nat list" where
  "completions P [] = []"
| "completions P ((i, q, r) # log) =
     (case P i of
        Call q' k \<Rightarrow> (case k r of
            Ret _ \<Rightarrow> i # completions (P(i := k r)) log
          | _ \<Rightarrow> completions (P(i := k r)) log)
      | _ \<Rightarrow> completions P log)"

text \<open>A sequential run of the specification, with the answers that the tasks have returned.\<close>

fun sequential :: "(nat \<Rightarrow> 'a \<Rightarrow> 'b \<Rightarrow> 'b \<Rightarrow> bool) \<Rightarrow> 'a pool \<Rightarrow> nat list \<Rightarrow> 'b \<Rightarrow> 'b \<Rightarrow> bool" where
  "sequential spec P [] b b' = (b' = b)"
| "sequential spec P (i # is) b b' = (\<exists>a b1. P i = Ret a \<and> spec i a b b1 \<and> sequential spec P is b1 b')"

lemma sequential_abs:
  "sequential (\<lambda>i a b b'. spec i a (f b) (f b')) P is b b' \<Longrightarrow> sequential spec P is (f b) (f b')"
  by (induction "is" arbitrary: b) auto

lemma completions_distinct:
  assumes "pool_exec W sched P w = (P', w', log)"
  shows "distinct (completions P log)" "set (completions P log) = {i. (\<exists>q k. P i = Call q k) \<and> (\<exists>a. P' i = Ret a)}"
proof -
  have "distinct (completions P log) \<and> set (completions P log) = {i. (\<exists>q k. P i = Call q k) \<and> (\<exists>a. P' i = Ret a)}"
    using assms
  proof (induction W sched P w arbitrary: P' w' log rule: pool_exec.induct)
    case (2 W i "is" P w)
    show ?case
    proof (cases "P i")
      case (Call q k)
      obtain r w1 where r: "W q w = (r, w1)" by (cases "W q w") auto
      obtain Q v l where Q: "pool_exec W is (P(i := k r)) w1 = (Q, v, l)" by (metis prod_cases3)
      with "2.prems" Call r have eq: "P' = Q" "log = (i, q, r) # l" by auto
      note IH = "2.IH"(3)[OF Call r[symmetric] Q]
      have Ret: "Q i = Ret a" if "k r = Ret a" for a
        using pool_exec_steps[OF Q, of i] that by (simp add: steps_Ret_iff)
      have Panic: "Q i = Panic" if "k r = Panic"
        using pool_exec_steps[OF Q, of i] that by (simp add: steps_Panic_iff)
      let ?c = "completions (P(i := k r)) l" and ?R = "\<lambda>j. (\<exists>q k. P j = Call q k) \<and> (\<exists>a. Q j = Ret a)"
      have d: "distinct ?c" by (rule conjunct1[OF IH])
      have P: "\<exists>q k. P i = Call q k" using Call by blast
      have s: "j \<in> set ?c \<longleftrightarrow> (if j = i then (\<exists>q' k'. k r = Call q' k') \<and> (\<exists>a. Q i = Ret a) else ?R j)" for j
        unfolding conjunct2[OF IH] by simp
      show ?thesis
      proof (cases "k r")
        case r': (Ret a)
        have c: "completions P log = i # ?c" by (simp add: eq Call r' del: fun_upd_apply)
        have "j \<in> set (completions P log) \<longleftrightarrow> ?R j" for j
          unfolding c using s[of j] P Ret[OF r'] by (cases "j = i") simp_all
        moreover have "i \<notin> set ?c" using s[of i] r' by simp
        ultimately show ?thesis using d by (simp add: c eq(1) set_eq_iff)
      next
        case p: Panic
        have c: "completions P log = ?c" by (simp add: eq Call p del: fun_upd_apply)
        have "j \<in> set (completions P log) \<longleftrightarrow> ?R j" for j
          unfolding c using s[of j] Panic[OF p] by (cases "j = i") simp_all
        then show ?thesis using d by (simp add: c eq(1) set_eq_iff)
      next
        case k': (Call q' k')
        have c: "completions P log = ?c" by (simp add: eq Call k' del: fun_upd_apply)
        have "j \<in> set (completions P log) \<longleftrightarrow> ?R j" for j
          unfolding c using s[of j] P k' by (cases "j = i") simp_all
        then show ?thesis using d by (simp add: c eq(1) set_eq_iff)
      qed
    qed (use 2 in auto)
  qed auto
  then show "distinct (completions P log)" "set (completions P log) = {i. (\<exists>q k. P i = Call q k) \<and> (\<exists>a. P' i = Ret a)}"
    by blast+
qed

lemma one_effect_pool:
  assumes "pool_exec W sched P w = (P', w', log)" "\<And>i. one_effect law (spec i) (P i)"
    "lawful law B W"
  shows "sequential spec P' (completions P log) (B w) (B w')"
  using assms
proof (induction W sched P w arbitrary: P' w' log rule: pool_exec.induct)
  case (2 W i "is" P w)
  show ?case
  proof (cases "P i")
    case (Call q k)
    obtain r w1 where r: "W q w = (r, w1)" by (cases "W q w") auto
    obtain Q v l where Q: "pool_exec W is (P(i := k r)) w1 = (Q, v, l)" by (metis prod_cases3)
    with "2.prems"(1) Call r have eq: "P' = Q" "w' = v" "log = (i, q, r) # l" by auto
    have ok: "one_effect law (spec i) (k r)"
      "case k r of Ret a \<Rightarrow> spec i a (B w) (B w1) | _ \<Rightarrow> B w1 = B w"
      using "2.prems"(2)[of i] lawfulD[OF "2.prems"(3) r] Call by simp_all
    have "one_effect law (spec j) ((P(i := k r)) j)" for j using "2.prems"(2)[of j] ok(1) by simp
    from "2.IH"(3)[OF Call r[symmetric] Q this "2.prems"(3)]
    have IH: "sequential spec Q (completions (P(i := k r)) l) (B w1) (B v)" .
    have "Q i = Ret a" if "k r = Ret a" for a
      using pool_exec_steps[OF Q, of i] that by (auto simp: steps_Ret_iff)
    with IH ok(2) show ?thesis by (cases "k r") (auto simp: eq Call)
  qed (use 2 in auto)
qed auto

context atomic_object
begin

lemma pool_sequential:
  assumes "pool_exec W sched (task_pool task cs) w = (P', w', log)" "lawful law B W"
  shows "sequential (\<lambda>i. spec (cs ! i)) P' (completions (task_pool task cs) log) (B w) (B w')"
  by (rule one_effect_pool[OF assms(1) _ assms(2)]) (simp add: atomic task_pool_def)

end

end
