(* ===== verification/Directory.thy ===== *)
theory Directory
  imports Atomic Bearer
begin

text \<open>
  The publisher (\<open>crates/br-auth-identity-util\<close>) and the validator (\<open>src/bearer_validator.rs\<close>) on one
  bucket: together they are a directory of bearers, a map from tokens to entries. What the bucket
  means is \<open>directory\<close>; each of \<open>put_bearer\<close>, \<open>delete_bearer\<close> and \<open>resolve\<close> is one step of
  \<open>dir_step\<close> on it, at the moment of its last request, in any interleaving.
\<close>

section \<open>The calls\<close>

datatype bearer_call = Publish string bearer_entry | Withdraw string | Resolve string

datatype bearer_answer =
    Published "bearer_publish_error + unit"
  | Withdrawn "bearer_publish_error + unit"
  | Resolved "bearer_validator_error + bearer_entry option"

fun bearer_task :: "lib \<Rightarrow> bearer_seal_key \<Rightarrow> bearer_call \<Rightarrow> bearer_answer prog" where
  "bearer_task L key (Publish t e) = bind (put_bearer L key t e) (\<lambda>res. Ret (Published res))"
| "bearer_task L key (Withdraw t) = bind (delete_bearer L t) (\<lambda>res. Ret (Withdrawn res))"
| "bearer_task L key (Resolve t) = bind (resolve L key t) (\<lambda>res. Ret (Resolved res))"

section \<open>The bucket\<close>

type_synonym bucket = "kv_key \<Rightarrow> sealed_bearer option"

text \<open>
  The published bucket: a read returns what is there; a write that is acknowledged is done, one that
  fails may be done or not; nothing else changes it (but the harness of the battery, which starts
  servers of its own and writes raw JSON).
\<close>

definition bucket_step :: "request \<Rightarrow> reply \<Rightarrow> bucket \<Rightarrow> bucket \<Rightarrow> bool" where
  "bucket_step q r b b' \<longleftrightarrow> (case (q, r) of
     (PlGet k, RSealed (Inr x)) \<Rightarrow> x = b k \<and> b' = b
   | (PlPut k s, RDone (Inr _)) \<Rightarrow> b' = b(k \<mapsto> s)
   | (PlPut k s, RDone (Inl _)) \<Rightarrow> b' = b \<or> b' = b(k \<mapsto> s)
   | (PlRetract k, RDone (Inr _)) \<Rightarrow> b' = b(k := None)
   | (PlRetract k, RDone (Inl _)) \<Rightarrow> b' = b \<or> b' = b(k := None)
   | (PlPutJson _ _, _) \<Rightarrow> True
   | (NatsStart, _) \<Rightarrow> True
   | _ \<Rightarrow> b' = b)"

abbreviation published_ok :: "('w \<Rightarrow> bucket) \<Rightarrow> 'w world \<Rightarrow> bool" where
  "published_ok B W \<equiv> lawful bucket_step B W"

section \<open>The directory\<close>

text \<open>What a bucket says of a token: the entry that the value under its key opens to.\<close>

definition directory :: "lib \<Rightarrow> bearer_seal_key \<Rightarrow> bucket \<Rightarrow> string \<Rightarrow> bearer_entry option" where
  "directory L key b token =
     (case b (KvKey (bearer_token_kv_key L token)) of
        None \<Rightarrow> None
      | Some s \<Rightarrow> (case open_sealed L key token s of Inr e \<Rightarrow> Some e | Inl _ \<Rightarrow> None))"

text \<open>
  The abstract operations, on a map from tokens to entries in which tokens of one hash \<open>h\<close> are one. A
  call that fails at the store leaves open whether it was done; any other failure has no effect.
\<close>

definition dir_set :: "(string \<Rightarrow> string) \<Rightarrow> string \<Rightarrow> bearer_entry option \<Rightarrow>
    (string \<Rightarrow> bearer_entry option) \<Rightarrow> (string \<Rightarrow> bearer_entry option)" where
  "dir_set h t x D = (\<lambda>t'. if h t' = h t then x else D t')"

inductive dir_step :: "(string \<Rightarrow> string) \<Rightarrow> bearer_call \<Rightarrow> bearer_answer \<Rightarrow>
    (string \<Rightarrow> bearer_entry option) \<Rightarrow> (string \<Rightarrow> bearer_entry option) \<Rightarrow> bool" for h where
  published: "dir_step h (Publish t e) (Published (Inr ())) D (dir_set h t (Some e) D)"
| publish_lost: "dir_step h (Publish t e) (Published (Inl (PubPut m))) D (dir_set h t (Some e) D)"
| publish_failed: "dir_step h (Publish t e) (Published (Inl err)) D D"
| withdrawn: "dir_step h (Withdraw t) (Withdrawn (Inr ())) D (dir_set h t None D)"
| withdraw_lost: "dir_step h (Withdraw t) (Withdrawn (Inl (PubDelete m))) D (dir_set h t None D)"
| withdraw_failed: "dir_step h (Withdraw t) (Withdrawn (Inl err)) D D"
| resolved: "dir_step h (Resolve t) (Resolved (Inr (D t))) D D"
| resolve_failed: "dir_step h (Resolve t) (Resolved (Inl err)) D D"

inductive_simps dir_step_simps:
  "dir_step h (Publish t e) a D D'" "dir_step h (Withdraw t) a D D'" "dir_step h (Resolve t) a D D'"

section \<open>Each call takes effect at once\<close>

text \<open>The library as the directory relies on it.\<close>

definition directory_laws :: "lib \<Rightarrow> bool" where
  "directory_laws L \<longleftrightarrow> bearer_laws L \<and> kv_key_ok L"

lemma open_same_hash:
  assumes "core_bearer_token_key L t' = core_bearer_token_key L t"
  shows "open_sealed L key t' s = open_sealed L key t s"
  unfolding open_sealed_def assms ..

lemma kv_key_hash:
  "bearer_token_kv_key L t' = bearer_token_kv_key L t \<longleftrightarrow> core_bearer_token_key L t' = core_bearer_token_key L t"
  by (simp add: bearer_token_kv_key_def)

lemma directory_put:
  assumes "open_sealed L key t s = Inr e"
  shows "directory L key (b(KvKey (bearer_token_kv_key L t) \<mapsto> s)) =
    dir_set (core_bearer_token_key L) t (Some e) (directory L key b)"
  by (auto simp: fun_eq_iff directory_def dir_set_def kv_key_hash assms open_same_hash[of L _ t])

lemma directory_delete:
  "directory L key (b(KvKey (bearer_token_kv_key L t) := None)) =
    dir_set (core_bearer_token_key L) t None (directory L key b)"
  by (auto simp: fun_eq_iff directory_def dir_set_def kv_key_hash)

abbreviation directory_spec ::
  "lib \<Rightarrow> bearer_seal_key \<Rightarrow> bearer_call \<Rightarrow> bearer_answer \<Rightarrow> bucket \<Rightarrow> bucket \<Rightarrow> bool" where
  "directory_spec L key c a b b' \<equiv> directory_laws L \<longrightarrow>
     dir_step (core_bearer_token_key L) c a (directory L key b) (directory L key b')"

lemma directory_published:
  assumes "bearer_laws L" "kv_key_ok L" "kv_key_new L (bearer_token_kv_key L t) = Inr k"
    "json_to_vec L (bearer_entry_to_json L e) = Inr p" "length n = 12"
    "aead_encrypt L (seal_key_bytes key) n (as_bytes (core_bearer_token_key L t)) p = Some c"
  shows "directory L key (b(k \<mapsto> \<lparr>sb_nonce = b64_encode L n, sb_ciphertext = b64_encode L c\<rparr>)) =
    dir_set (core_bearer_token_key L) t (Some e) (directory L key b)"
  unfolding kv_key_newD[OF assms(2,3)]
  by (rule directory_put) (use assms in \<open>auto intro!: encrypted_opens simp: NONCE_LEN_def\<close>)

lemma publish_atomic: "one_effect bucket_step (directory_spec L key (Publish t e)) (bearer_task L key (Publish t e))"
  by (auto simp: bind_simps put_bearer_def seal_def Let_def bearer_kv_key_def bucket_step_def dir_step_simps
      directory_laws_def intro: directory_published split: sum.split option.split)

lemma withdraw_atomic: "one_effect bucket_step (directory_spec L key (Withdraw t)) (bearer_task L key (Withdraw t))"
  by (auto simp: bind_simps delete_bearer_def bearer_kv_key_def bucket_step_def dir_step_simps directory_laws_def
      directory_delete dest!: kv_key_newD split: sum.split)

lemma resolve_atomic: "one_effect bucket_step (directory_spec L key (Resolve t)) (bearer_task L key (Resolve t))"
  by (auto simp: bind_simps resolve_def bucket_step_def dir_step_simps directory_laws_def directory_def
      dest!: kv_key_newD split: sum.split option.split)

interpretation bearers: atomic_object bucket_step "directory_spec L key" "bearer_task L key" for L key
proof
  fix c show "one_effect bucket_step (directory_spec L key c) (bearer_task L key c)"
    by (cases c) (simp_all only: publish_atomic withdraw_atomic resolve_atomic)
qed

lemma pool_directory:
  assumes "directory_laws L" "published_ok B W"
    "pool_exec W sched (task_pool (bearer_task L key) cs) w = (P', w', log)"
  shows "sequential (\<lambda>i. dir_step (core_bearer_token_key L) (cs ! i)) P' (completions (task_pool (bearer_task L key) cs) log)
    (directory L key (B w)) (directory L key (B w'))"
  by (rule sequential_abs[where f = "directory L key"]) (use bearers.pool_sequential[OF assms(3,2)] assms(1) in simp)

end
