(* ===== verification/Wire_Properties.thy ===== *)
theory Wire_Properties
  imports Reference_Run Directory
begin

text \<open>
  The properties of the bearer wire: what a publisher (\<open>crates/br-auth-identity-util\<close>) writes is what
  the validator (\<open>src/bearer_validator.rs\<close>) resolves, and nothing else opens.
\<close>

section \<open>A published bearer on the reference library\<close>

definition demo_key :: bearer_seal_key where
  "demo_key = BearerSealKey (replicate 32 1)"

definition demo_entry :: bearer_entry where
  "demo_entry = \<lparr>be_actor = Human 5, be_token_id = 6\<rparr>"

lemma ref_bearer_laws: "bearer_laws ref_lib"
  by (simp add: bearer_laws_def ref_lib_laws)

lemma demo_seals:
  "\<exists>s. runs (seal ref_lib demo_key t demo_entry) [(GenNonce, RNonce (replicate 12 7))] (Inr s)"
  unfolding runs_seal_ok
  by (simp add: ref_fields ref_encrypt_def bearer_entry_to_json_def demo_entry_def)

lemma demo_publishes:
  "\<exists>s. runs (put_bearer ref_lib demo_key t demo_entry)
     [(GenNonce, RNonce (replicate 12 7)), (PlPut (KvKey (bearer_token_kv_key ref_lib t)) s, RDone (Inr ()))] (Inr ())"
proof -
  obtain s where "runs (seal ref_lib demo_key t demo_entry) [(GenNonce, RNonce (replicate 12 7))] (Inr s)"
    using demo_seals by blast
  moreover have "kv_key_new ref_lib (bearer_token_kv_key ref_lib t) = Inr (KvKey (bearer_token_kv_key ref_lib t))"
    by (simp add: ref_fields bearer_token_kv_key_def BEARER_TOKENS_KEY_PREFIX_def)
  ultimately show ?thesis unfolding runs_put_bearer_ok by (intro exI[of _ s]) auto
qed

section \<open>Publishing and resolving\<close>

text \<open>
  C14. A bearer that \<open>put\<close> has published is resolved to the same entry: the validator looks under the
  key that was written, and the sealed value opens to the actor and the token id that were sealed.
\<close>

theorem published_bearer_resolves:
  assumes "bearer_laws L" "runs (put_bearer L key token e) tr (Inr ())" "nonces_ok tr"
  shows "\<exists>k s. (PlPut k s, RDone (Inr ())) \<in> set tr \<and>
    runs (resolve L key token) [(PlGet k, RSealed (Inr (Some s)))] (Inr (Some e))"
proof -
  from assms(2) obtain t s k where p: "runs (seal L key token e) t (Inr s)"
    "kv_key_new L (bearer_token_kv_key L token) = Inr k" "tr = t @ [(PlPut k s, RDone (Inr ()))]"
    unfolding runs_put_bearer_ok by blast
  have "nonces_ok t" using assms(3) p(3) by (simp add: nonces_ok_def)
  from seal_opens[OF assms(1) p(1) this] p(2,3) show ?thesis
    by (intro exI[of _ k] exI[of _ s]) (simp add: runs_resolve)
qed

lemma published_bearer_resolves_witness:
  "\<exists>k s. runs (resolve ref_lib demo_key ''tok'') [(PlGet k, RSealed (Inr (Some s)))] (Inr (Some demo_entry))"
proof -
  obtain s where s: "runs (put_bearer ref_lib demo_key ''tok'' demo_entry)
     [(GenNonce, RNonce (replicate 12 7)), (PlPut (KvKey (bearer_token_kv_key ref_lib ''tok'')) s, RDone (Inr ()))] (Inr ())"
    using demo_publishes by blast
  have "nonces_ok [(GenNonce, RNonce (replicate 12 7)), (PlPut (KvKey (bearer_token_kv_key ref_lib ''tok'')) s, RDone (Inr ()))]"
    by (simp add: nonces_ok_def NONCE_LEN_def)
  from published_bearer_resolves[OF ref_bearer_laws s this] show ?thesis by blast
qed

text \<open>
  C13. Whatever the bucket holds, a token resolves to an entry only if the value under its key was
  sealed for it: its ciphertext is the encryption, under the seal key, a twelve-byte nonce and the
  token's own hash as associated data, of a document that reads as exactly that entry.
\<close>

theorem resolved_was_sealed_for_token:
  assumes "aead_ok L" "runs (resolve L key token) tr (Inr (Some e))"
  shows "\<exists>k s n c p j. tr = [(PlGet k, RSealed (Inr (Some s)))] \<and>
    kv_key_new L (bearer_token_kv_key L token) = Inr k \<and>
    b64_decode L (sb_nonce s) = Some n \<and> length n = 12 \<and> b64_decode L (sb_ciphertext s) = Some c \<and>
    aead_encrypt L (seal_key_bytes key) n (as_bytes (core_bearer_token_key L token)) p = Some c \<and>
    json_from_slice L p = Inr j \<and> bearer_entry_of_json L j = Inr e"
proof -
  from assms(2) obtain k s where "kv_key_new L (bearer_token_kv_key L token) = Inr k"
    "tr = [(PlGet k, RSealed (Inr (Some s)))]" "open_sealed L key token s = Inr e"
    unfolding runs_resolve_Some by blast
  with opened_was_sealed[OF assms(1) this(3)] show ?thesis unfolding NONCE_LEN_def by blast
qed

lemma resolved_was_sealed_for_token_witness:
  "\<exists>s n c p. sb_ciphertext s = ref_b64 c \<and>
     ref_encrypt (replicate 32 1) n (as_bytes (hex ''tok'')) p = Some c \<and>
     runs (resolve ref_lib demo_key ''tok'') [(PlGet (KvKey (bearer_token_kv_key ref_lib ''tok'')), RSealed (Inr (Some s)))]
       (Inr (Some demo_entry))"
proof -
  obtain s where s: "runs (seal ref_lib demo_key ''tok'' demo_entry) [(GenNonce, RNonce (replicate 12 7))] (Inr s)"
    using demo_seals by blast
  then have "open_sealed ref_lib demo_key ''tok'' s = Inr demo_entry"
    by (rule seal_opens[OF ref_bearer_laws]) (simp add: nonces_ok_def NONCE_LEN_def)
  moreover have "kv_key_new ref_lib (bearer_token_kv_key ref_lib ''tok'') = Inr (KvKey (bearer_token_kv_key ref_lib ''tok''))"
    by (simp add: ref_fields bearer_token_kv_key_def BEARER_TOKENS_KEY_PREFIX_def)
  ultimately have r: "runs (resolve ref_lib demo_key ''tok'')
      [(PlGet (KvKey (bearer_token_kv_key ref_lib ''tok'')), RSealed (Inr (Some s)))] (Inr (Some demo_entry))"
    by (simp add: runs_resolve)
  from resolved_was_sealed_for_token[OF ref_aead_ok r] obtain n c p where
    "ref_unb64 (sb_ciphertext s) = Some c" "ref_encrypt (replicate 32 1) n (as_bytes (hex ''tok'')) p = Some c"
    by (auto simp: ref_lib_def demo_key_def)
  moreover from s obtain c' where "sb_ciphertext s = ref_b64 c'"
    unfolding runs_seal_ok by (auto simp: ref_lib_def)
  ultimately show ?thesis using r by (auto simp: ref_unb64_def ref_b64_def)
qed

text \<open>
  C27. A sealed value that another writer of the bucket moves under a different token's key does not
  resolve there: the request is answered as for an unknown token.
\<close>

theorem relocated_bearer_rejected:
  assumes "aead_binds L" "b64_ok L" "runs (seal L key a e) tr (Inr s)"
    "core_bearer_token_key L b \<noteq> core_bearer_token_key L a"
    "kv_key_new L (bearer_token_kv_key L b) = Inr k"
  shows "runs (resolve L key b) [(PlGet k, RSealed (Inr (Some s)))] res \<longleftrightarrow> res = Inr None"
  using relocated_fails[OF assms(1-4)] assms(5) by (cases "open_sealed L key b s") (auto simp: runs_resolve)

lemma relocated_bearer_rejected_witness:
  "\<exists>s. runs (seal ref_lib demo_key ''tok'' demo_entry) [(GenNonce, RNonce (replicate 12 7))] (Inr s) \<and>
     runs (resolve ref_lib demo_key ''other'') [(PlGet (KvKey (bearer_token_kv_key ref_lib ''other'')), RSealed (Inr (Some s)))] (Inr None)"
proof -
  obtain s where s: "runs (seal ref_lib demo_key ''tok'' demo_entry) [(GenNonce, RNonce (replicate 12 7))] (Inr s)"
    using demo_seals by blast
  have "core_bearer_token_key ref_lib ''other'' \<noteq> core_bearer_token_key ref_lib ''tok''" by (simp add: ref_lib_def)
  moreover have "kv_key_new ref_lib (bearer_token_kv_key ref_lib ''other'') = Inr (KvKey (bearer_token_kv_key ref_lib ''other''))"
    by (simp add: ref_fields bearer_token_kv_key_def BEARER_TOKENS_KEY_PREFIX_def)
  ultimately show ?thesis using relocated_bearer_rejected[OF ref_aead_binds ref_b64_ok s] s by blast
qed

section \<open>Publishers and validators as one directory\<close>

text \<open>
  C12. Publishers and validators that work on one bucket at the same time are a directory of bearers:
  whatever the interleaving and whichever calls of the store fail, the calls that have finished did,
  one after the other in the order of their last requests, what publish, withdraw and look up do to
  a map from tokens to entries, with the answers they gave; unfinished calls have done nothing.
\<close>

theorem bearer_directory_linearizable:
  assumes "directory_laws L" "published_ok B W"
    "pool_exec W sched (task_pool (bearer_task L key) cs) w = (P', w', log)"
  shows "sequential (\<lambda>i. dir_step (core_bearer_token_key L) (cs ! i)) P' (completions (task_pool (bearer_task L key) cs) log)
      (directory L key (B w)) (directory L key (B w')) \<and>
    distinct (completions (task_pool (bearer_task L key) cs) log) \<and>
    set (completions (task_pool (bearer_task L key) cs) log) =
      {i. (\<exists>q k. task_pool (bearer_task L key) cs i = Call q k) \<and> (\<exists>a. P' i = Ret a)}"
  using pool_directory[OF assms] completions_distinct[OF assms(3)] by simp

definition demo_directory_calls :: "bearer_call list" where
  "demo_directory_calls = [Publish ''tok'' demo_entry, Resolve ''tok'', Withdraw ''tok'']"

lemma ref_directory_laws: "directory_laws ref_lib"
  by (simp add: directory_laws_def ref_bearer_laws ref_kv_key_ok)

lemma rw_published_ok: "published_ok rw_bearers rw_step"
  unfolding lawful_def
proof (intro allI impI)
  fix q w r w' assume "rw_step q w = (r, w')"
  then show "well_kinded q r \<and> bucket_step q r (rw_bearers w) (rw_bearers w')"
    by (cases q) (auto simp: bucket_step_def rw_write_def split: if_splits)
qed

lemma bearer_directory_linearizable_witness:
  "\<exists>P' w' log. pool_exec rw_step [0, 1, 0, 2] (task_pool (bearer_task ref_lib demo_key) demo_directory_calls) demo_world = (P', w', log) \<and>
     completions (task_pool (bearer_task ref_lib demo_key) demo_directory_calls) log = [1, 0, 2] \<and>
     sequential (\<lambda>i. dir_step (core_bearer_token_key ref_lib) (demo_directory_calls ! i)) P' [1, 0, 2]
       (directory ref_lib demo_key (rw_bearers demo_world)) (directory ref_lib demo_key (rw_bearers w'))"
proof -
  obtain P' w' log where d: "pool_exec rw_step [0, 1, 0, 2] (task_pool (bearer_task ref_lib demo_key) demo_directory_calls) demo_world = (P', w', log)"
    by (metis prod_cases3)
  have "completions (task_pool (bearer_task ref_lib demo_key) demo_directory_calls)
    (snd (snd (pool_exec rw_step [0, 1, 0, 2] (task_pool (bearer_task ref_lib demo_key) demo_directory_calls) demo_world))) = [1, 0, 2]"
    by code_simp
  then have c: "completions (task_pool (bearer_task ref_lib demo_key) demo_directory_calls) log = [1, 0, 2]" by (simp only: d snd_conv)
  from bearer_directory_linearizable[OF ref_directory_laws rw_published_ok d] c d show ?thesis by metis
qed

text \<open>
  A bearer that \<open>delete\<close> has retracted resolves to nobody: the key that was retracted is the one
  the validator reads, and an absent value is an unknown token, not an error.
\<close>

theorem retracted_bearer_unknown:
  assumes "runs (delete_bearer L token) tr (Inr ())"
  shows "\<exists>k. tr = [(PlRetract k, RDone (Inr ()))] \<and>
    (\<forall>key tr' res. runs (resolve L key token) tr' res \<longrightarrow> (\<exists>x. tr' = [(PlGet k, RSealed x)] \<and> (x = Inr None \<longrightarrow> res = Inr None)))"
  using assms by (auto simp: runs_delete_bearer_ok runs_resolve)

lemma retracted_bearer_unknown_witness:
  "let k = KvKey (bearer_token_kv_key ref_lib ''tok'') in
     runs (delete_bearer ref_lib ''tok'') [(PlRetract k, RDone (Inr ()))] (Inr ()) \<and>
     runs (resolve ref_lib demo_key ''tok'') [(PlGet k, RSealed (Inr None))] (Inr None)"
proof -
  let ?k = "KvKey (bearer_token_kv_key ref_lib ''tok'')"
  have k: "kv_key_new ref_lib (bearer_token_kv_key ref_lib ''tok'') = Inr ?k"
    by (simp add: ref_fields bearer_token_kv_key_def BEARER_TOKENS_KEY_PREFIX_def)
  then have d: "runs (delete_bearer ref_lib ''tok'') [(PlRetract ?k, RDone (Inr ()))] (Inr ())"
    by (simp add: runs_delete_bearer_ok)
  obtain res where res: "runs (resolve ref_lib demo_key ''tok'') [(PlGet ?k, RSealed (Inr None))] res"
    using k by (simp add: runs_resolve)
  with retracted_bearer_unknown[OF d] have "res = Inr None" by auto
  with d res show ?thesis by (simp add: Let_def)
qed

text \<open>
  C24. The answer to a bearer request, case by case: who was resolved is named by one of two headers
  and the token id by a third; an unknown token is refused with 401; a store that cannot be read is
  a 502, never an acceptance. No branch sets a cookie.
\<close>

theorem bearer_answer:
  assumes "answer_laws L" "bearer_token_of v = Some t" "runs (handle_bearer L S v) tr y"
  shows "\<exists>res. runs (resolve L (as_bearer_key S) t) tr res \<and> set_cookies y = [] \<and>
    (case res of
       Inl _ \<Rightarrow> status y = 502 \<and> resp_headers y = []
     | Inr None \<Rightarrow> status y = 401 \<and> resp_headers y = []
     | Inr (Some e) \<Rightarrow> status y = 200 \<and> resp_headers y =
         [(case be_actor e of Human _ \<Rightarrow> ''x-auth-user-id'' | Service _ \<Rightarrow> ''x-auth-service-account-id'',
           uuid_to_string L (actor_id (be_actor e))),
          (''x-auth-token-id'', uuid_to_string L (be_token_id e))])"
proof -
  from assms(3) obtain res where "runs (resolve L (as_bearer_key S) t) tr res" "y = bearer_reply L res"
    unfolding bearer_reply_ok[OF assms(1,2)] by blast
  then show ?thesis
    by (intro exI[of _ res])
      (auto simp: bearer_reply_def status_response_def header_values_def split: sum.split option.split actor.split)
qed

lemma bearer_answer_witness:
  "\<exists>s y. runs (handle_bearer ref_lib demo_state ''Bearer tok'') [(PlGet (KvKey (bearer_token_kv_key ref_lib ''tok'')), RSealed (Inr (Some s)))] y \<and>
     status y = 200 \<and> resp_headers y = [(''x-auth-user-id'', ''5''), (''x-auth-token-id'', ''6'')]"
proof -
  let ?k = "KvKey (bearer_token_kv_key ref_lib ''tok'')"
  obtain s where s: "runs (seal ref_lib demo_key ''tok'' demo_entry) [(GenNonce, RNonce (replicate 12 7))] (Inr s)"
    using demo_seals by blast
  then have "open_sealed ref_lib demo_key ''tok'' s = Inr demo_entry"
    by (rule seal_opens[OF ref_bearer_laws]) (simp add: nonces_ok_def NONCE_LEN_def)
  moreover have key: "as_bearer_key demo_state = demo_key" by (simp add: demo_state_def demo_key_def)
  moreover have k: "kv_key_new ref_lib (bearer_token_kv_key ref_lib ''tok'') = Inr ?k"
    by (simp add: ref_fields bearer_token_kv_key_def BEARER_TOKENS_KEY_PREFIX_def)
  ultimately have r: "runs (resolve ref_lib (as_bearer_key demo_state) ''tok'')
      [(PlGet ?k, RSealed (Inr (Some s)))] (Inr (Some demo_entry))" by (simp add: runs_resolve)
  have tok: "bearer_token_of ''Bearer tok'' = Some ''tok''" by code_simp
  from r have run: "runs (handle_bearer ref_lib demo_state ''Bearer tok'') [(PlGet ?k, RSealed (Inr (Some s)))]
      (bearer_reply ref_lib (Inr (Some demo_entry)))"
    unfolding bearer_reply_ok[OF demo_answer_laws tok] by blast
  have "show_nat 5 = ''5''" "show_nat 6 = ''6''" by code_simp+
  then have shown: "uuid_to_string ref_lib 5 = ''5''" "uuid_to_string ref_lib 6 = ''6''" by (simp_all add: ref_fields)
  have one: "res = Inr (Some demo_entry)" if "runs (resolve ref_lib (as_bearer_key demo_state) ''tok'')
      [(PlGet ?k, RSealed (Inr (Some s)))] res" for res
    using that r unfolding runs_resolve by auto
  from bearer_answer[OF demo_answer_laws tok run] obtain res where
    "runs (resolve ref_lib (as_bearer_key demo_state) ''tok'') [(PlGet ?k, RSealed (Inr (Some s)))] res" and
    ans: "case res of
       Inl _ \<Rightarrow> status (bearer_reply ref_lib (Inr (Some demo_entry))) = 502 \<and> resp_headers (bearer_reply ref_lib (Inr (Some demo_entry))) = []
     | Inr None \<Rightarrow> status (bearer_reply ref_lib (Inr (Some demo_entry))) = 401 \<and> resp_headers (bearer_reply ref_lib (Inr (Some demo_entry))) = []
     | Inr (Some e) \<Rightarrow> status (bearer_reply ref_lib (Inr (Some demo_entry))) = 200 \<and> resp_headers (bearer_reply ref_lib (Inr (Some demo_entry))) =
         [(case be_actor e of Human _ \<Rightarrow> ''x-auth-user-id'' | Service _ \<Rightarrow> ''x-auth-service-account-id'',
           uuid_to_string ref_lib (actor_id (be_actor e))),
          (''x-auth-token-id'', uuid_to_string ref_lib (be_token_id e))]" by blast
  then have "res = Inr (Some demo_entry)" by (intro one)
  from ans[unfolded this] run show ?thesis
    by (intro exI[of _ s] exI[of _ "bearer_reply ref_lib (Inr (Some demo_entry))"]) (simp add: demo_entry_def shown)
qed

end
