(* ===== verification/Oidc_Properties.thy ===== *)
theory Oidc_Properties
  imports Reference_Run
begin

text \<open>
  The properties of id-token verification (\<open>src/oidc_validator.rs\<close>): what an accepted token has passed,
  what traffic a token can cause, and how the key cache is refreshed.
\<close>

section \<open>A provider and its token on the reference library\<close>

definition demo_provider :: oidc_provider where
  "demo_provider = \<lparr>op_name = ''p'', op_issuer = ''iss'', op_client_id = ''cl'', op_email_claim = ''upn'',
     op_jwks_uri = ''u'', op_refresh_cooldown = 60000000000\<rparr>"

definition demo_jwk :: jwk where
  "demo_jwk = \<lparr>jwk_key_id = Some ''k1'', jwk_key_algorithm = Some KA_RS256, jwk_material = as_bytes ''m''\<rparr>"

definition demo_id_token :: string where
  "demo_id_token = (case flat (JObj [(''iss'', JStr ''iss''), (''aud'', JStr ''cl''), (''exp'', JInt 100), (''email'', JStr ''u'')]) of
     Some s \<Rightarrow> ref_token (CHR ''x'' # hex ''k1'') s (as_bytes ''m'') | None \<Rightarrow> [])"

text \<open>The key is not cached at first: the cooldown has passed, the keys are fetched, the token is verified.\<close>

definition demo_fetch :: "event list" where
  "demo_fetch = [(JwksRead 0, RJwks []), (LastRead 0, RMono 0), (MonoNow, RMono 61000000000),
     (HttpGet ''u'', RHttp (Inr (Inr ''k1:m''))), (JwksWrite 0 [demo_jwk], RUnit), (MonoNow, RMono 62000000000),
     (LastWrite 0 62000000000, RUnit), (JwksRead 0, RJwks [demo_jwk]), (UtcNow, RUtc 1000000000)]"

lemma demo_id_token_accepted:
  "runs (verify_id_token ref_lib [demo_provider] demo_id_token) demo_fetch (Inr \<lparr>oc_email = ''u''\<rparr>)"
  unfolding feed_runs by code_simp

section \<open>Acceptance\<close>

lemma ref_jwt_payload_ok: "jwt_payload_ok ref_lib"
  unfolding jwt_payload_ok_def
proof (intro allI impI)
  fix key v now t j
  assume "jwt_decode ref_lib key v is_json_object now t = Inr j"
  then have d: "ref_payload t = Some j" "is_json_object j"
    by (auto simp: ref_fields ref_jwt_decode_def split: if_splits option.splits json.splits)
  then obtain h p s where t: "split_on CHR ''.'' t = [h, p, s]" "unflat p = Some j"
    by (auto simp: ref_payload_def split: list.splits)
  then show "decode_jwt_payload_unverified ref_lib t = Inr j"
    using d(2) by (cases j)
      (simp_all add: decode_jwt_payload_unverified_def ref_fields ref_url_unb64_def is_json_object_def)
qed

text \<open>
  C11. An id token is accepted only under these checks: the provider is the first configured one whose
  issuer the token names; the key is one of the keys held for that provider, and the one the token's
  \<open>kid\<close> names (or the only one, when it names none); the library verified the token with that key; the
  claims it verified are those that were read to select the provider, and they name it as issuer; if they
  carry an audience (a text or a list of texts), the provider's client id is in it; and the e-mail is
  not empty and is the one of the verified claims.
\<close>

theorem accepted_id_token:
  assumes "jwt_ok L" "jwt_payload_ok L" "runs (verify_id_token L ps t) tr (Inr c)"
  shows "\<exists>qs p rs header ks jwk key now j. ps = qs @ p # rs \<and> (\<forall>q \<in> set qs. op_issuer q \<noteq> op_issuer p) \<and>
    jwt_decode_header L t = Inr header \<and>
    (JwksRead (length qs), RJwks ks) \<in> set tr \<and> jwk \<in> set ks \<and>
    (case hdr_kid header of Some kid \<Rightarrow> jwk_key_id jwk = Some kid | None \<Rightarrow> ks = [jwk]) \<and>
    jwt_key_from_jwk L jwk = Inr key \<and> (UtcNow, RUtc now) \<in> set tr \<and>
    jwt_decode L key (id_token_validation L p (token_alg header jwk)) is_json_object (timestamp now) t = Inr j \<and>
    decode_jwt_payload_unverified L t = Inr j \<and> json_field j ''iss'' = Some (JStr (op_issuer p)) \<and>
    (\<forall>auds. claim_texts j ''aud'' = Some auds \<longrightarrow> op_client_id p \<in> set auds) \<and>
    oc_email c \<noteq> [] \<and> extract_email_from_payload j (op_email_claim p) = Inr (oc_email c)"
proof -
  from verify_id_token_ok[OF assms(3)] obtain payload i p header jwk key now j ks where
    u: "decode_jwt_payload_unverified L t = Inr payload" "json_field payload ''iss'' = Some (JStr (op_issuer p))" and
    a: "find_provider 0 (op_issuer p) ps = Some (i, p)" "jwt_decode_header L t = Inr header"
      "(JwksRead i, RJwks ks) \<in> set tr" "jwk \<in> set ks"
      "case hdr_kid header of Some kid \<Rightarrow> jwk_key_id jwk = Some kid | None \<Rightarrow> ks = [jwk]"
      "jwt_key_from_jwk L jwk = Inr key" "(UtcNow, RUtc now) \<in> set tr" and
    j: "jwt_decode L key (id_token_validation L p (token_alg header jwk)) is_json_object (timestamp now) t = Inr j"
    and e: "extract_email_from_payload payload (op_email_claim p) = Inr (oc_email c)"
    unfolding id_token_ok_def by blast
  from find_provider_Some[OF a(1)] obtain qs rs where q: "ps = qs @ p # rs" "i = length qs"
    "\<forall>q \<in> set qs. op_issuer q \<noteq> op_issuer p" by auto
  have same: "payload = j" using assms(2) j u(1) unfolding jwt_payload_ok_def by fastforce
  have "claim_allows j ''aud'' [op_client_id p]"
    using jwt_decode_sound[OF assms(1) j] by (simp add: claims_shape_ok_def id_token_validation_def)
  then have "\<forall>auds. claim_texts j ''aud'' = Some auds \<longrightarrow> op_client_id p \<in> set auds"
    by (auto simp: claim_allows_def list_ex_iff)
  moreover have "oc_email c \<noteq> []" using e by (simp add: extract_email_iff)
  ultimately show ?thesis using a j q u e unfolding same by blast
qed

lemma accepted_id_token_witness:
  "runs (verify_id_token ref_lib [demo_provider] demo_id_token) demo_fetch (Inr \<lparr>oc_email = ''u''\<rparr>) \<and>
   (\<exists>ks jwk. (JwksRead 0, RJwks ks) \<in> set demo_fetch \<and> jwk \<in> set ks)"
proof -
  from accepted_id_token[OF ref_jwt_ok ref_jwt_payload_ok demo_id_token_accepted] obtain qs p rs ks jwk where
    "[demo_provider] = qs @ p # rs" "(JwksRead (length qs), RJwks ks) \<in> set demo_fetch" "jwk \<in> set ks" by blast
  then show ?thesis using demo_id_token_accepted by (cases qs) auto
qed

text \<open>
  C38. The audience is checked only when it is there: an id token that names none and is accepted is accepted,
  on the same replies and with the same result, whatever client ids the providers are configured with. A
  token that a provider signed for no client in particular signs in everywhere.
\<close>

theorem audience_is_optional:
  assumes "jwt_ok L" "jwt_payload_ok L" "jwt_modular L"
    "decode_jwt_payload_unverified L t = Inr payload" "claim_texts payload ''aud'' = None"
    "runs (verify_id_token L ps t) tr (Inr c)"
  shows "runs (verify_id_token L (map (\<lambda>p. p\<lparr>op_client_id := f p\<rparr>) ps) t) tr (Inr c)"
proof -
  from assms(4,6) obtain issuer i p header where
    d: "json_field payload ''iss'' = Some (JStr issuer)" "find_provider 0 issuer ps = Some (i, p)"
      "jwt_decode_header L t = Inr header"
    and r: "runs (bind (case hdr_kid header of
                 Some kid \<Rightarrow> resolve_key L i p kid
               | None \<Rightarrow> resolve_single_key i p) (\<lambda>res. case res of
                 Inl e \<Rightarrow> Ret (Inl e)
               | Inr jwk \<Rightarrow> verify_with_key L p header payload jwk t)) tr (Inr c)"
    unfolding verify_id_token_def
    by (auto simp: bind_eq_Some_conv json_as_str_Some split: sum.split_asm option.split_asm prod.split_asm)
  from r obtain t1 t2 jwk where t: "tr = t1 @ t2"
    "runs (case hdr_kid header of Some kid \<Rightarrow> resolve_key L i p kid | None \<Rightarrow> resolve_single_key i p) t1 (Inr jwk)"
    "runs (verify_with_key L p header payload jwk t) t2 (Inr c)" by (rule runs_try_bindE)
  from t(3) have "runs (verify_with_key L (p\<lparr>op_client_id := f p\<rparr>) header payload jwk t) t2 (Inr c)"
    by (rule no_audience_verified[OF assms(3,1,2,4,5)])
  then have "runs (case Inr jwk of Inl e \<Rightarrow> Ret (Inl e)
      | Inr jwk \<Rightarrow> verify_with_key L (p\<lparr>op_client_id := f p\<rparr>) header payload jwk t) t2 (Inr c)" by simp
  note joined = runs_bindI[where f = "\<lambda>res. case res of Inl e \<Rightarrow> Ret (Inl e)
      | Inr jwk \<Rightarrow> verify_with_key L (p\<lparr>op_client_id := f p\<rparr>) header payload jwk t", OF t(2) this]
  from joined d show ?thesis
    by (cases "hdr_kid header")
      (simp_all add: verify_id_token_def assms(4) find_provider_clients client_id_irrelevant t(1))
qed

definition bare_id_token :: string where
  "bare_id_token = (case flat (JObj [(''iss'', JStr ''iss''), (''exp'', JInt 100), (''email'', JStr ''u'')]) of
     Some s \<Rightarrow> ref_token (CHR ''x'' # hex ''k1'') s (as_bytes ''m'') | None \<Rightarrow> [])"

lemma audience_is_optional_witness:
  "runs (verify_id_token ref_lib [demo_provider\<lparr>op_client_id := ''some other client''\<rparr>] bare_id_token) demo_fetch (Inr \<lparr>oc_email = ''u''\<rparr>)"
proof -
  have "case decode_jwt_payload_unverified ref_lib bare_id_token of Inl _ \<Rightarrow> False | Inr p \<Rightarrow> claim_texts p ''aud'' = None"
    by code_simp
  then obtain p where p: "decode_jwt_payload_unverified ref_lib bare_id_token = Inr p" "claim_texts p ''aud'' = None"
    by (auto split: sum.splits)
  have "runs (verify_id_token ref_lib [demo_provider] bare_id_token) demo_fetch (Inr \<lparr>oc_email = ''u''\<rparr>)"
    unfolding feed_runs by code_simp
  from audience_is_optional[OF ref_jwt_ok ref_jwt_payload_ok ref_jwt_modular p this, of "\<lambda>_. ''some other client''"]
  show ?thesis by simp
qed

text \<open>
  A token whose issuer is none of the configured ones is refused without any request: no key is
  looked up and nothing is fetched for it, so it cannot make the service call out.
\<close>

theorem unknown_issuer_is_quiet:
  assumes "decode_jwt_payload_unverified L t = Inr payload" "json_field payload ''iss'' = Some (JStr issuer)"
    "\<forall>p \<in> set ps. op_issuer p \<noteq> issuer"
  shows "runs (verify_id_token L ps t) tr res \<longleftrightarrow>
    tr = [] \<and> res = Inl (''no OIDC provider configured for issuer: '' @ issuer)"
  using assms find_provider_None[of 0 issuer ps] by (simp add: verify_id_token_def)

lemma unknown_issuer_is_quiet_witness:
  "runs (verify_id_token ref_lib [demo_provider\<lparr>op_issuer := ''x''\<rparr>] demo_id_token) []
     (Inl ''no OIDC provider configured for issuer: iss'')"
proof -
  have d: "(case decode_jwt_payload_unverified ref_lib demo_id_token of
      Inr p \<Rightarrow> json_field p ''iss'' = Some (JStr ''iss'') | Inl _ \<Rightarrow> False)" by code_simp
  then obtain p where "decode_jwt_payload_unverified ref_lib demo_id_token = Inr p"
    "json_field p ''iss'' = Some (JStr ''iss'')" by (auto split: sum.splits)
  from unknown_issuer_is_quiet[OF this, of "[demo_provider\<lparr>op_issuer := ''x''\<rparr>]"] show ?thesis by simp
qed

text \<open>
  The e-mail is the configured claim when the payload has it as a string, and the \<open>email\<close> claim
  otherwise; it is never empty (a configured claim that is present but empty is an error, not a
  reason to fall back).
\<close>

theorem email_of_payload:
  "extract_email_from_payload payload cl = Inr e \<longleftrightarrow> e \<noteq> [] \<and>
     (if \<exists>v. json_field payload cl = Some (JStr v) then json_field payload cl = Some (JStr e)
      else json_field payload ''email'' = Some (JStr e))"
  by (auto simp: extract_email_iff bind_eq_Some_conv json_as_str_Some split: option.splits)

section \<open>Traffic\<close>

text \<open>C25. Verifying one id token fetches a provider's keys at most once, whatever the replies are.\<close>

theorem one_fetch_per_token:
  assumes "runs (verify_id_token L ps t) tr res"
  shows "length (filter (\<lambda>e. case fst e of HttpGet _ \<Rightarrow> True | _ \<Rightarrow> False) tr) \<le> 1"
  using verify_fetches[OF assms] by (simp add: fetches_def)

lemma one_fetch_per_token_witness:
  "length (filter (\<lambda>e. case fst e of HttpGet _ \<Rightarrow> True | _ \<Rightarrow> False) demo_fetch) = 1"
proof -
  have "filter (\<lambda>e. case fst e of HttpGet _ \<Rightarrow> True | _ \<Rightarrow> False) demo_fetch \<noteq> []" by (simp add: demo_fetch_def)
  then have "0 < length (filter (\<lambda>e. case fst e of HttpGet _ \<Rightarrow> True | _ \<Rightarrow> False) demo_fetch)" by (rule length_greater_0_conv[THEN iffD2])
  with one_fetch_per_token[OF demo_id_token_accepted] show ?thesis by linarith
qed

text \<open>
  C26. A refresh of the keys asks the provider's own address, and only when the cooldown has passed
  since the time of the last refresh that it read. A refresh that fetched and succeeded has read the
  keys out of the body of that reply, has written exactly these as the provider's keys, and then has read the
  clock anew and written that time as the time of the last refresh; it has done nothing else.
\<close>

theorem refresh_is_gated:
  assumes "runs (refresh_jwks L i p) tr res" "(HttpGet u, r) \<in> set tr"
  shows "u = op_jwks_uri p \<and>
    (\<exists>last now. (LastRead i, RMono last) \<in> set tr \<and> (MonoNow, RMono now) \<in> set tr \<and> op_refresh_cooldown p \<le> now - last) \<and>
    (res = Inr () \<longrightarrow> (\<exists>last now body ks t. jwks_from_body L body = Inr ks \<and>
       tr = [(LastRead i, RMono last), (MonoNow, RMono now), (HttpGet (op_jwks_uri p), RHttp (Inr (Inr body))),
             (JwksWrite i ks, RUnit), (MonoNow, RMono t), (LastWrite i t, RUnit)]))"
proof -
  have body: "\<exists>body. sent = Inr (Inr body) \<and> jwks_from_body L body = Inr ks" if "fetched_keys L p sent = Inr ks" for sent ks
    using that by (auto simp: fetched_keys_def split: sum.split_asm)
  show ?thesis
    using assms(1)[unfolded runs_refresh_jwks refresh_trace_def] assms(2)
    by (elim exE disjE conjE) (auto dest!: body)
qed

lemma refresh_is_gated_witness:
  "\<exists>last now. (LastRead 0, RMono last) \<in> set (take 6 (tl demo_fetch)) \<and> (MonoNow, RMono now) \<in> set (take 6 (tl demo_fetch)) \<and>
     60000000000 \<le> now - last"
proof -
  have "runs (refresh_jwks ref_lib 0 demo_provider) (take 6 (tl demo_fetch)) (Inr ())" unfolding feed_runs by code_simp
  moreover have "(HttpGet ''u'', RHttp (Inr (Inr ''k1:m''))) \<in> set (take 6 (tl demo_fetch))" by (simp add: demo_fetch_def)
  ultimately have "\<exists>last now. (LastRead 0, RMono last) \<in> set (take 6 (tl demo_fetch)) \<and>
      (MonoNow, RMono now) \<in> set (take 6 (tl demo_fetch)) \<and> op_refresh_cooldown demo_provider \<le> now - last"
    using refresh_is_gated by blast
  then show ?thesis by (simp add: demo_provider_def)
qed

text \<open>
  C37. A refresh that fails has fetched, and has written neither the keys nor the time: the cooldown
  does not hold back the next fetch after a failure.
\<close>

theorem failed_refresh_leaves_clock:
  assumes "runs (refresh_jwks L i p) tr (Inl m)"
  shows "(\<exists>r. (HttpGet (op_jwks_uri p), r) \<in> set tr) \<and>
    (\<forall>n ks t r. (JwksWrite n ks, r) \<notin> set tr \<and> (LastWrite n t, r) \<notin> set tr)"
  using assms[unfolded runs_refresh_jwks refresh_trace_def] by (elim exE disjE conjE) auto

lemma failed_refresh_leaves_clock_witness:
  "let tr = [(LastRead 0, RMono 0), (MonoNow, RMono 61000000000), (HttpGet ''u'', RHttp (Inl ''down''))] in
   runs (refresh_jwks ref_lib 0 demo_provider) tr (Inl ''JWKS fetch failed for p: down'') \<and>
   (\<forall>n t r. (LastWrite n t, r) \<notin> set tr)"
proof -
  let ?tr = "[(LastRead 0, RMono 0), (MonoNow, RMono 61000000000), (HttpGet ''u'', RHttp (Inl ''down''))]"
  have r: "runs (refresh_jwks ref_lib 0 demo_provider) ?tr (Inl ''JWKS fetch failed for p: down'')"
    unfolding feed_runs by code_simp
  from failed_refresh_leaves_clock[OF r] r show ?thesis by (simp add: Let_def)
qed

end
