(* ===== verification/Start_Properties.thy ===== *)
theory Start_Properties
  imports Reference_Run Liveness
begin

text \<open>
  The properties of the configuration (\<open>src/config.rs\<close>) and of the start of the process (\<open>src/main.rs\<close>).
\<close>

section \<open>An environment on the reference library\<close>

definition demo_env :: env_vars where
  "demo_env = [(''NATS_URL'', ''n''), (''JWT_SECRET'', ''k''), (''JWKS_REFRESH_COOLDOWN_SECONDS'', ''0''),
     (''BEARER_SEAL_KEY'', ref_b64 (replicate 32 1))]"

definition demo_start :: start_up where
  "demo_start = \<lparr>su_version_flag = False, su_metrics = Inr (), su_connect = Inr (), su_bearer_reader = Inr (),
     su_tokens = Inr (), su_families = Inr (), su_http_client = Inr (), su_listen = True\<rparr>"

definition demo_probes :: "event list" where
  "demo_probes = [(TokStatus, RDone (Inr ())), (PlGet (KvKey HEALTH_PROBE_KEY), RSealed (Inr None))]"

definition prog_value :: "'a prog \<Rightarrow> 'a option" where
  "prog_value p = (case p of Ret x \<Rightarrow> Some x | _ \<Rightarrow> None)"

lemma demo_config: "\<exists>cfg. from_env ref_lib demo_env = Ret (Inr cfg)"
proof -
  have "case prog_value (from_env ref_lib demo_env) of Some (Inr _) \<Rightarrow> True | _ \<Rightarrow> False" by code_simp
  then show ?thesis by (cases "from_env ref_lib demo_env") (auto simp: prog_value_def split: sum.splits)
qed

lemma demo_serves: "\<exists>S. runs (main_start ref_lib demo_start demo_env) demo_probes (Serving S True)"
proof -
  have "case feed_result (main_start ref_lib demo_start demo_env) demo_probes of Some (Serving S r) \<Rightarrow> r | _ \<Rightarrow> False"
    by code_simp
  then show ?thesis unfolding feed_runs by (auto split: option.splits start_result.splits)
qed

section \<open>Configuration\<close>

text \<open>An environment name is accepted exactly when it is the printed name of an environment, and as that one.\<close>

theorem environment_names_roundtrip:
  "environment_parse s = Inr e \<longleftrightarrow> s = environment_to_string e"
  by (rule environment_parse_iff)

text \<open>
  A numeric setting printed in decimal is read back; text that is no unsigned number of the width
  counts as unset, and the default is taken.
\<close>

theorem numeric_settings:
  assumes "map_of env name = Some v"
  shows "parse_u64_env env name d =
      (case parse_unsigned (2 ^ 64) v of Some n \<Rightarrow> word_of_nat n | None \<Rightarrow> d) \<and>
    (\<forall>x. v = show_nat (unat x) \<longrightarrow> parse_u64_env env name d = x)"
proof -
  have eq: "parse_u64_env env name d = (case parse_unsigned (2 ^ 64) v of Some n \<Rightarrow> word_of_nat n | None \<Rightarrow> d)"
    using assms by (simp add: parse_u64_env_def env_var_def or_default_def split: option.splits)
  have "unat x < 2 ^ 64" for x :: u64 using unsigned_less[of x, where ?'a = nat] by simp
  then have "parse_unsigned (2 ^ 64) (show_nat (unat x)) = Some (unat x)" for x :: u64 by (rule parse_show_nat)
  with eq show ?thesis by simp
qed

lemma numeric_settings_witness:
  "parse_u64_env [(''JWT_ACCESS_TOKEN_TTL'', ''60'')] ''JWT_ACCESS_TOKEN_TTL'' 900 = 60"
proof -
  have "show_nat (unat (60 :: u64)) = ''60''" by code_simp
  with numeric_settings[of "[(''JWT_ACCESS_TOKEN_TTL'', ''60'')]" "''JWT_ACCESS_TOKEN_TTL''" "''60''" 900]
  show ?thesis by (metis map_of_Cons_code(2))
qed

text \<open>
  C32. A configuration that loads is sound: every provider has a name, an address and a client id;
  outside the local environment there is at least one; the seal key has 32 bytes; the cooldown of the
  key refresh is at least one second, whatever the variable says.
\<close>

theorem loaded_config_sound:
  assumes "from_env L env = Ret (Inr cfg)"
  shows "list_all wf_provider_config (cf_oidc_providers cfg) \<and>
    (cf_environment cfg \<noteq> Local \<longrightarrow> cf_oidc_providers cfg \<noteq> []) \<and>
    length (seal_key_bytes (cf_bearer_seal_key cfg)) = 32 \<and> 1 \<le> cf_jwks_refresh_cooldown_secs cfg \<and>
    map_of env ''JWT_SECRET'' = Some (cf_jwt_secret cfg)"
  using scan_providers_wf[OF from_env_ok(1)[OF assms] ] from_env_ok(2-5)[OF assms] by blast

lemma loaded_config_sound_witness:
  "\<exists>cfg. from_env ref_lib demo_env = Ret (Inr cfg) \<and> 1 \<le> cf_jwks_refresh_cooldown_secs cfg \<and> cf_jwt_secret cfg = ''k''"
proof -
  obtain cfg where cfg: "from_env ref_lib demo_env = Ret (Inr cfg)" using demo_config by blast
  have "map_of demo_env ''JWT_SECRET'' = Some ''k''" by (simp add: demo_env_def)
  with loaded_config_sound[OF cfg] cfg show ?thesis by auto
qed

text \<open>
  C33. With the variable \<open>OIDC_DISCOVERY_URL\<close> set (to anything but the empty text) the service never
  serves: the variable matches the prefix and the suffix of a provider's variable, which overlap in it.
\<close>

theorem overlapping_variable_never_serves:
  assumes "(''OIDC_DISCOVERY_URL'', u) \<in> set env" "u \<noteq> []"
  shows "\<not> runs (main_start L su env) tr (Serving S ready)"
proof
  assume "runs (main_start L su env) tr (Serving S ready)"
  from serving_state[OF this] obtain cfg where "from_env L env = Ret (Inr cfg)" by blast
  from from_env_ok(1)[OF this] overlap_never_ok[OF assms] show False by blast
qed

lemma overlapping_variable_never_serves_witness:
  "\<not> runs (main_start ref_lib demo_start ((''OIDC_DISCOVERY_URL'', ''u'') # demo_env)) demo_probes (Serving demo_state True) \<and>
   scan_providers demo_env [(''OIDC_DISCOVERY_URL'', ''u'')] = Panic"
  using overlapping_variable_never_serves[of "''u''" "(''OIDC_DISCOVERY_URL'', ''u'') # demo_env"] overlap_panics[of "''u''"]
  by simp

section \<open>The start ends\<close>

lemma scan_shape:
  "scan_providers env rest = Panic \<or> (\<exists>e. scan_providers env rest = Ret (Inl e)) \<or>
     (\<exists>ps. scan_providers env rest = Ret (Inr ps) \<and> length ps \<le> length rest)"
proof (induction rest)
  case (Cons kv rest)
  obtain key url where kv: "kv = (key, url)" by (cases kv) auto
  from Cons.IH show ?case by (elim disjE exE conjE) (auto simp: kv Let_def split: option.splits)
qed simp

lemma from_env_shape:
  assumes "\<forall>u. (''OIDC_DISCOVERY_URL'', u) \<in> set env \<longrightarrow> u = []"
  obtains e where "from_env L env = Ret (Inl e)"
  | cfg where "from_env L env = Ret (Inr cfg)" "length (cf_oidc_providers cfg) \<le> length env"
proof -
  have no: "scan_providers env env \<noteq> Panic" using scan_panics[of env env] assms by blast
  then have "\<exists>r. from_env L env = Ret r"
    using scan_shape[of env env]
    by (auto simp: from_env_def discover_oidc_providers_def split: sum.splits if_splits)
  then obtain r where r: "from_env L env = Ret r" by blast
  show thesis
  proof (cases r)
    case (Inr cfg)
    with r have cfg: "from_env L env = Ret (Inr cfg)" by simp
    from from_env_ok(1)[OF this] scan_shape[of env env] have "length (cf_oidc_providers cfg) \<le> length env" by auto
    with cfg show thesis by (rule that(2))
  qed (use r that(1) in simp)
qed

lemma cost_discover_one: "cost_le (discover_one L cd cfg) 3"
  by (simp add: discover_one_def)

lemma cost_discover_all: "cost_le (discover_all L cd cfgs) (3 * length cfgs)"
proof (induction cfgs)
  case (Cons cfg cfgs)
  have "cost_le (bind (discover_all L cd cfgs) (\<lambda>rest. case rest of Inl e \<Rightarrow> Ret (Inl e) | Inr ps \<Rightarrow> Ret (Inr (p # ps))))
      (3 * length cfgs)" for p
    using Cons.IH by (rule cost_step) (auto split: sum.split)
  then show ?case
    unfolding discover_all.simps by (intro cost_step[OF cost_discover_one]) (auto split: sum.split)
qed simp

lemma cost_init_caches: "cost_le p n \<Longrightarrow> cost_le (init_caches i ps p) (2 * length ps + n)"
  by (induction ps arbitrary: i) auto

lemma total_init_caches: "total p \<Longrightarrow> total (init_caches i ps p)"
  by (induction ps arbitrary: i) auto

lemma total_discover_all: "total (discover_all L cd cfgs)"
  by (induction cfgs) (auto simp: discover_one_def split: sum.split intro!: total_bind')

lemma readiness_bounds: "total (readiness L)" "cost_le (readiness L) 2"
  by (auto simp: readiness_eq tok_status_def done_call_def split: sum.split reply.splits)

lemma open_oidc_bounds:
  "total (open_oidc L su cfg)" "cost_le (open_oidc L su cfg) (3 * length (cf_oidc_providers cfg))"
  by (auto simp: open_oidc_def discover_def total_discover_all cost_discover_all split: sum.split)

lemma open_oidc_length:
  "runs (open_oidc L su cfg) tr (Inr ps) \<Longrightarrow> length ps = length (cf_oidc_providers cfg)"
  by (auto simp: open_oidc_def discover_def split: if_splits sum.splits dest!: runs_discover_all dest: map_eq_imp_length_eq)

lemma main_start_bounds:
  assumes "\<forall>u. (''OIDC_DISCOVERY_URL'', u) \<in> set env \<longrightarrow> u = []" "su_listen su"
  shows "total (main_start L su env) \<and> cost_le (main_start L su env) (5 * length env + 2)"
proof (rule from_env_shape[OF assms(1), of L])
  fix e assume "from_env L env = Ret (Inl e)"
  then show ?thesis by (simp add: main_start_def split: sum.split)
next
  fix cfg assume cfg: "from_env L env = Ret (Inr cfg)" "length (cf_oidc_providers cfg) \<le> length env"
  define serve where "serve = (\<lambda>(key :: bearer_seal_key) (providers :: (oidc_provider \<times> jwk_set \<times> instant) list) ready.
    if su_listen su then Ret (Serving (app_state_of cfg key (map fst providers)) ready) else Panic)"
  define cont where "cont = (\<lambda>key opened. case opened of
        Inl e \<Rightarrow> Ret (ExitOne (OidcFailed e))
      | Inr providers \<Rightarrow> init_caches 0 providers (bind (readiness L) (serve key providers)))"
  have serve: "total (serve key ps ready)" "cost_le (serve key ps ready) 0" for key ps ready
    by (simp_all add: serve_def assms(2))
  have cont: "total (cont key res)" "runs (open_oidc L su cfg) tr res \<Longrightarrow> cost_le (cont key res) (2 * length env + 2)" for key res tr
  proof -
    show "total (cont key res)"
      by (auto simp: cont_def intro!: total_init_caches total_bind' readiness_bounds(1) serve(1) split: sum.split)
    have r: "cost_le (bind (readiness L) (serve key ps)) 2" for ps
      using cost_bind[OF readiness_bounds(2) serve(2)] by simp
    show "cost_le (cont key res) (2 * length env + 2)" if "runs (open_oidc L su cfg) tr res"
      using that open_oidc_length[of L su cfg tr] cfg(2)
      by (auto simp: cont_def intro!: cost_mono[OF cost_init_caches[OF r] ] split: sum.split)
  qed
  have "total (bind (open_oidc L su cfg) (cont key))" for key by (intro total_bind' open_oidc_bounds(1) cont(1))
  moreover have "cost_le (bind (open_oidc L su cfg) (cont key)) (5 * length env + 2)" for key
    using cost_mono[OF cost_bind[OF open_oidc_bounds(2) cont(2)] ] cfg(2) by simp
  ultimately show ?thesis
    by (auto simp: main_start_def cfg(1) cont_def serve_def split: sum.split)
qed

text \<open>
  C30. The start always ends, and soon: unless the variable \<open>OIDC_DISCOVERY_URL\<close> is set or the port cannot
  be bound, the process reaches serving or exits with a reason, whatever the network, the providers and
  the stores reply, after at most five requests per environment variable and two probes.
\<close>

theorem start_ends:
  assumes "\<forall>u. (''OIDC_DISCOVERY_URL'', u) \<in> set env \<longrightarrow> u = []" "su_listen su"
    "\<forall>q w r w'. W q w = (r, w') \<longrightarrow> well_kinded q r"
  shows "\<exists>res tr w'. exec W (main_start L su env) w = (Some res, w') \<and> runs (main_start L su env) tr res \<and>
    follows W w tr w' \<and> length tr \<le> 5 * length env + 2"
proof -
  have b: "total (main_start L su env) \<and> cost_le (main_start L su env) (5 * length env + 2)"
    by (rule main_start_bounds[OF assms(1,2)])
  then obtain res w' where e: "exec W (main_start L su env) w = (Some res, w')"
    using total_exec[of "main_start L su env" W] assms(3) by blast
  from exec_runs[OF this] obtain tr where "runs (main_start L su env) tr res" "follows W w tr w'" by (elim exE conjE)
  with e cost_runs[OF conjunct2[OF b] ] show ?thesis by blast
qed

lemma start_ends_witness:
  "\<exists>res tr w'. exec rw_step (main_start ref_lib demo_start demo_env) demo_world = (Some res, w') \<and>
    runs (main_start ref_lib demo_start demo_env) tr res \<and> length tr \<le> 22"
proof -
  have env: "\<forall>u. (''OIDC_DISCOVERY_URL'', u) \<in> set demo_env \<longrightarrow> u = []" "su_listen demo_start" "length demo_env = 4"
    by (simp_all add: demo_env_def demo_start_def)
  from fabric_okD(1)[OF rw_fabric_ok] have "\<forall>q w r w'. rw_step q w = (r, w') \<longrightarrow> well_kinded q r" by blast
  from start_ends[OF env(1,2) this, of ref_lib demo_world] env(3) show ?thesis by auto
qed

section \<open>Serving\<close>

text \<open>
  C31. A process that serves has a well-formed state: tokens are verified with the key they are signed
  with, cookies live as long as the tokens in them, the seal key fits the cipher; its providers are the
  configured ones, in order, each with the configured cooldown; and all three buckets were bound.
\<close>

theorem serving_state_wf:
  assumes "runs (main_start L su env) tr (Serving S ready)"
  shows "\<exists>cfg. from_env L env = Ret (Inr cfg) \<and> wf_state S \<and>
    map op_client_id (as_oidc S) = map pc_client_id (cf_oidc_providers cfg) \<and>
    list_all (\<lambda>p. op_refresh_cooldown p = unat (cf_jwks_refresh_cooldown_secs cfg) * 1000000000) (as_oidc S) \<and>
    su_bearer_reader su = Inr () \<and> su_tokens su = Inr () \<and> su_families su = Inr ()"
proof -
  from serving_state[OF assms] obtain cfg key t1 ps where s: "from_env L env = Ret (Inr cfg)" "key = cf_bearer_seal_key cfg"
    "S = app_state_of cfg key (map fst ps)" "runs (open_oidc L su cfg) t1 (Inr ps)"
    "su_bearer_reader su = Inr ()" "su_tokens su = Inr ()" "su_families su = Inr ()" by blast
  have "map (op_client_id \<circ> fst) ps = map pc_client_id (cf_oidc_providers cfg) \<and>
      list_all (\<lambda>p. op_refresh_cooldown (fst p) = unat (cf_jwks_refresh_cooldown_secs cfg) * 1000000000) ps"
  proof (cases "cf_oidc_providers cfg = []")
    case False
    with s(4) obtain u where "su_http_client su = Inr u"
      "runs (discover_all L (unat (cf_jwks_refresh_cooldown_secs cfg) * 1000000000) (cf_oidc_providers cfg)) t1 (Inr ps)"
      unfolding open_oidc_def discover_def by (cases "su_http_client su") auto
    from runs_discover_all[OF this(2)] show ?thesis by simp
  qed (use s(4) in \<open>simp add: open_oidc_def\<close>)
  moreover have "wf_state S" unfolding s(3) s(2) by (rule app_state_of_wf[OF from_env_ok(3)[OF s(1)] ])
  ultimately show ?thesis using s by (auto simp: app_state_of_def list_all_iff)
qed

lemma serving_state_wf_witness:
  "\<exists>S. runs (main_start ref_lib demo_start demo_env) demo_probes (Serving S True) \<and> wf_state S"
  using demo_serves serving_state_wf by blast

text \<open>
  The service reports ready only when both probes answered: the status of the token bucket and a
  read of the bearer bucket. Any failure, an invalid probe key included, reads as not ready.
\<close>

theorem ready_means_both_stores:
  "runs (readiness L) tr True \<longleftrightarrow>
     (\<exists>probe v. kv_key_new L HEALTH_PROBE_KEY = Inr probe \<and>
        tr = [(TokStatus, RDone (Inr ())), (PlGet probe, RSealed (Inr v))])"
proof
  assume "runs (readiness L) tr True"
  then obtain x probe y where "kv_key_new L HEALTH_PROBE_KEY = Inr probe"
    "tr = [(TokStatus, RDone x), (PlGet probe, RSealed y)]" "\<not> isl x" "\<not> isl y"
    unfolding runs_readiness by auto
  then show "\<exists>probe v. kv_key_new L HEALTH_PROBE_KEY = Inr probe \<and>
        tr = [(TokStatus, RDone (Inr ())), (PlGet probe, RSealed (Inr v))]" by (cases x; cases y) auto
qed (auto simp: runs_readiness)

end
