(* ===== verification/Endpoint_Properties.thy ===== *)
theory Endpoint_Properties
  imports Oidc_Properties
begin

text \<open>
  The properties of the four endpoints, one request at a time: what each answers, branch by branch.
\<close>

section \<open>POST /auth/refresh and GET /auth/check\<close>

text \<open>
  C10. The two endpoints that renew a session run the same sequence of steps on the refresh token they
  are given, and differ in nothing but the answer: the handler of \<open>src/refresh.rs\<close> and the silent
  refresh of \<open>src/auth_check.rs\<close> are both \<open>renewal\<close> followed by a table of answers.
\<close>

theorem endpoints_share_renewal:
  "handle_refresh L S body headers =
     (case resolve_refresh_token L body headers (as_cookie_config S) of
        None \<Rightarrow> Ret (Inr (json_response 200 (JObj [(''status'', JStr ''no_session'')])))
      | Some jwt \<Rightarrow> bind (renewal L S jwt) (refresh_answer L S)) \<and>
   silent_refresh L S headers =
     (case extract_refresh_cookie L headers (as_cookie_config S) of
        None \<Rightarrow> clear_access_cookie_response L S
      | Some jwt \<Rightarrow> bind (renewal L S jwt) (check_answer L S))"
  by (rule conjI[OF handle_refresh_renewal silent_refresh_renewal])

text \<open>
  C19. The answer of \<open>/auth/refresh\<close> to a request with a refresh token, by the outcome of the renewal:
  200 with the two new cookies; 401 with both cookies cleared when the token is expired, invalid,
  unknown, revoked or replayed; 500 without touching the cookies when the store or the signing failed.
\<close>

theorem refresh_answers:
  assumes "answer_laws L" "runs (refresh_handler L S headers body) tr y"
    "resolve_refresh_token L (request_of body) headers (as_cookie_config S) = Some jwt"
  shows "\<exists>out t1 t2 cs. tr = t1 @ t2 \<and> runs (renewal L S jwt) t1 out \<and> session_part L S cs \<and>
    (case out of
       Renewed a r \<Rightarrow> status y = 200 \<and> set_cookies y = handing_out S a r @ cs
     | LookupFailed _ \<Rightarrow> status y = 500 \<and> set_cookies y = cs
     | SigningFailed _ \<Rightarrow> status y = 500 \<and> set_cookies y = cs
     | RotationFailed _ \<Rightarrow> status y = 500 \<and> set_cookies y = cs
     | _ \<Rightarrow> status y = 401 \<and> set_cookies y = clearing S @ cs)"
proof -
  have "runs (bind (renewal L S jwt) (\<lambda>out. bind (refresh_answer L S out) (refresh_finish L S headers))) tr y"
    using assms(2,3) unfolding refresh_handler_finish handle_refresh_renewal by (simp add: bind_assoc)
  then obtain t1 t2 out where t: "tr = t1 @ t2" "runs (renewal L S jwt) t1 out"
    "runs (bind (refresh_answer L S out) (refresh_finish L S headers)) t2 y" by (rule runs_bindE)
  from refresh_reply_ok[OF assms(1) t(2,3)] obtain cs where
    "status y = fst (refresh_reply S out)" "set_cookies y = snd (refresh_reply S out) @ cs" "session_part L S cs" by auto
  with t show ?thesis
    by (intro exI[of _ out] exI[of _ t1] exI[of _ t2] exI[of _ cs]) (cases out; simp)
qed

definition junk_request :: "refresh_request option" where
  "junk_request = Some \<lparr>rr_refresh_token = Some ''junk''\<rparr>"

lemma demo_junk:
  "\<exists>y. runs (refresh_handler ref_lib demo_state Map.empty junk_request) [(UtcNow, RUtc 1000000000), (NowV7, RUuid 3)] y \<and> status y = 401"
proof -
  have "case feed_result (refresh_handler ref_lib demo_state Map.empty junk_request)
      [(UtcNow, RUtc 1000000000), (NowV7, RUuid 3)] of Some y \<Rightarrow> status y = 401 | None \<Rightarrow> False" by code_simp
  then show ?thesis unfolding feed_runs by (auto split: option.splits)
qed

lemma refresh_answers_witness:
  "\<exists>y cs. runs (refresh_handler ref_lib demo_state Map.empty junk_request) [(UtcNow, RUtc 1000000000), (NowV7, RUuid 3)] y \<and>
     set_cookies y = clearing demo_state @ cs"
proof -
  obtain y where y: "runs (refresh_handler ref_lib demo_state Map.empty junk_request)
      [(UtcNow, RUtc 1000000000), (NowV7, RUuid 3)] y" "status y = 401" using demo_junk by blast
  have "resolve_refresh_token ref_lib (request_of junk_request) Map.empty (as_cookie_config demo_state) = Some ''junk''"
    by (simp add: resolve_refresh_token_def request_of_def junk_request_def)
  from refresh_answers[OF demo_answer_laws y(1) this] obtain out cs where
    "case out of
       Renewed a r \<Rightarrow> status y = 200 \<and> set_cookies y = handing_out demo_state a r @ cs
     | LookupFailed _ \<Rightarrow> status y = 500 \<and> set_cookies y = cs
     | SigningFailed _ \<Rightarrow> status y = 500 \<and> set_cookies y = cs
     | RotationFailed _ \<Rightarrow> status y = 500 \<and> set_cookies y = cs
     | _ \<Rightarrow> status y = 401 \<and> set_cookies y = clearing demo_state @ cs" by blast
  then have "set_cookies y = clearing demo_state @ cs" using y(2) by (cases out) auto
  with y(1) show ?thesis by blast
qed

text \<open>
  C20. The answer of \<open>/auth/check\<close> to a request with an access cookie: 200 and untouched when the token
  verifies; with the silent refresh switched off, 401 otherwise; with it on, never anything but 200: an
  invalid token is cleared, an expired one is renewed from the refresh cookie, and when the renewal is
  refused, for whatever reason, both cookies are cleared.
\<close>

theorem check_answers:
  assumes "answer_laws L" "runs (auth_check_handler L S headers) tr y"
    "extract_access_cookie L headers (as_cookie_config S) = Some t"
  shows "\<exists>ver t1 t2 cs. tr = t1 @ t2 \<and> runs (verify_access_token L (as_jwt S) t) t1 ver \<and> session_part L S cs \<and>
    (case ver of
       Inr _ \<Rightarrow> status y = 200 \<and> set_cookies y = cs
     | Inl e \<Rightarrow>
         if \<not> as_auth_check_silent_refresh S then status y = 401 \<and> set_cookies y = cs
         else if e \<noteq> Expired then status y = 200 \<and> set_cookies y = clearing S @ cs
         else (case extract_refresh_cookie L headers (as_cookie_config S) of
             None \<Rightarrow> status y = 200 \<and> set_cookies y = [build_clear_access_cookie (as_cookie_config S)] @ cs
           | Some jwt \<Rightarrow> \<exists>out t3 t4. t2 = t3 @ t4 \<and> runs (renewal L S jwt) t3 out \<and> status y = 200 \<and>
               set_cookies y = (case out of Renewed a r \<Rightarrow> handing_out S a r | _ \<Rightarrow> clearing S) @ cs))"
proof -
  from assms(2,3) obtain tj ts r where j: "tr = tj @ ts" "runs (handle_jwt_cookie L S t headers) tj r"
    "runs (append_session_cookie_if_needed L S (extract_session_cookie L headers (as_cookie_config S)) r) ts y"
    unfolding auth_check_handler_def Let_def by (auto elim: runs_bindE)
  from session_appended[OF assms(1) j(3)] obtain cs where
    cs: "status y = status r" "set_cookies y = set_cookies r @ cs" "session_part L S cs" by blast
  from j(2) obtain t1 t2 ver where v: "tj = t1 @ t2" "runs (verify_access_token L (as_jwt S) t) t1 ver"
    "runs (case ver of
        Inr _ \<Rightarrow> Ret (status_response 200)
      | Inl Expired \<Rightarrow>
          if as_auth_check_silent_refresh S then silent_refresh L S headers
          else Ret (status_response 401)
      | Inl (Invalid _) \<Rightarrow>
          if as_auth_check_silent_refresh S then clear_cookies_response L S
          else Ret (status_response 401)) t2 r"
    unfolding handle_jwt_cookie_def by (rule runs_bindE)
  have clear: "status r' = 200 \<and> set_cookies r' = clearing S" if "runs (clear_cookies_response L S) t' r'" for t' r'
    using cleared_response[OF assms(1) _ that[unfolded clear_cookies_response_def]] by simp
  let ?goal = "case ver of
       Inr _ \<Rightarrow> status r = 200 \<and> set_cookies r = []
     | Inl e \<Rightarrow>
         if \<not> as_auth_check_silent_refresh S then status r = 401 \<and> set_cookies r = []
         else if e \<noteq> Expired then status r = 200 \<and> set_cookies r = clearing S
         else (case extract_refresh_cookie L headers (as_cookie_config S) of
             None \<Rightarrow> status r = 200 \<and> set_cookies r = [build_clear_access_cookie (as_cookie_config S)]
           | Some jwt \<Rightarrow> \<exists>out t3 t4. t2 = t3 @ t4 \<and> runs (renewal L S jwt) t3 out \<and> status r = 200 \<and>
               set_cookies r = (case out of Renewed a r \<Rightarrow> handing_out S a r | _ \<Rightarrow> clearing S))"
  have g: ?goal
  proof (cases "ver = Inl Expired \<and> as_auth_check_silent_refresh S")
    case False
    then show ?thesis using v(3) by (cases ver) (auto split: jwt_error.splits if_splits dest: clear)
  next
    case True
    then have s: "runs (silent_refresh L S headers) t2 r" using v(3) by simp
    show ?thesis
    proof (cases "extract_refresh_cookie L headers (as_cookie_config S)")
      case None
      have "http_ok L" using assms(1) by (simp add: answer_laws_def)
      with None s True show ?thesis
        by (auto simp: silent_refresh_renewal clear_access_cookie_response_def runs_parse_header parsed_cookies)
    next
      case (Some jwt)
      then have "runs (bind (renewal L S jwt) (check_answer L S)) t2 r" using s by (simp add: silent_refresh_renewal)
      then obtain t3 t4 out where o: "t2 = t3 @ t4" "runs (renewal L S jwt) t3 out" "runs (check_answer L S out) t4 r"
        by (rule runs_bindE)
      from check_reply_ok[OF assms(1) o(2,3)] have "status r = 200"
        "set_cookies r = (case out of Renewed a r \<Rightarrow> handing_out S a r | _ \<Rightarrow> clearing S)"
        by (cases out; simp)+
      with o(1,2) True Some show ?thesis by auto
    qed
  qed
  show ?thesis
  proof (rule exI[of _ ver], rule exI[of _ t1], rule exI[of _ "t2 @ ts"], rule exI[of _ cs])
  qed (use g v(1,2) j(1) cs in \<open>(cases ver; auto split: if_splits option.splits), blast\<close>)
qed

lemma check_answers_witness:
  "\<exists>y ver t1 cs. runs (auth_check_handler ref_lib demo_state [''cookie'' \<mapsto> ''access_token='' @ demo_token])
       [(UtcNow, RUtc 1000000000), (NowV7, RUuid 3)] y \<and> status y = 200 \<and>
     runs (verify_access_token ref_lib (as_jwt demo_state) demo_token) t1 ver \<and> session_part ref_lib demo_state cs"
proof -
  let ?h = "[''cookie'' \<mapsto> ''access_token='' @ demo_token]"
  have "case feed_result (auth_check_handler ref_lib demo_state ?h) [(UtcNow, RUtc 1000000000), (NowV7, RUuid 3)] of
      Some y \<Rightarrow> status y = 200 | None \<Rightarrow> False" by code_simp
  then obtain y where y: "runs (auth_check_handler ref_lib demo_state ?h) [(UtcNow, RUtc 1000000000), (NowV7, RUuid 3)] y"
    "status y = 200" unfolding feed_runs by (auto split: option.splits)
  have "extract_access_cookie ref_lib ?h (as_cookie_config demo_state) = Some demo_token" by code_simp
  from check_answers[OF demo_answer_laws y(1) this] y show ?thesis by blast
qed

section \<open>POST /auth/logout\<close>

text \<open>
  C23. Logging out always answers 200 and clears both cookies, with or without a refresh cookie, and
  whether or not the family could be revoked.
\<close>

theorem logout_clears:
  assumes "answer_laws L" "runs (logout_handler L S headers) tr y"
  shows "status y = 200 \<and> set_cookies y = clearing S"
  by (rule logout_response[OF assms])

lemma logout_clears_witness:
  "\<exists>y. runs (logout_handler ref_lib demo_state Map.empty) [] y \<and> set_cookies y = clearing demo_state"
proof -
  have "feed_result (logout_handler ref_lib demo_state Map.empty) [] \<noteq> None" by code_simp
  then obtain y where "runs (logout_handler ref_lib demo_state Map.empty) [] y" unfolding feed_runs by auto
  with logout_clears[OF demo_answer_laws this] show ?thesis by blast
qed

section \<open>POST /auth/token\<close>

text \<open>
  C21. A sign-in that is answered with 200 has verified an id token, has signed both tokens for its
  e-mail and no other subject, and has stored the row of the new refresh token, unused, under its own
  key; the two cookies hold those tokens.
\<close>

theorem sign_in_grants:
  assumes "answer_laws L" "runs (token_handler L S headers (Some body)) tr y" "status y = 200"
  shows "\<exists>idt claims a r u tv ta ts k row cs.
    tr_grant_type body = Some ''id_token'' \<and> tr_id_token body = Some idt \<and> idt \<noteq> [] \<and>
    runs (verify_id_token L (as_oidc S) idt) tv (Inr claims) \<and> oc_email claims \<noteq> [] \<and>
    runs (sign_access_token L (as_jwt S) (oc_email claims)) ta (Inr a) \<and>
    runs (sign_refresh_token L (as_jwt S) (oc_email claims)) ts (Inr (r, u)) \<and>
    refresh_key L u = Inr k \<and> (TokPut k row, RDone (Inr ())) \<in> set tr \<and>
    rt_id row = u \<and> rt_email row = oc_email claims \<and> rt_used_at row = None \<and>
    set_cookies y = handing_out S a r @ cs \<and> session_part L S cs"
proof -
  from assms(2) obtain t1 t2 res where h: "tr = t1 @ t2" "runs (handle_token L S body) t1 res"
    "runs (case res of Inr r \<Rightarrow> append_session_cookie_if_needed L S (extract_session_cookie L headers (as_cookie_config S)) r
      | Inl e \<Rightarrow> Ret (app_error_into_response e)) t2 y"
    unfolding token_handler_def Let_def by (auto elim: runs_bindE)
  with assms(3) obtain z where z: "res = Inr z" by (cases res) auto
  from h(3) have app: "runs (append_session_cookie_if_needed L S (extract_session_cookie L headers (as_cookie_config S)) z) t2 y"
    by (simp add: z)
  from session_appended[OF assms(1) app] obtain cs where cs: "set_cookies y = set_cookies z @ cs" "session_part L S cs" by blast
  from handle_token_ok[OF h(2)[unfolded z]] obtain idt claims t3 t4 where
    s: "sign_in_request body = Some idt" "t1 = t3 @ t4" "runs (verify_id_token L (as_oidc S) idt) t3 (Inr claims)"
      "oc_email claims \<noteq> []" "runs (session_for L S (oc_email claims)) t4 (Inr z)" by (elim exE conjE)
  from session_for_ok[OF assms(1) s(5)] obtain a r u ta ts k row where
    g: "runs (sign_access_token L (as_jwt S) (oc_email claims)) ta (Inr a)"
      "runs (sign_refresh_token L (as_jwt S) (oc_email claims)) ts (Inr (r, u))"
      "refresh_key L u = Inr k" "(TokPut k row, RDone (Inr ())) \<in> set t4"
      "rt_id row = u" "rt_email row = oc_email claims" "rt_used_at row = None" "set_cookies z = handing_out S a r"
    by (elim exE conjE)
  have req: "tr_grant_type body = Some ''id_token''" "tr_id_token body = Some idt" "idt \<noteq> []"
    using s(1) by (auto simp: sign_in_request_def split: if_splits)
  show ?thesis
    using req s(3,4) g cs h(1) s(2)
    by (intro exI[of _ idt] exI[of _ claims] exI[of _ a] exI[of _ r] exI[of _ u] exI[of _ t3] exI[of _ ta]
        exI[of _ ts] exI[of _ k] exI[of _ row] exI[of _ cs]) simp
qed

definition oidc_state :: app_state where
  "oidc_state = demo_state\<lparr>as_oidc := [demo_provider]\<rparr>"

definition demo_sign_in :: token_request where
  "demo_sign_in = \<lparr>tr_grant_type = Some ''id_token'', tr_id_token = Some demo_id_token\<rparr>"

definition demo_sign_in_trace :: "event list" where
  "demo_sign_in_trace = [(JwksRead 0, RJwks [demo_jwk]), (UtcNow, RUtc 1000000000), (UtcNow, RUtc 1000000000),
     (NowV7, RUuid 3), (UtcNow, RUtc 1000000000), (NowV7, RUuid 4), (UtcNow, RUtc 1000000000),
     (TokPut (KvKey ''refresh.3'') \<lparr>rt_id = 3, rt_email = ''u'', rt_family_id = 4, rt_used_at = None,
        rt_replaced_by = None, rt_created_at = 1000000000\<rparr>, RDone (Inr ())), (NowV7, RUuid 5)]"

lemma sign_in_grants_witness:
  "\<exists>y a r cs. runs (token_handler ref_lib oidc_state Map.empty (Some demo_sign_in)) demo_sign_in_trace y \<and>
     set_cookies y = handing_out oidc_state a r @ cs"
proof -
  have "case feed_result (token_handler ref_lib oidc_state Map.empty (Some demo_sign_in)) demo_sign_in_trace of
      Some y \<Rightarrow> status y = 200 | None \<Rightarrow> False" by code_simp
  then obtain y where y: "runs (token_handler ref_lib oidc_state Map.empty (Some demo_sign_in)) demo_sign_in_trace y"
    "status y = 200" unfolding feed_runs by (auto split: option.splits)
  from sign_in_grants[OF demo_answer_laws y] y(1) show ?thesis by blast
qed

text \<open>
  C22. A sign-in that is not answered with 200 is answered with 400, 401 or 500 and sets no cookie at
  all; a request without the grant type \<open>id_token\<close> or without a token is turned away before any request
  is made.
\<close>

theorem sign_in_refusals:
  assumes "answer_laws L" "runs (token_handler L S headers body) tr y" "status y \<noteq> 200"
  shows "set_cookies y = [] \<and> status y \<in> {400, 401, 500} \<and>
    (Option.bind body sign_in_request = None \<longrightarrow> tr = [] \<and> status y = 400)"
proof (cases body)
  case None
  then show ?thesis using assms(2) by (simp add: token_handler_def)
next
  case (Some b)
  from assms(2) Some obtain t1 t2 res where h: "tr = t1 @ t2" "runs (handle_token L S b) t1 res"
    "runs (case res of Inr r \<Rightarrow> append_session_cookie_if_needed L S (extract_session_cookie L headers (as_cookie_config S)) r
      | Inl e \<Rightarrow> Ret (app_error_into_response e)) t2 y"
    unfolding token_handler_def Let_def by (auto elim: runs_bindE)
  show ?thesis
  proof (cases res)
    case (Inl e)
    then have "t2 = []" "y = app_error_into_response e" using h(3) by simp_all
    moreover have "t1 = [] \<and> (\<exists>m. e = Validation m)" if "sign_in_request b = None"
      using handle_token_eq(2)[OF that, of L S] h(2) Inl by auto
    ultimately show ?thesis using h(1) Some by (cases e) auto
  next
    case (Inr z)
    from handle_token_ok[OF h(2)[unfolded Inr]] obtain t4 and claims :: oidc_claims where
      "runs (session_for L S (oc_email claims)) t4 (Inr z)" by (elim exE conjE)
    from session_for_ok[OF assms(1) this] have "status z = 200" by blast
    moreover have "runs (append_session_cookie_if_needed L S (extract_session_cookie L headers (as_cookie_config S)) z) t2 y"
      using h(3) by (simp add: Inr)
    from session_appended[OF assms(1) this] have "status y = status z" by blast
    ultimately show ?thesis using assms(3) by simp
  qed
qed

lemma sign_in_refusals_witness:
  "\<exists>y. runs (token_handler ref_lib demo_state Map.empty None) [] y \<and> status y = 400 \<and> set_cookies y = []"
proof -
  let ?y = "app_error_into_response (Validation ''invalid request body'')"
  have y: "runs (token_handler ref_lib demo_state Map.empty None) [] ?y" by (simp add: token_handler_def)
  have "status ?y \<noteq> 200" by simp
  from sign_in_refusals[OF demo_answer_laws y this] y show ?thesis by auto
qed

end
