(* ===== verification/Conformance.thy ===== *)
theory Conformance
  imports Bearer
begin

text \<open>
  The data of the conformance battery, \<open>crates/br-auth-conformance-test\<close>: the checks and their
  codes, outcomes and reports (\<open>outcome.rs\<close>), its errors (\<open>error.rs\<close>) and the fixed inputs of every
  check (\<open>fixture.rs\<close>). The \<open>?\<close> of its functions is \<open>try_step\<close>.
\<close>

section \<open>outcome.rs\<close>

datatype check_id =
    GoSealOpensThroughLib
  | RustSealOpensInGo
  | KvKeyAgrees
  | SealedWireDeserializes
  | TamperedCiphertextFails
  | RelocatedSealFails
  | RidesPublishedLanguageConsumer
  | DirectoryPrefixIgnoresBearer
  | UndecodableBearerValueFailsClosed

fun check_code :: "check_id \<Rightarrow> string" where
  "check_code GoSealOpensThroughLib = ''x1''"
| "check_code RustSealOpensInGo = ''x2''"
| "check_code KvKeyAgrees = ''x3''"
| "check_code SealedWireDeserializes = ''x4''"
| "check_code TamperedCiphertextFails = ''n1''"
| "check_code RelocatedSealFails = ''n2''"
| "check_code RidesPublishedLanguageConsumer = ''k1''"
| "check_code DirectoryPrefixIgnoresBearer = ''k2''"
| "check_code UndecodableBearerValueFailsClosed = ''k3''"

definition from_code :: "string \<Rightarrow> check_id option" where
  "from_code s =
     (if s = ''x1'' then Some GoSealOpensThroughLib
      else if s = ''x2'' then Some RustSealOpensInGo
      else if s = ''x3'' then Some KvKeyAgrees
      else if s = ''x4'' then Some SealedWireDeserializes
      else if s = ''n1'' then Some TamperedCiphertextFails
      else if s = ''n2'' then Some RelocatedSealFails
      else if s = ''k1'' then Some RidesPublishedLanguageConsumer
      else if s = ''k2'' then Some DirectoryPrefixIgnoresBearer
      else if s = ''k3'' then Some UndecodableBearerValueFailsClosed
      else None)"

datatype check_status = Pass | Fail | Skipped

fun status_code :: "check_status \<Rightarrow> string" where
  "status_code Pass = ''pass''"
| "status_code Fail = ''fail''"
| "status_code Skipped = ''skipped''"

record check_outcome =
  co_id :: check_id
  co_status :: check_status
  co_expected :: string
  co_observed :: string
  co_detail :: "string option"

definition outcome_pass :: "check_id \<Rightarrow> string \<Rightarrow> string \<Rightarrow> check_outcome" where
  "outcome_pass i expected observed =
     \<lparr>co_id = i, co_status = Pass, co_expected = expected, co_observed = observed, co_detail = None\<rparr>"

definition outcome_fail :: "check_id \<Rightarrow> string \<Rightarrow> string \<Rightarrow> string \<Rightarrow> check_outcome" where
  "outcome_fail i expected observed detail =
     \<lparr>co_id = i, co_status = Fail, co_expected = expected, co_observed = observed, co_detail = Some detail\<rparr>"

definition outcome_skipped :: "check_id \<Rightarrow> string \<Rightarrow> check_outcome" where
  "outcome_skipped i detail =
     \<lparr>co_id = i, co_status = Skipped, co_expected = [], co_observed = [], co_detail = Some detail\<rparr>"

definition is_pass :: "check_outcome \<Rightarrow> bool" where
  "is_pass o1 \<longleftrightarrow> co_status o1 = Pass"

record conformance_report =
  outcomes :: "check_outcome list"

definition empty_report :: conformance_report where
  "empty_report = \<lparr>outcomes = []\<rparr>"

definition push_outcome :: "conformance_report \<Rightarrow> check_outcome \<Rightarrow> conformance_report" where
  "push_outcome r o1 = r\<lparr>outcomes := outcomes r @ [o1]\<rparr>"

definition report_count :: "conformance_report \<Rightarrow> check_status \<Rightarrow> nat" where
  "report_count r s = length (filter (\<lambda>o1. co_status o1 = s) (outcomes r))"

definition passed :: "conformance_report \<Rightarrow> nat" where "passed r = report_count r Pass"
definition failed :: "conformance_report \<Rightarrow> nat" where "failed r = report_count r Fail"
definition skipped :: "conformance_report \<Rightarrow> nat" where "skipped r = report_count r Skipped"

definition is_conformant :: "conformance_report \<Rightarrow> bool" where
  "is_conformant r \<longleftrightarrow> failed r = 0"

section \<open>error.rs\<close>

datatype conformance_error =
    GoUnavailable string
  | Build string
  | RunFailed string
  | AnchorResponse string
  | AnchorError string
  | EncodeFailed string
  | ContractRefused auth_contract_error
  | KvRefused string
  | FabricRefused string

fun conformance_error_to_string :: "conformance_error \<Rightarrow> string" where
  "conformance_error_to_string (GoUnavailable m) = ''go toolchain unavailable: '' @ m"
| "conformance_error_to_string (Build m) = ''building the bearer-wire anchor failed: '' @ m"
| "conformance_error_to_string (RunFailed m) = ''running the bearer-wire anchor failed: '' @ m"
| "conformance_error_to_string (AnchorResponse m) = ''the anchor response did not parse as JSON: '' @ m"
| "conformance_error_to_string (AnchorError m) = ''the anchor reported an error: '' @ m"
| "conformance_error_to_string (EncodeFailed m) = ''encoding a bearer entry through the lib failed: '' @ m"
| "conformance_error_to_string (ContractRefused e) =
     ''the bearer contract refused the input: '' @ contract_error_to_string e"
| "conformance_error_to_string (KvRefused m) = ''the fabric refused a kv key/prefix: '' @ m"
| "conformance_error_to_string (FabricRefused m) = ''the fabric published-language transport failed: '' @ m"

text \<open>\<open>m?\<close>: an error is returned at once.\<close>

definition try_step ::
  "(conformance_error + 'a) prog \<Rightarrow> ('a \<Rightarrow> (conformance_error + 'b) prog) \<Rightarrow> (conformance_error + 'b) prog" where
  "try_step m f = bind m (\<lambda>r. case r of Inl e \<Rightarrow> Ret (Inl e) | Inr x \<Rightarrow> f x)"

definition try_value ::
  "conformance_error + 'a \<Rightarrow> ('a \<Rightarrow> (conformance_error + 'b) prog) \<Rightarrow> (conformance_error + 'b) prog" where
  "try_value r f = (case r of Inl e \<Rightarrow> Ret (Inl e) | Inr x \<Rightarrow> f x)"

definition map_err :: "('e \<Rightarrow> conformance_error) \<Rightarrow> 'e + 'a \<Rightarrow> conformance_error + 'a" where
  "map_err f r = (case r of Inl e \<Rightarrow> Inl (f e) | Inr x \<Rightarrow> Inr x)"

section \<open>fixture.rs\<close>

definition SEAL_KEY_BYTES :: bytes where
  "SEAL_KEY_BYTES =
     [0x11, 0x22, 0x33, 0x44, 0x55, 0x66, 0x77, 0x88, 0x99, 0xaa, 0xbb, 0xcc, 0xdd, 0xee, 0xff, 0x00,
      0x0f, 0x1e, 0x2d, 0x3c, 0x4b, 0x5a, 0x69, 0x78, 0x87, 0x96, 0xa5, 0xb4, 0xc3, 0xd2, 0xe1, 0xf0]"

definition TOKEN :: string where "TOKEN = ''br-conformance-bearer-token-alpha''"
definition OTHER_TOKEN :: string where "OTHER_TOKEN = ''br-conformance-bearer-token-beta''"

definition seal_key :: "conformance_error + bearer_seal_key" where
  "seal_key = map_err ContractRefused (seal_key_from_bytes SEAL_KEY_BYTES)"

definition human_entry :: bearer_entry where
  "human_entry = \<lparr>be_actor = Human 0x01938c1f000070008000000000000042,
     be_token_id = 0x01938c1f000070008000000000000007\<rparr>"

definition service_entry :: bearer_entry where
  "service_entry = \<lparr>be_actor = Service 0x01938c1f000070008000000000000099,
     be_token_id = 0x01938c1f000070008000000000000001\<rparr>"

definition encode_entry :: "lib \<Rightarrow> bearer_entry \<Rightarrow> conformance_error + bytes" where
  "encode_entry L entry = map_err EncodeFailed (json_to_vec L (bearer_entry_to_json L entry))"

section \<open>Lemmas\<close>

lemma from_code_iff: "from_code s = Some c \<longleftrightarrow> s = check_code c"
  by (cases c) (auto simp: from_code_def split: if_splits)

lemma check_code_inj: "check_code c = check_code d \<longleftrightarrow> c = d"
  by (metis from_code_iff option.inject)

text \<open>A report counts every outcome once, under its status.\<close>

lemma outcomes_push [simp]: "outcomes (push_outcome r o1) = outcomes r @ [o1]"
  by (simp add: push_outcome_def)

lemma outcomes_empty [simp]: "outcomes empty_report = []"
  by (simp add: empty_report_def)

lemma report_count_push [simp]:
  "report_count (push_outcome r o1) s = report_count r s + (if co_status o1 = s then 1 else 0)"
  by (simp add: report_count_def)

lemma report_partition: "passed r + failed r + skipped r = length (outcomes r)"
proof -
  have "length (filter (\<lambda>x. co_status x = Pass) xs) + length (filter (\<lambda>x. co_status x = Fail) xs) +
      length (filter (\<lambda>x. co_status x = Skipped) xs) = length xs" for xs
  proof (induction xs)
    case (Cons x xs)
    then show ?case by (cases "co_status x") auto
  qed simp
  then show ?thesis by (simp add: passed_def failed_def skipped_def report_count_def)
qed

lemma is_conformant_iff: "is_conformant r \<longleftrightarrow> (\<forall>o1 \<in> set (outcomes r). co_status o1 \<noteq> Fail)"
  by (simp add: is_conformant_def failed_def report_count_def filter_empty_conv)

lemma outcome_fields [simp]:
  "co_status (outcome_pass i e v) = Pass" "co_status (outcome_fail i e v d) = Fail"
  "co_status (outcome_skipped i d) = Skipped"
  "co_id (outcome_pass i e v) = i" "co_id (outcome_fail i e v d) = i" "co_id (outcome_skipped i d) = i"
  by (simp_all add: outcome_pass_def outcome_fail_def outcome_skipped_def)

lemma seal_key_ok: "seal_key = Inr (BearerSealKey SEAL_KEY_BYTES)"
  by (simp add: seal_key_def map_err_def seal_key_from_bytes_def SEAL_KEY_BYTES_def BEARER_SEAL_KEY_LEN_def)

lemma length_SEAL_KEY: "length SEAL_KEY_BYTES = 32"
  by (simp add: SEAL_KEY_BYTES_def)

lemma try_value_simps [simp]:
  "try_value (Inr x) f = f x" "try_value (Inl e) f = Ret (Inl e)"
  by (simp_all add: try_value_def)

lemma map_err_simps [simp]: "map_err f (Inr x) = Inr x" "map_err f (Inl e) = Inl (f e)"
  by (simp_all add: map_err_def)

text \<open>When the step cannot fail, what follows it decides the run.\<close>

lemma runs_try_step:
  assumes "runs (try_step m f) tr y"
  obtains e where "runs m tr (Inl e)" "y = Inl e"
  | t1 t2 x where "tr = t1 @ t2" "runs m t1 (Inr x)" "runs (f x) t2 y"
proof -
  from assms obtain t1 t2 r where t: "tr = t1 @ t2" "runs m t1 r"
    "runs (case r of Inl e \<Rightarrow> Ret (Inl e) | Inr x \<Rightarrow> f x) t2 y"
    unfolding try_step_def by (rule runs_bindE)
  show thesis
  proof (cases r)
    case (Inl e)
    with t that(1)[of e] show ?thesis by simp
  next
    case (Inr x)
    with t that(2) show ?thesis by simp
  qed
qed

end
