(* ===== verification/Anchor.thy ===== *)
theory Anchor
  imports Conformance
begin

text \<open>
  \<open>anchor.rs\<close>: the Go program of the battery as the battery sees it, a child process that reads a
  JSON request and writes a JSON response. The process is an argument, a program from the bytes
  on its standard input to how it ended, so the same definitions run against any anchor;
  \<open>Go_Anchor\<close> models the one in the repository. Building it is a run of the Go tool chain, whose
  results are arguments too.
\<close>

section \<open>String::from\_utf8\_lossy\<close>

definition utf8_get :: "nat \<Rightarrow> bytes \<Rightarrow> 8 word" where
  "utf8_get i b = (if i < length b then b ! i else 0)"

definition utf8_cont :: "8 word \<Rightarrow> bool" where
  "utf8_cont b \<longleftrightarrow> 0x80 \<le> b \<and> b \<le> 0xBF"

text \<open>How many bytes the next chunk takes, and whether they are a character.\<close>

definition utf8_chunk :: "8 word \<Rightarrow> bytes \<Rightarrow> nat \<times> bool" where
  "utf8_chunk b rest =
     (let b1 = utf8_get 0 rest; b2 = utf8_get 1 rest; b3 = utf8_get 2 rest in
      if b < 0x80 then (1, True)
      else if 0xC2 \<le> b \<and> b \<le> 0xDF then (if utf8_cont b1 then (2, True) else (1, False))
      else if 0xE0 \<le> b \<and> b \<le> 0xEF then
        (if utf8_cont b1 \<and> (b = 0xE0 \<longrightarrow> 0xA0 \<le> b1) \<and> (b = 0xED \<longrightarrow> b1 \<le> 0x9F)
         then (if utf8_cont b2 then (3, True) else (2, False)) else (1, False))
      else if 0xF0 \<le> b \<and> b \<le> 0xF4 then
        (if utf8_cont b1 \<and> (b = 0xF0 \<longrightarrow> 0x90 \<le> b1) \<and> (b = 0xF4 \<longrightarrow> b1 \<le> 0x8F)
         then (if utf8_cont b2 then (if utf8_cont b3 then (4, True) else (3, False)) else (2, False))
         else (1, False))
      else (1, False))"

definition byte_char :: "8 word \<Rightarrow> char" where
  "byte_char b = char_of (unat b)"

fun utf8_lossy :: "bytes \<Rightarrow> string" where
  "utf8_lossy [] = []"
| "utf8_lossy (b # rest) =
     (case utf8_chunk b rest of (n, ok) \<Rightarrow>
        (if ok then map byte_char (b # take (n - 1) rest) else [CHR 0xEF, CHR 0xBF, CHR 0xBD]) @
        utf8_lossy (drop (n - 1) rest))"

section \<open>Building the anchor\<close>

record process_output =
  po_success :: bool
  po_status :: string
  po_stdout :: bytes
  po_stderr :: bytes

text \<open>The harness runs a program with arguments; an error is one of starting it or of its time limit.\<close>

type_synonym run_once = "string \<Rightarrow> string list \<Rightarrow> (string + process_output) prog"

definition ensure_go_available :: "run_once \<Rightarrow> (conformance_error + unit) prog" where
  "ensure_go_available run =
     bind (run ''go'' [''version'']) (\<lambda>r. Ret (case r of
       Inr output \<Rightarrow> if po_success output then Inr () else Inl (GoUnavailable (utf8_lossy (po_stderr output)))
     | Inl e \<Rightarrow> Inl (GoUnavailable e)))"

text \<open>\<open>dir\<close>: the canonical path of the source directory (\<open>None\<close>: missing, and \<open>expect\<close> panics).\<close>

definition build_anchor ::
  "lib \<Rightarrow> run_once \<Rightarrow> (string \<Rightarrow> bool) \<Rightarrow> string option \<Rightarrow> string \<Rightarrow> (conformance_error + string) prog" where
  "build_anchor L run path_exists dir temp_dir =
     try_step (ensure_go_available run) (\<lambda>_.
       case dir of None \<Rightarrow> Panic
       | Some dir_str \<Rightarrow>
           now_v7 (\<lambda>u. let binary = temp_dir @ ''/br-auth-anchor-'' @ uuid_simple L u in
             bind (run ''go'' [''build'', ''-C'', dir_str, ''-o'', binary, ''.'']) (\<lambda>r.
               Ret (case r of
                 Inl e \<Rightarrow> Inl (Build e)
               | Inr output \<Rightarrow>
                   if \<not> po_success output then
                     Inl (Build (''go build failed (status '' @ po_status output @ ''):'' @ [CHR 0x0A] @
                       utf8_lossy (po_stderr output)))
                   else if \<not> path_exists binary then
                     Inl (Build (''go build reported success but '' @ binary @ '' is missing''))
                   else Inr binary))))"

section \<open>One invocation\<close>

record anchor_request =
  rq_op :: string
  rq_key_b64 :: "string option"
  rq_token :: string
  rq_plaintext_b64 :: "string option"
  rq_sealed :: "sealed_bearer option"

record anchor_response =
  rs_kv_key :: "string option"
  rs_token_hash :: "string option"
  rs_sealed :: "sealed_bearer option"
  rs_plaintext_b64 :: "string option"
  rs_error :: "string option"

text \<open>The derived serde of \<open>SealedBearer\<close> (closed) and of the two messages.\<close>

definition sealed_to_json :: "sealed_bearer \<Rightarrow> json" where
  "sealed_to_json s = JObj [(''nonce'', JStr (sb_nonce s)), (''ciphertext'', JStr (sb_ciphertext s))]"

definition sealed_of_json :: "lib \<Rightarrow> json \<Rightarrow> string + sealed_bearer" where
  "sealed_of_json L j =
     (case closed_struct [''nonce'', ''ciphertext''] j of
        Some fs \<Rightarrow>
          (case (Option.bind (map_of fs ''nonce'') json_as_str, Option.bind (map_of fs ''ciphertext'') json_as_str) of
             (Some n, Some c) \<Rightarrow> Inr \<lparr>sb_nonce = n, sb_ciphertext = c\<rparr>
           | _ \<Rightarrow> Inl (serde_error L j))
      | None \<Rightarrow> Inl (serde_error L j))"

definition opt_field :: "string \<Rightarrow> json option \<Rightarrow> (string \<times> json) list" where
  "opt_field name v = (case v of None \<Rightarrow> [] | Some j \<Rightarrow> [(name, j)])"

definition anchor_request_to_json :: "anchor_request \<Rightarrow> json" where
  "anchor_request_to_json r = JObj
     ([(''op'', JStr (rq_op r))] @ opt_field ''key_b64'' (map_option JStr (rq_key_b64 r)) @
      [(''token'', JStr (rq_token r))] @ opt_field ''plaintext_b64'' (map_option JStr (rq_plaintext_b64 r)) @
      opt_field ''sealed'' (map_option sealed_to_json (rq_sealed r)))"

text \<open>An optional field: absent and \<open>null\<close> are both \<open>None\<close>; other names are ignored.\<close>

definition opt_read :: "(json \<Rightarrow> 'a option) \<Rightarrow> json option \<Rightarrow> 'a option option" where
  "opt_read f v = (case v of None \<Rightarrow> Some None | Some JNull \<Rightarrow> Some None | Some j \<Rightarrow> map_option Some (f j))"

definition response_names :: "string list" where
  "response_names = [''kv_key'', ''token_hash'', ''sealed'', ''plaintext_b64'', ''error'']"

definition response_fields :: "json \<Rightarrow> (string \<times> json) list option" where
  "response_fields j =
     (case j of
        JObj fs \<Rightarrow> if distinct (filter (\<lambda>n. n \<in> set response_names) (map fst fs)) then Some fs else None
      | JArr vs \<Rightarrow> if length vs \<le> length response_names then Some (zip response_names vs) else None
      | _ \<Rightarrow> None)"

definition anchor_response_of_json :: "lib \<Rightarrow> json \<Rightarrow> string + anchor_response" where
  "anchor_response_of_json L j =
     (case response_fields j of
        None \<Rightarrow> Inl (serde_error L j)
      | Some fs \<Rightarrow>
          (case (opt_read json_as_str (map_of fs ''kv_key''), opt_read json_as_str (map_of fs ''token_hash''),
                 opt_read (\<lambda>v. case sealed_of_json L v of Inr s \<Rightarrow> Some s | Inl _ \<Rightarrow> None) (map_of fs ''sealed''),
                 opt_read json_as_str (map_of fs ''plaintext_b64''), opt_read json_as_str (map_of fs ''error'')) of
             (Some k, Some h, Some s, Some p, Some e) \<Rightarrow>
               Inr \<lparr>rs_kv_key = k, rs_token_hash = h, rs_sealed = s, rs_plaintext_b64 = p, rs_error = e\<rparr>
           | _ \<Rightarrow> Inl (serde_error L j)))"

text \<open>
  How the child ended. The code waits for that without a time limit: a child that never exits is a run
  that stops somewhere inside the program of the process (\<open>steps\<close>) and has no end (\<open>runs\<close>).
\<close>

datatype anchor_run =
    SpawnFailed string
  | WriteFailed string
  | WaitFailed string
  | Finished process_output

type_synonym anchor = "bytes \<Rightarrow> anchor_run prog"

definition json_read :: "lib \<Rightarrow> (json \<Rightarrow> string + 'a) \<Rightarrow> bytes \<Rightarrow> string + 'a" where
  "json_read L of_json b = (case json_from_slice L b of Inl e \<Rightarrow> Inl e | Inr j \<Rightarrow> of_json j)"

text \<open>From the end of the child to the result: its exit, its output, an error it reports.\<close>

definition invoke_result :: "lib \<Rightarrow> string \<Rightarrow> anchor_run \<Rightarrow> conformance_error + anchor_response" where
  "invoke_result L op run = (case run of
      SpawnFailed e \<Rightarrow> Inl (RunFailed (''spawn anchor: '' @ e))
    | WriteFailed e \<Rightarrow> Inl (RunFailed (''write anchor stdin: '' @ e))
    | WaitFailed e \<Rightarrow> Inl (RunFailed (''await anchor: '' @ e))
    | Finished output \<Rightarrow>
        if \<not> po_success output then
          Inl (RunFailed (''anchor exited '' @ po_status output @ '' ; stderr:'' @ [CHR 0x0A] @
            utf8_lossy (po_stderr output)))
        else (case json_read L (anchor_response_of_json L) (po_stdout output) of
           Inl e \<Rightarrow> Inl (AnchorResponse (e @ [CHR 0x0A] @ ''stdout: '' @ utf8_lossy (po_stdout output)))
         | Inr resp \<Rightarrow>
             (case rs_error resp of
                Some err \<Rightarrow> if op \<noteq> ''open'' then Inl (AnchorError err) else Inr resp
              | None \<Rightarrow> Inr resp)))"

definition invoke :: "lib \<Rightarrow> anchor \<Rightarrow> anchor_request \<Rightarrow> (conformance_error + anchor_response) prog" where
  "invoke L anchor request =
     (case json_to_vec L (anchor_request_to_json request) of
        Inl e \<Rightarrow> Ret (Inl (RunFailed (''encode anchor request: '' @ e)))
      | Inr body \<Rightarrow> bind (anchor body) (\<lambda>run. Ret (invoke_result L (rq_op request) run)))"

section \<open>The three operations\<close>

definition ok_or :: "'a option \<Rightarrow> conformance_error \<Rightarrow> conformance_error + 'a" where
  "ok_or v e = (case v of None \<Rightarrow> Inl e | Some x \<Rightarrow> Inr x)"

definition anchor_kv_key :: "lib \<Rightarrow> anchor \<Rightarrow> string \<Rightarrow> (conformance_error + string \<times> string) prog" where
  "anchor_kv_key L anchor token =
     try_step (invoke L anchor \<lparr>rq_op = ''key'', rq_key_b64 = None, rq_token = token,
       rq_plaintext_b64 = None, rq_sealed = None\<rparr>) (\<lambda>resp.
     try_value (ok_or (rs_kv_key resp) (AnchorResponse ''key op returned no kv_key'')) (\<lambda>kv_key.
     try_value (ok_or (rs_token_hash resp) (AnchorResponse ''key op returned no token_hash'')) (\<lambda>token_hash.
       Ret (Inr (kv_key, token_hash)))))"

definition anchor_seal :: "lib \<Rightarrow> anchor \<Rightarrow> bytes \<Rightarrow> string \<Rightarrow> bytes \<Rightarrow> (conformance_error + sealed_bearer) prog" where
  "anchor_seal L anchor key token plaintext =
     try_step (invoke L anchor \<lparr>rq_op = ''seal'', rq_key_b64 = Some (b64_encode L key), rq_token = token,
       rq_plaintext_b64 = Some (b64_encode L plaintext), rq_sealed = None\<rparr>) (\<lambda>resp.
       Ret (ok_or (rs_sealed resp) (AnchorResponse ''seal op returned no sealed'')))"

definition anchor_open ::
  "lib \<Rightarrow> anchor \<Rightarrow> bytes \<Rightarrow> string \<Rightarrow> sealed_bearer \<Rightarrow> (conformance_error + (string + bytes)) prog" where
  "anchor_open L anchor key token sealed =
     try_step (invoke L anchor \<lparr>rq_op = ''open'', rq_key_b64 = Some (b64_encode L key), rq_token = token,
       rq_plaintext_b64 = None, rq_sealed = Some sealed\<rparr>) (\<lambda>resp.
       case rs_error resp of
         Some err \<Rightarrow> Ret (Inr (Inl err))
       | None \<Rightarrow>
           try_value (ok_or (rs_plaintext_b64 resp) (AnchorResponse ''open op returned neither plaintext nor error''))
             (\<lambda>plaintext_b64.
               case b64_decode L plaintext_b64 of
                 None \<Rightarrow> Ret (Inl (AnchorResponse (''plaintext not base64: '' @ b64_error L plaintext_b64)))
               | Some plaintext \<Rightarrow> Ret (Inr (Inr plaintext))))"

section \<open>Lemmas\<close>

text \<open>ASCII text passes the lossy conversion unchanged.\<close>

lemma utf8_lossy_ascii: "list_all is_ascii s \<Longrightarrow> utf8_lossy (as_bytes s) = s"
proof (induction s)
  case (Cons c s)
  have r: "(of_char c :: nat) < 128" using Cons.prems by (simp add: is_ascii_def)
  then have "(word_of_nat (of_char c) :: 8 word) < 0x80"
    by (simp add: word_less_nat_alt unat_of_nat take_bit_eq_mod)
  moreover have "byte_char (word_of_nat (of_char c)) = c"
    using r by (simp add: byte_char_def unat_of_nat take_bit_eq_mod)
  ultimately show ?case using Cons by (simp add: as_bytes_def utf8_chunk_def Let_def)
qed (simp add: as_bytes_def)

lemma sealed_of_json_to_json [simp]: "sealed_of_json L (sealed_to_json s) = Inr s"
  by (simp add: sealed_of_json_def sealed_to_json_def closed_struct_def)

lemma sealed_of_json_closed:
  "sealed_of_json L (JObj fs) = Inr s \<Longrightarrow> fst ` set fs \<subseteq> {''nonce'', ''ciphertext''}"
  by (auto simp: sealed_of_json_def closed_struct_def list_all_iff split: if_splits)

end
