(* ===== verification/Go_Anchor.thy ===== *)
theory Go_Anchor
  imports Anchor
begin

text \<open>
  The anchor itself, \<open>crates/br-auth-conformance-test/anchor\<close>: an implementation of the bearer wire
  in Go that shares no source with the Rust one. Go's library and \<open>x/crypto\<close> are a record of
  functions, \<open>go_lib\<close>, apart from \<open>lib\<close>; \<open>go_agrees\<close> says that both sides implement the same
  published formats (base64, JSON, SHA-256 in hex, ChaCha20-Poly1305). \<open>rand.Read\<close> is the nonce
  request; it does not fail (Go 1.24).
\<close>

record go_lib =
  go_sha256_hex :: "string \<Rightarrow> string"
  go_b64_encode :: "bytes \<Rightarrow> string"
  go_b64_decode :: "string \<Rightarrow> string + bytes"
  go_aead_new :: "bytes \<Rightarrow> string option"  \<comment> \<open>the error of \<open>chacha20poly1305.New\<close>\<close>
  go_aead_seal :: "bytes \<Rightarrow> bytes \<Rightarrow> bytes \<Rightarrow> bytes \<Rightarrow> bytes"
  go_aead_open :: "bytes \<Rightarrow> bytes \<Rightarrow> bytes \<Rightarrow> bytes \<Rightarrow> string + bytes"
  go_json_read :: "bytes \<Rightarrow> string + json"
  go_json_write :: "json \<Rightarrow> bytes"
  go_type_error :: "json \<Rightarrow> string"
  go_quote :: "string \<Rightarrow> string"

section \<open>key.go\<close>

definition go_bearerTokensKeyPrefix :: string where
  "go_bearerTokensKeyPrefix = ''identity/bearer_tokens/''"

definition bearerTokenHash :: "go_lib \<Rightarrow> string \<Rightarrow> string" where
  "bearerTokenHash G token = go_sha256_hex G token"

definition bearerTokenKVKey :: "go_lib \<Rightarrow> string \<Rightarrow> string" where
  "bearerTokenKVKey G token = go_bearerTokensKeyPrefix @ bearerTokenHash G token"

section \<open>sealed.go\<close>

definition sealKeyLen :: nat where "sealKeyLen = 32"
definition go_NonceSize :: nat where "go_NonceSize = 12"

definition sealBearer :: "go_lib \<Rightarrow> bytes \<Rightarrow> string \<Rightarrow> bytes \<Rightarrow> (string + sealed_bearer) prog" where
  "sealBearer G key token plaintext =
     (if length key \<noteq> sealKeyLen then Ret (Inl ''seal key must be 32 bytes'')
      else case go_aead_new G key of
        Some err \<Rightarrow> Ret (Inl err)
      | None \<Rightarrow> gen_nonce (\<lambda>nonce.
          let aad = as_bytes (bearerTokenHash G token);
              ciphertext = go_aead_seal G key nonce plaintext aad
          in Ret (Inr \<lparr>sb_nonce = go_b64_encode G nonce, sb_ciphertext = go_b64_encode G ciphertext\<rparr>)))"

definition openBearer :: "go_lib \<Rightarrow> bytes \<Rightarrow> string \<Rightarrow> sealed_bearer \<Rightarrow> string + bytes" where
  "openBearer G key token sealed =
     (if length key \<noteq> sealKeyLen then Inl ''seal key must be 32 bytes''
      else case go_b64_decode G (sb_nonce sealed) of
        Inl _ \<Rightarrow> Inl ''nonce is not base64''
      | Inr nonce \<Rightarrow>
          (case go_b64_decode G (sb_ciphertext sealed) of
             Inl _ \<Rightarrow> Inl ''ciphertext is not base64''
           | Inr ciphertext \<Rightarrow>
               (case go_aead_new G key of
                  Some err \<Rightarrow> Inl err
                | None \<Rightarrow>
                    if length nonce \<noteq> go_NonceSize then Inl ''nonce length mismatch''
                    else go_aead_open G key nonce ciphertext (as_bytes (bearerTokenHash G token)))))"

section \<open>main.go\<close>

record go_request =
  gr_Op :: string
  gr_KeyB64 :: string
  gr_Token :: string
  gr_PlaintextB64 :: string
  gr_Sealed :: "sealed_bearer option"

record go_response =
  gp_Op :: string
  gp_KVKey :: string
  gp_TokenHash :: string
  gp_Sealed :: "sealed_bearer option"
  gp_PlaintextB64 :: string
  gp_Error :: string

text \<open>
  \<open>json.Unmarshal\<close> into a struct: names match up to ASCII case and every match is assigned in turn,
  a missing field keeps its zero value, \<open>null\<close> leaves a string and clears a pointer, unknown names
  are ignored. A value of another type is an error.
\<close>

definition go_hits :: "string \<Rightarrow> (string \<times> json) list \<Rightarrow> json list" where
  "go_hits name fs = map snd (filter (\<lambda>f. eq_ignore_ascii_case (fst f) name) fs)"

fun go_string :: "go_lib \<Rightarrow> string \<Rightarrow> json list \<Rightarrow> string + string" where
  "go_string G cur [] = Inr cur"
| "go_string G cur (JNull # js) = go_string G cur js"
| "go_string G cur (JStr s # js) = go_string G s js"
| "go_string G cur (j # js) = Inl (go_type_error G j)"

fun go_sealed :: "go_lib \<Rightarrow> sealed_bearer option \<Rightarrow> json list \<Rightarrow> string + sealed_bearer option" where
  "go_sealed G cur [] = Inr cur"
| "go_sealed G cur (JNull # js) = go_sealed G None js"
| "go_sealed G cur (JObj fs # js) =
     (let old = (case cur of None \<Rightarrow> \<lparr>sb_nonce = [], sb_ciphertext = []\<rparr> | Some s \<Rightarrow> s) in
      case go_string G (sb_nonce old) (go_hits ''nonce'' fs) of Inl e \<Rightarrow> Inl e | Inr n \<Rightarrow>
        (case go_string G (sb_ciphertext old) (go_hits ''ciphertext'' fs) of Inl e \<Rightarrow> Inl e | Inr c \<Rightarrow>
           go_sealed G (Some \<lparr>sb_nonce = n, sb_ciphertext = c\<rparr>) js))"
| "go_sealed G cur (j # js) = Inl (go_type_error G j)"

definition go_request_of_json :: "go_lib \<Rightarrow> json \<Rightarrow> string + go_request" where
  "go_request_of_json G j =
     (case j of
        JObj fs \<Rightarrow>
          (case go_string G [] (go_hits ''op'' fs) of Inl e \<Rightarrow> Inl e | Inr op \<Rightarrow>
          (case go_string G [] (go_hits ''key_b64'' fs) of Inl e \<Rightarrow> Inl e | Inr key \<Rightarrow>
          (case go_string G [] (go_hits ''token'' fs) of Inl e \<Rightarrow> Inl e | Inr token \<Rightarrow>
          (case go_string G [] (go_hits ''plaintext_b64'' fs) of Inl e \<Rightarrow> Inl e | Inr plaintext \<Rightarrow>
          (case go_sealed G None (go_hits ''sealed'' fs) of Inl e \<Rightarrow> Inl e | Inr sealed \<Rightarrow>
             Inr \<lparr>gr_Op = op, gr_KeyB64 = key, gr_Token = token, gr_PlaintextB64 = plaintext, gr_Sealed = sealed\<rparr>)))))
      | JNull \<Rightarrow> Inr \<lparr>gr_Op = [], gr_KeyB64 = [], gr_Token = [], gr_PlaintextB64 = [], gr_Sealed = None\<rparr>
      | _ \<Rightarrow> Inl (go_type_error G j))"

text \<open>\<open>json.Marshal\<close> with \<open>omitempty\<close> on all fields but the first.\<close>

definition omitempty :: "string \<Rightarrow> string \<Rightarrow> (string \<times> json) list" where
  "omitempty name v = (if v = [] then [] else [(name, JStr v)])"

definition go_response_to_json :: "go_response \<Rightarrow> json" where
  "go_response_to_json r = JObj
     ([(''op'', JStr (gp_Op r))] @ omitempty ''kv_key'' (gp_KVKey r) @ omitempty ''token_hash'' (gp_TokenHash r) @
      (case gp_Sealed r of None \<Rightarrow> [] | Some s \<Rightarrow> [(''sealed'', sealed_to_json s)]) @
      omitempty ''plaintext_b64'' (gp_PlaintextB64 r) @ omitempty ''error'' (gp_Error r))"

definition go_zero :: go_response where
  "go_zero = \<lparr>gp_Op = [], gp_KVKey = [], gp_TokenHash = [], gp_Sealed = None, gp_PlaintextB64 = [], gp_Error = []\<rparr>"

text \<open>Every path of \<open>main\<close> prints one line and exits with 0; \<open>fail\<close> prints an error response.\<close>

definition go_emit :: "go_lib \<Rightarrow> go_response \<Rightarrow> anchor_run prog" where
  "go_emit G resp = Ret (Finished \<lparr>po_success = True, po_status = ''exit status: 0'',
     po_stdout = go_json_write G (go_response_to_json resp) @ [0x0A], po_stderr = []\<rparr>)"

definition go_fail :: "go_lib \<Rightarrow> string \<Rightarrow> anchor_run prog" where
  "go_fail G msg = go_emit G (go_zero\<lparr>gp_Error := msg\<rparr>)"

definition decodeKey :: "go_lib \<Rightarrow> go_request \<Rightarrow> (bytes \<Rightarrow> anchor_run prog) \<Rightarrow> anchor_run prog" where
  "decodeKey G req f =
     (case go_b64_decode G (gr_KeyB64 req) of
        Inl err \<Rightarrow> go_fail G (''key_b64 is not base64: '' @ err)
      | Inr key \<Rightarrow> f key)"

definition decodeKeyAndPlaintext ::
  "go_lib \<Rightarrow> go_request \<Rightarrow> (bytes \<Rightarrow> bytes \<Rightarrow> anchor_run prog) \<Rightarrow> anchor_run prog" where
  "decodeKeyAndPlaintext G req f =
     decodeKey G req (\<lambda>key.
       case go_b64_decode G (gr_PlaintextB64 req) of
         Inl err \<Rightarrow> go_fail G (''plaintext_b64 is not base64: '' @ err)
       | Inr plaintext \<Rightarrow> f key plaintext)"

definition go_handle :: "go_lib \<Rightarrow> go_request \<Rightarrow> anchor_run prog" where
  "go_handle G req =
     (if gr_Op req = ''key'' then
        go_emit G (go_zero\<lparr>gp_Op := ''key'', gp_KVKey := bearerTokenKVKey G (gr_Token req),
          gp_TokenHash := bearerTokenHash G (gr_Token req)\<rparr>)
      else if gr_Op req = ''seal'' then
        decodeKeyAndPlaintext G req (\<lambda>key plaintext.
          bind (sealBearer G key (gr_Token req) plaintext) (\<lambda>res. case res of
            Inl err \<Rightarrow> go_fail G (''seal: '' @ err)
          | Inr sealed \<Rightarrow> go_emit G (go_zero\<lparr>gp_Op := ''seal'', gp_Sealed := Some sealed,
              gp_KVKey := bearerTokenKVKey G (gr_Token req), gp_TokenHash := bearerTokenHash G (gr_Token req)\<rparr>)))
      else if gr_Op req = ''open'' then
        decodeKey G req (\<lambda>key.
          case gr_Sealed req of
            None \<Rightarrow> go_fail G ''open requires a sealed value''
          | Some sealed \<Rightarrow>
              (case openBearer G key (gr_Token req) sealed of
                 Inl err \<Rightarrow> go_emit G (go_zero\<lparr>gp_Op := ''open'', gp_Error := ''aead open failed: '' @ err\<rparr>)
               | Inr plaintext \<Rightarrow> go_emit G (go_zero\<lparr>gp_Op := ''open'', gp_PlaintextB64 := go_b64_encode G plaintext\<rparr>)))
      else go_fail G (''unknown op '' @ go_quote G (gr_Op req)))"

definition go_main :: "go_lib \<Rightarrow> anchor" where
  "go_main G raw =
     (case go_json_read G raw of
        Inl err \<Rightarrow> go_fail G (''parse request: '' @ err)
      | Inr j \<Rightarrow>
          (case go_request_of_json G j of
             Inl err \<Rightarrow> go_fail G (''parse request: '' @ err)
           | Inr req \<Rightarrow> go_handle G req))"

section \<open>Agreement of the two libraries\<close>

text \<open>
  Both sides of the wire implement the same published formats: each reads the other's base64 and
  JSON (a line end after the document included), the hash is the same, and so is the cipher on keys of
  32 and nonces of 12 bytes.
\<close>

definition go_agrees :: "lib \<Rightarrow> go_lib \<Rightarrow> bool" where
  "go_agrees L G \<longleftrightarrow>
     (\<forall>t. go_sha256_hex G t = core_bearer_token_key L t) \<and>
     (\<forall>b. go_b64_encode G b = b64_encode L b \<and> go_b64_decode G (b64_encode L b) = Inr b) \<and>
     (\<forall>b. b64_encode L b = [] \<longleftrightarrow> b = []) \<and>
     (\<forall>j b. json_to_vec L j = Inr b \<longrightarrow> go_json_read G b = Inr j) \<and>
     (\<forall>j. json_from_slice L (go_json_write G j @ [0x0A]) = Inr j) \<and>
     (\<forall>k. length k = 32 \<longrightarrow> go_aead_new G k = None) \<and>
     (\<forall>k n a m. length k = 32 \<and> length n = 12 \<longrightarrow>
        aead_encrypt L k n a m = Some (go_aead_seal G k n m a)) \<and>
     (\<forall>k n a c. length k = 32 \<and> length n = 12 \<longrightarrow>
        (case aead_decrypt L k n a c of
           None \<Rightarrow> isl (go_aead_open G k n c a) | Some m \<Rightarrow> go_aead_open G k n c a = Inr m))"

section \<open>What one invocation of it returns\<close>

lemma go_read_request:
  "go_request_of_json G (anchor_request_to_json q) = Inr
     \<lparr>gr_Op = rq_op q, gr_KeyB64 = (case rq_key_b64 q of None \<Rightarrow> [] | Some k \<Rightarrow> k), gr_Token = rq_token q,
      gr_PlaintextB64 = (case rq_plaintext_b64 q of None \<Rightarrow> [] | Some p \<Rightarrow> p), gr_Sealed = rq_sealed q\<rparr>"
  by (cases "rq_key_b64 q"; cases "rq_plaintext_b64 q"; cases "rq_sealed q")
    (simp_all add: go_request_of_json_def anchor_request_to_json_def go_hits_def opt_field_def
      eq_ignore_ascii_case_def to_ascii_lower_def sealed_to_json_def)

definition go_reads_back :: "go_response \<Rightarrow> anchor_response" where
  "go_reads_back r = \<lparr>rs_kv_key = (if gp_KVKey r = [] then None else Some (gp_KVKey r)),
     rs_token_hash = (if gp_TokenHash r = [] then None else Some (gp_TokenHash r)),
     rs_sealed = gp_Sealed r,
     rs_plaintext_b64 = (if gp_PlaintextB64 r = [] then None else Some (gp_PlaintextB64 r)),
     rs_error = (if gp_Error r = [] then None else Some (gp_Error r))\<rparr>"

lemma rust_reads_response:
  "anchor_response_of_json L (go_response_to_json r) = Inr (go_reads_back r)"
proof -
  have o1: "opt_read f (Some (sealed_to_json s)) = map_option Some (f (sealed_to_json s))" for f s
    by (simp add: opt_read_def sealed_to_json_def)
  have o2: "opt_read f (Some (JStr s)) = map_option Some (f (JStr s))" "opt_read f None = Some None" for f s
    by (simp_all add: opt_read_def)
  show ?thesis
    by (cases "gp_Sealed r"; cases "gp_KVKey r = []"; cases "gp_TokenHash r = []";
        cases "gp_PlaintextB64 r = []"; cases "gp_Error r = []")
      (simp_all add: anchor_response_of_json_def go_response_to_json_def response_fields_def response_names_def
        omitempty_def go_reads_back_def o1 o2)
qed

end
