(* ===== verification/Wire_Battery.thy ===== *)
theory Wire_Battery
  imports Anchor Total
begin

text \<open>
  \<open>wire.rs\<close>: the six checks of the wire battery, each a function of the anchor, and the battery
  that runs them in order. What an anchor must do for them to pass is the locale \<open>wire_anchor\<close>;
  inside it every check is shown to pass, and the battery to end with six passes.
\<close>

section \<open>The checks\<close>

definition bearer_entry_debug :: "lib \<Rightarrow> bearer_entry \<Rightarrow> string" where
  "bearer_entry_debug L e =
     ''BearerEntry { actor: '' @ actor_debug L (be_actor e) @ '', token_id: '' @ uuid_to_string L (be_token_id e) @ '' }''"

fun go_seal_opens_loop ::
  "lib \<Rightarrow> anchor \<Rightarrow> string \<Rightarrow> bearer_seal_key \<Rightarrow> bearer_entry list \<Rightarrow> (conformance_error + check_outcome) prog" where
  "go_seal_opens_loop L anchor expected key [] =
     Ret (Inr (outcome_pass GoSealOpensThroughLib expected
       ''Go-sealed human + service entries opened identically through the lib''))"
| "go_seal_opens_loop L anchor expected key (entry # entries) =
     try_value (encode_entry L entry) (\<lambda>plaintext.
     try_step (anchor_seal L anchor SEAL_KEY_BYTES TOKEN plaintext) (\<lambda>sealed.
       case open_sealed L key TOKEN sealed of
         Inr opened \<Rightarrow>
           if opened = entry then go_seal_opens_loop L anchor expected key entries
           else Ret (Inr (outcome_fail GoSealOpensThroughLib expected
             (''opened '' @ bearer_entry_debug L opened)
             ''the lib opened the Go-sealed wire into a different BearerEntry (drift)''))
       | Inl e \<Rightarrow> Ret (Inr (outcome_fail GoSealOpensThroughLib expected
           (''open errored: '' @ contract_error_to_string e)
           (''the lib could not open the Go-sealed wire '' @ em_dash @ '' the AEAD scheme or AAD drifted'')))))"

definition go_seal_opens_through_lib :: "lib \<Rightarrow> anchor \<Rightarrow> (conformance_error + check_outcome) prog" where
  "go_seal_opens_through_lib L anchor =
     (let expected = ''a Go-sealed bearer opens through br_auth_contract::open into the exact BearerEntry'' in
      try_value seal_key (\<lambda>key.
        go_seal_opens_loop L anchor expected key [human_entry, service_entry]))"

fun rust_seal_opens_loop ::
  "lib \<Rightarrow> anchor \<Rightarrow> string \<Rightarrow> bearer_seal_key \<Rightarrow> bearer_entry list \<Rightarrow> (conformance_error + check_outcome) prog" where
  "rust_seal_opens_loop L anchor expected key [] =
     Ret (Inr (outcome_pass RustSealOpensInGo expected
       ''lib-sealed human + service entries opened in Go to the identical JSON''))"
| "rust_seal_opens_loop L anchor expected key (entry # entries) =
     bind (seal L key TOKEN entry) (\<lambda>res.
     try_value (map_err ContractRefused res) (\<lambda>sealed.
     try_value (encode_entry L entry) (\<lambda>expected_plaintext.
     try_step (anchor_open L anchor SEAL_KEY_BYTES TOKEN sealed) (\<lambda>opened.
       case opened of
         Inr plaintext \<Rightarrow>
           if plaintext = expected_plaintext then rust_seal_opens_loop L anchor expected key entries
           else Ret (Inr (outcome_fail RustSealOpensInGo expected
             (''Go opened '' @ show_nat (length plaintext) @ '' bytes'')
             (''Go opened a different plaintext than the lib serialized: '' @ debug_str (utf8_lossy plaintext))))
       | Inl e \<Rightarrow> Ret (Inr (outcome_fail RustSealOpensInGo expected
           (''Go open failed: '' @ e)
           (''the independent Go anchor could not open the lib-sealed wire '' @ em_dash @ '' the envelope drifted'')))))))"

definition rust_seal_opens_in_go :: "lib \<Rightarrow> anchor \<Rightarrow> (conformance_error + check_outcome) prog" where
  "rust_seal_opens_in_go L anchor =
     (let expected = ''a lib-sealed bearer opens in the Go anchor into the byte-identical entry JSON'' in
      try_value seal_key (\<lambda>key.
        rust_seal_opens_loop L anchor expected key [human_entry, service_entry]))"

definition lower_hex_char :: "char \<Rightarrow> bool" where
  "lower_hex_char c \<longleftrightarrow> is_digit c \<or> (of_char CHR ''a'' \<le> (of_char c :: nat) \<and> (of_char c :: nat) \<le> of_char CHR ''f'')"

definition well_shaped_hash :: "string \<Rightarrow> bool" where
  "well_shaped_hash hash \<longleftrightarrow> length hash = 64 \<and> list_all lower_hex_char hash"

definition kv_key_outcome :: "lib \<Rightarrow> string \<Rightarrow> check_outcome" where
  "kv_key_outcome L go_key =
     (let expected = ''the KV key the Go anchor derives equals bearer_token_kv_key for the same token, and '' @
            ''that key is the bearer prefix followed by a 64-char lowercase-hex token hash'';
          lib_key = bearer_token_kv_key L TOKEN
      in if go_key \<noteq> lib_key then
           outcome_fail KvKeyAgrees expected (''go='' @ go_key)
             (''lib derived '' @ lib_key @ '' '' @ em_dash @ '' the key format or SHA-256 hashing drifted'')
         else case strip_prefix BEARER_TOKENS_KEY_PREFIX lib_key of
           None \<Rightarrow> outcome_fail KvKeyAgrees expected (''lib_key='' @ lib_key)
             (''the agreed key does not start with the '' @ BEARER_TOKENS_KEY_PREFIX @ '' prefix'')
         | Some hash \<Rightarrow>
             if \<not> well_shaped_hash hash then
               outcome_fail KvKeyAgrees expected (''hash portion='' @ debug_str hash)
                 (''the token hash is not 64 lowercase-hex chars '' @ em_dash @ '' the agreed key is the wrong shape'')
             else outcome_pass KvKeyAgrees expected go_key)"

definition kv_key_agrees :: "lib \<Rightarrow> anchor \<Rightarrow> (conformance_error + check_outcome) prog" where
  "kv_key_agrees L anchor =
     try_step (anchor_kv_key L anchor TOKEN) (\<lambda>(go_key, _). Ret (Inr (kv_key_outcome L go_key)))"

definition extra_field_text :: "sealed_bearer \<Rightarrow> string" where
  "extra_field_text s =
     [CHR ''{'', CHR 0x22] @ ''nonce'' @ [CHR 0x22, CHR '':'', CHR 0x22] @ sb_nonce s @ [CHR 0x22, CHR '','', CHR 0x22] @
     ''ciphertext'' @ [CHR 0x22, CHR '':'', CHR 0x22] @ sb_ciphertext s @ [CHR 0x22, CHR '','', CHR 0x22] @
     ''evil'' @ [CHR 0x22] @ '':true}''"

definition sealed_wire_deserializes :: "lib \<Rightarrow> anchor \<Rightarrow> (conformance_error + check_outcome) prog" where
  "sealed_wire_deserializes L anchor =
     (let expected = ''the Go-frozen SealedBearer JSON deserializes through the deny_unknown_fields lib type'' in
      try_value (encode_entry L human_entry) (\<lambda>plaintext.
      try_step (anchor_seal L anchor SEAL_KEY_BYTES TOKEN plaintext) (\<lambda>sealed.
      try_value (map_err EncodeFailed (json_to_vec L (sealed_to_json sealed))) (\<lambda>json.
        Ret (Inr (case json_read L (sealed_of_json L) json of
          Inl e \<Rightarrow> outcome_fail SealedWireDeserializes expected (''deser failed: '' @ e)
            ''the Go-frozen envelope no longer deserializes through SealedBearer (a renamed/added lib field)''
        | Inr back \<Rightarrow>
            if back \<noteq> sealed then
              outcome_fail SealedWireDeserializes expected ''round-tripped to a different value''
                ''the SealedBearer serde is not stable''
            else if \<not> isl (json_read L (sealed_of_json L) (as_bytes (extra_field_text sealed))) then
              outcome_fail SealedWireDeserializes expected ''an unknown field was accepted''
                (''SealedBearer must reject unknown fields (deny_unknown_fields) '' @ em_dash @ '' the envelope is no longer closed'')
            else outcome_pass SealedWireDeserializes expected
              ''Go-frozen envelope deserializes through the closed lib type, unknown field rejected''))))))"

text \<open>\<open>raw[0] ^= 0xff\<close> panics on an empty ciphertext.\<close>

definition flip_first :: "bytes \<Rightarrow> bytes option" where
  "flip_first raw = (case raw of [] \<Rightarrow> None | b # bs \<Rightarrow> Some (xor b 0xff # bs))"

definition tampered_ciphertext_fails :: "lib \<Rightarrow> anchor \<Rightarrow> (conformance_error + check_outcome) prog" where
  "tampered_ciphertext_fails L anchor =
     (let expected = ''a Go-sealed bearer whose ciphertext is flipped fails to open on both the lib and Go'' in
      try_value seal_key (\<lambda>key.
      try_value (encode_entry L human_entry) (\<lambda>plaintext.
      try_step (anchor_seal L anchor SEAL_KEY_BYTES TOKEN plaintext) (\<lambda>sealed.
      try_value (case b64_decode L (sb_ciphertext sealed) of
          None \<Rightarrow> Inl (AnchorResponse (''ciphertext: '' @ b64_error L (sb_ciphertext sealed)))
        | Some raw \<Rightarrow> Inr raw) (\<lambda>raw.
      case flip_first raw of None \<Rightarrow> Panic
      | Some flipped \<Rightarrow>
          (let tampered = \<lparr>sb_nonce = sb_nonce sealed, sb_ciphertext = b64_encode L flipped\<rparr> in
           if \<not> isl (open_sealed L key TOKEN tampered) then
             Ret (Inr (outcome_fail TamperedCiphertextFails expected ''lib opened tampered ciphertext''
               ''Poly1305 integrity is not enforced by the lib''))
           else try_step (anchor_open L anchor SEAL_KEY_BYTES TOKEN tampered) (\<lambda>opened.
             Ret (Inr (if \<not> isl opened then
               outcome_fail TamperedCiphertextFails expected ''Go opened tampered ciphertext''
                 ''the independent anchor accepted a tampered value''
             else outcome_pass TamperedCiphertextFails expected
               ''tampered ciphertext rejected by both the lib and the Go anchor'')))))))))"

definition relocated_seal_fails :: "lib \<Rightarrow> anchor \<Rightarrow> (conformance_error + check_outcome) prog" where
  "relocated_seal_fails L anchor =
     (let expected = ''a bearer sealed under TOKEN fails to open under a different token (AAD = key-bound, anti-relocation)'' in
      try_value seal_key (\<lambda>key.
      try_value (encode_entry L human_entry) (\<lambda>plaintext.
      try_step (anchor_seal L anchor SEAL_KEY_BYTES TOKEN plaintext) (\<lambda>sealed.
        if \<not> isl (open_sealed L key OTHER_TOKEN sealed) then
          Ret (Inr (outcome_fail RelocatedSealFails expected ''lib opened under the wrong token''
            (''the AAD is not binding the sealed value to its key '' @ em_dash @ '' relocation is possible'')))
        else try_step (anchor_open L anchor SEAL_KEY_BYTES OTHER_TOKEN sealed) (\<lambda>opened.
          Ret (Inr (if \<not> isl opened then
            outcome_fail RelocatedSealFails expected ''Go opened under the wrong token''
              (''the independent anchor does not bind the AAD to the key '' @ em_dash @ '' relocation is possible'')
          else outcome_pass RelocatedSealFails expected
            ''the cross-language seal refuses to open under a different token (AAD binding holds)'')))))))"

definition run_wire_battery :: "lib \<Rightarrow> anchor \<Rightarrow> (conformance_error + conformance_report) prog" where
  "run_wire_battery L anchor =
     try_step (go_seal_opens_through_lib L anchor) (\<lambda>o1. let report = push_outcome empty_report o1 in
     try_step (rust_seal_opens_in_go L anchor) (\<lambda>o2. let report = push_outcome report o2 in
     try_step (kv_key_agrees L anchor) (\<lambda>o3. let report = push_outcome report o3 in
     try_step (sealed_wire_deserializes L anchor) (\<lambda>o4. let report = push_outcome report o4 in
     try_step (tampered_ciphertext_fails L anchor) (\<lambda>o5. let report = push_outcome report o5 in
     try_step (relocated_seal_fails L anchor) (\<lambda>o6. let report = push_outcome report o6 in
       Ret (Inr report)))))))"

section \<open>The interface of an anchor\<close>

text \<open>
  What the checks rely on outside the anchor: the laws of the bearer wire, documents that can be
  written, a cipher that seals, that notices other associated data and whose ciphertext is longer than
  the message by a tag, and hashes of the published shape that tell the two fixed tokens apart. That a
  ciphertext with a flipped byte is refused is not assumed: it is what one of the checks reports.
\<close>

definition wire_laws :: "lib \<Rightarrow> bool" where
  "wire_laws L \<longleftrightarrow> bearer_laws L \<and> aead_binds L \<and>
     (\<forall>j. \<exists>b. json_to_vec L j = Inr b \<and> b \<noteq> []) \<and>
     (\<forall>k n a m. length k = 32 \<and> length n = NONCE_LEN \<longrightarrow> aead_encrypt L k n a m \<noteq> None) \<and>
     (\<forall>k n a. \<exists>tag > 0. \<forall>m c. aead_encrypt L k n a m = Some c \<longrightarrow> length c = length m + tag) \<and>
     (\<forall>n c j. json_from_slice L (as_bytes (extra_field_text
          \<lparr>sb_nonce = b64_encode L n, sb_ciphertext = b64_encode L c\<rparr>)) = Inr j \<longrightarrow>
        j = JObj [(''nonce'', JStr (b64_encode L n)), (''ciphertext'', JStr (b64_encode L c)), (''evil'', JBool True)]) \<and>
     (\<forall>t. well_shaped_hash (core_bearer_token_key L t)) \<and>
     core_bearer_token_key L OTHER_TOKEN \<noteq> core_bearer_token_key L TOKEN"

text \<open>The cipher refuses the sealing of the first entry under a nonce once its first byte is flipped.\<close>

definition tamper_rejected :: "lib \<Rightarrow> bytes \<Rightarrow> bool" where
  "tamper_rejected L n =
     (case encode_entry L human_entry of Inl _ \<Rightarrow> False | Inr p \<Rightarrow>
     (case aead_encrypt L SEAL_KEY_BYTES n (as_bytes (core_bearer_token_key L TOKEN)) p of None \<Rightarrow> False | Some c \<Rightarrow>
     (case flip_first c of None \<Rightarrow> False | Some flipped \<Rightarrow>
        aead_decrypt L SEAL_KEY_BYTES n (as_bytes (core_bearer_token_key L TOKEN)) flipped = None)))"

lemma total_try: "total m \<Longrightarrow> (\<And>tr x. runs m tr (Inr x) \<Longrightarrow> kinded tr \<Longrightarrow> total (f x)) \<Longrightarrow> total (try_step m f)"
  unfolding try_step_def by (rule total_bind_kinded) auto

lemma kinded_nonces: "kinded tr \<Longrightarrow> nonces_ok tr"
  by (auto simp: kinded_def nonces_ok_def NONCE_LEN_def)

text \<open>
  An anchor as any process that answers: whatever it replies, the checks end. One of them can panic,
  on a sealed value whose ciphertext is empty.
\<close>

definition ciphertext_present :: "lib \<Rightarrow> anchor \<Rightarrow> bool" where
  "ciphertext_present L anchor \<longleftrightarrow> (\<forall>p tr s. encode_entry L human_entry = Inr p \<and>
     runs (anchor_seal L anchor SEAL_KEY_BYTES TOKEN p) tr (Inr s) \<and> kinded tr \<longrightarrow>
     b64_decode L (sb_ciphertext s) \<noteq> Some [])"

locale live_anchor =
  fixes L :: lib and anchor :: anchor
  assumes never_panics: "total (anchor_seal L anchor key t p)" "total (anchor_open L anchor key t s)"
      "total (anchor_kv_key L anchor t)"
begin

lemma total_x1: "total (go_seal_opens_loop L anchor ex key es)"
  by (induction es) (auto simp: try_value_def intro!: total_try never_panics)

lemma total_x2: "total (rust_seal_opens_loop L anchor ex key es)"
proof -
  have "total (seal L key t e)" for t e by (simp add: seal_def Let_def)
  then show ?thesis
    by (induction es) (auto simp: try_value_def intro!: total_bind' total_try never_panics split: sum.split)
qed

lemma total_n1: "total (tampered_ciphertext_fails L anchor) \<longleftrightarrow> ciphertext_present L anchor"
proof (intro iffI)
  assume "ciphertext_present L anchor"
  then show "total (tampered_ciphertext_fails L anchor)"
    by (auto simp: tampered_ciphertext_fails_def ciphertext_present_def flip_first_def try_value_def Let_def
        intro!: total_try never_panics split: sum.split option.split list.split)
next
  assume t: "total (tampered_ciphertext_fails L anchor)"
  show "ciphertext_present L anchor"
    unfolding ciphertext_present_def
  proof (intro allI impI notI, elim conjE)
    fix p tr s
    assume p: "encode_entry L human_entry = Inr p" and r: "runs (anchor_seal L anchor SEAL_KEY_BYTES TOKEN p) tr (Inr s)"
      "kinded tr" and empty: "b64_decode L (sb_ciphertext s) = Some []"
    from total_bindD[OF t[unfolded tampered_ciphertext_fails_def Let_def seal_key_ok p try_value_simps try_step_def] r]
    show False by (simp add: empty flip_first_def)
  qed
qed

lemma total_n2: "total (relocated_seal_fails L anchor)"
  by (auto simp: relocated_seal_fails_def try_value_def Let_def intro!: total_try never_panics split: sum.split)

lemma total_battery:
  assumes "ciphertext_present L anchor"
  shows "total (run_wire_battery L anchor)"
proof -
  have "total (go_seal_opens_through_lib L anchor)" "total (rust_seal_opens_in_go L anchor)"
    by (simp_all add: go_seal_opens_through_lib_def rust_seal_opens_in_go_def seal_key_ok total_x1 total_x2 Let_def
        del: go_seal_opens_loop.simps rust_seal_opens_loop.simps)
  moreover have "total (kv_key_agrees L anchor)"
    unfolding kv_key_agrees_def by (rule total_try) (auto simp: never_panics)
  moreover have "total (sealed_wire_deserializes L anchor)"
    by (auto simp: sealed_wire_deserializes_def try_value_def Let_def intro!: total_try never_panics split: sum.split)
  ultimately show ?thesis
    unfolding run_wire_battery_def Let_def by (intro total_try total_n1[THEN iffD2, OF assms] total_n2) simp_all
qed

end

lemma live_anchorI:
  assumes "\<And>raw. total (anchor raw)"
  shows "live_anchor L anchor"
proof -
  have "total (invoke L anchor q)" for q using assms by (auto simp: invoke_def intro!: total_bind' split: sum.split)
  then show ?thesis
    by unfold_locales (auto simp: anchor_seal_def anchor_open_def anchor_kv_key_def try_step_def try_value_def
      intro!: total_bind' split: sum.split option.split)
qed

text \<open>An anchor that implements the wire: it seals, opens and derives keys as the contract says.\<close>

locale wire_anchor = live_anchor +
  assumes laws: "wire_laws L"
    and seals: "length key = 32 \<Longrightarrow> runs (anchor_seal L anchor key t p) tr res \<Longrightarrow> nonces_ok tr \<Longrightarrow>
      \<exists>n c. length n = NONCE_LEN \<and> (GenNonce, RNonce n) \<in> set tr \<and>
        aead_encrypt L key n (as_bytes (core_bearer_token_key L t)) p = Some c \<and>
        res = Inr \<lparr>sb_nonce = b64_encode L n, sb_ciphertext = b64_encode L c\<rparr>"
    and opens: "length key = 32 \<Longrightarrow> length n = NONCE_LEN \<Longrightarrow>
      aead_decrypt L key n (as_bytes (core_bearer_token_key L t)) c \<noteq> Some [] \<Longrightarrow>
      runs (anchor_open L anchor key t \<lparr>sb_nonce = b64_encode L n, sb_ciphertext = b64_encode L c\<rparr>) tr ores \<Longrightarrow>
      (case aead_decrypt L key n (as_bytes (core_bearer_token_key L t)) c of
         None \<Rightarrow> (\<exists>e. ores = Inr (Inl e)) | Some m \<Rightarrow> ores = Inr (Inr m))"
    and keys: "runs (anchor_kv_key L anchor t) tr kres \<Longrightarrow> \<exists>h. kres = Inr (bearer_token_kv_key L t, h)"
begin

lemma bearer: "bearer_laws L" and binds: "aead_binds L" and b64: "b64_ok L" and aead: "aead_ok L"
  using laws by (simp_all add: wire_laws_def bearer_laws_def)

lemma encodes: obtains p where "encode_entry L e = Inr p" "json_to_vec L (bearer_entry_to_json L e) = Inr p" "p \<noteq> []"
proof -
  from laws have "\<exists>b. json_to_vec L (bearer_entry_to_json L e) = Inr b \<and> b \<noteq> []" by (simp add: wire_laws_def)
  with that show thesis by (auto simp: encode_entry_def)
qed

text \<open>A sealing by the anchor, when the run goes on from it.\<close>

lemma after_seal:
  assumes "runs (try_step (anchor_seal L anchor SEAL_KEY_BYTES t p) f) tr res" "nonces_ok tr"
  obtains n c t2 where "length n = NONCE_LEN" "nonces_ok t2"
    "aead_encrypt L SEAL_KEY_BYTES n (as_bytes (core_bearer_token_key L t)) p = Some c"
    "runs (f \<lparr>sb_nonce = b64_encode L n, sb_ciphertext = b64_encode L c\<rparr>) t2 res" "(GenNonce, RNonce n) \<in> set tr"
  using assms(1)
proof (cases rule: runs_try_step)
  case (1 e)
  then show thesis using seals[OF length_SEAL_KEY 1(1)] assms(2) by simp
next
  case (2 t1 t2 x)
  then have n: "nonces_ok t1" "nonces_ok t2" using assms(2) by simp_all
  with seals[OF length_SEAL_KEY 2(2)] 2(1,3) that show thesis by auto
qed

lemma after_open:
  assumes "runs (try_step (anchor_open L anchor SEAL_KEY_BYTES t
      \<lparr>sb_nonce = b64_encode L n, sb_ciphertext = b64_encode L c\<rparr>) f) tr res" "length n = NONCE_LEN" "nonces_ok tr"
    "aead_decrypt L SEAL_KEY_BYTES n (as_bytes (core_bearer_token_key L t)) c \<noteq> Some []"
  obtains t2 e where "nonces_ok t2" "aead_decrypt L SEAL_KEY_BYTES n (as_bytes (core_bearer_token_key L t)) c = None"
      "runs (f (Inl e)) t2 res"
  | t2 m where "nonces_ok t2" "aead_decrypt L SEAL_KEY_BYTES n (as_bytes (core_bearer_token_key L t)) c = Some m"
      "runs (f (Inr m)) t2 res"
  using assms(1)
proof (cases rule: runs_try_step)
  case (1 e)
  then show thesis using opens[OF length_SEAL_KEY assms(2,4) 1(1)] by (auto split: option.splits)
next
  case (2 t1 t2 x)
  then have n: "nonces_ok t2" using assms(3) by simp
  with opens[OF length_SEAL_KEY assms(2,4) 2(2)] 2(3) that show thesis by (auto split: option.splits)
qed

text \<open>The six checks pass.\<close>

lemma x1_loop:
  "runs (go_seal_opens_loop L anchor ex (BearerSealKey SEAL_KEY_BYTES) es) tr res \<Longrightarrow> nonces_ok tr \<Longrightarrow>
     \<exists>v. res = Inr (outcome_pass GoSealOpensThroughLib ex v)"
proof (induction es arbitrary: tr)
  case (Cons e es)
  obtain p where p: "encode_entry L e = Inr p" "json_to_vec L (bearer_entry_to_json L e) = Inr p" by (rule encodes)
  from Cons.prems(1)[unfolded go_seal_opens_loop.simps p(1) try_value_simps] Cons.prems(2) show ?case
  proof (rule after_seal, goal_cases)
    case (1 n c t2)
    have "open_sealed L (BearerSealKey SEAL_KEY_BYTES) TOKEN \<lparr>sb_nonce = b64_encode L n, sb_ciphertext = b64_encode L c\<rparr> = Inr e"
      by (rule encrypted_opens[OF bearer p(2) 1(1)]) (simp add: 1(3))
    with 1(4) have "runs (go_seal_opens_loop L anchor ex (BearerSealKey SEAL_KEY_BYTES) es) t2 res" by simp
    then show ?case using 1(2) by (rule Cons.IH)
  qed
qed auto

lemma x2_loop:
  "runs (rust_seal_opens_loop L anchor ex (BearerSealKey SEAL_KEY_BYTES) es) tr res \<Longrightarrow> nonces_ok tr \<Longrightarrow>
     \<exists>v. res = Inr (outcome_pass RustSealOpensInGo ex v)"
proof (induction es arbitrary: tr)
  case (Cons e es)
  obtain p where p: "encode_entry L e = Inr p" "json_to_vec L (bearer_entry_to_json L e) = Inr p" "p \<noteq> []"
    by (rule encodes)
  from Cons.prems(1)[unfolded rust_seal_opens_loop.simps] show ?case
  proof (rule runs_bindE, goal_cases)
    case (1 t1 t2 r)
    have n: "nonces_ok t1" "nonces_ok t2" using Cons.prems(2) 1(1) by simp_all
    obtain n where nn: "t1 = [(GenNonce, RNonce n)]" "r = (case aead_encrypt L SEAL_KEY_BYTES n
        (as_bytes (core_bearer_token_key L TOKEN)) p of None \<Rightarrow> Inl AeadFailed
        | Some c \<Rightarrow> Inr \<lparr>sb_nonce = b64_encode L n, sb_ciphertext = b64_encode L c\<rparr>)"
      using 1(2) by (auto simp: seal_def p(2) Let_def runs_simps)
    have ln: "length n = NONCE_LEN" using n(1) nn(1) by simp
    then obtain c where c: "aead_encrypt L SEAL_KEY_BYTES n (as_bytes (core_bearer_token_key L TOKEN)) p = Some c"
      using laws length_SEAL_KEY unfolding wire_laws_def by blast
    have d: "aead_decrypt L SEAL_KEY_BYTES n (as_bytes (core_bearer_token_key L TOKEN)) c = Some p"
      using aead c unfolding aead_ok_def by blast
    from 1(3)[unfolded nn(2) c option.case map_err_simps try_value_simps p(1)] ln n(2) show ?case
      by (rule after_open) (use d p(3) Cons.IH in auto)
  qed
qed auto

lemma x3:
  assumes "runs (kv_key_agrees L anchor) tr res"
  shows "\<exists>ex v. res = Inr (outcome_pass KvKeyAgrees ex v)"
proof -
  have "well_shaped_hash (core_bearer_token_key L TOKEN)" using laws by (simp add: wire_laws_def)
  then have "\<exists>ex v. kv_key_outcome L (bearer_token_kv_key L TOKEN) = outcome_pass KvKeyAgrees ex v"
    by (auto simp: kv_key_outcome_def Let_def bearer_token_kv_key_def strip_prefix_def)
  then show ?thesis
    using assms unfolding kv_key_agrees_def by (elim runs_try_step) (use keys in \<open>fastforce+\<close>)
qed

lemma x4:
  assumes "runs (sealed_wire_deserializes L anchor) tr res" "nonces_ok tr"
  shows "\<exists>ex v. res = Inr (outcome_pass SealedWireDeserializes ex v)"
proof -
  obtain p where p: "encode_entry L human_entry = Inr p" by (rule encodes)
  have w: "\<exists>b. json_to_vec L j = Inr b" for j using laws unfolding wire_laws_def by blast
  have r: "json_to_vec L (sealed_to_json s) = Inr b \<Longrightarrow> json_read L (sealed_of_json L) b = Inr s" for s b
    using bearer by (auto simp: bearer_laws_def json_text_ok_def json_read_def)
  have x: "isl (json_read L (sealed_of_json L) (as_bytes (extra_field_text
      \<lparr>sb_nonce = b64_encode L n, sb_ciphertext = b64_encode L c\<rparr>)))" for n c
  proof (cases "json_from_slice L (as_bytes (extra_field_text \<lparr>sb_nonce = b64_encode L n, sb_ciphertext = b64_encode L c\<rparr>))")
    case (Inr j)
    then have "j = JObj [(''nonce'', JStr (b64_encode L n)), (''ciphertext'', JStr (b64_encode L c)), (''evil'', JBool True)]"
      using laws unfolding wire_laws_def by blast
    with Inr show ?thesis by (simp add: json_read_def sealed_of_json_def closed_struct_def)
  qed (simp add: json_read_def)
  from assms[unfolded sealed_wire_deserializes_def Let_def p try_value_simps] show ?thesis
  proof (rule after_seal, goal_cases)
    case (1 n c t2)
    obtain b where b: "json_to_vec L (sealed_to_json \<lparr>sb_nonce = b64_encode L n, sb_ciphertext = b64_encode L c\<rparr>) = Inr b"
      using w by blast
    show ?case using 1(4)[unfolded b map_err_simps try_value_simps r[OF b] ] x[of n c] by auto
  qed
qed

lemma tagged: "\<exists>tag > 0. \<forall>m c. aead_encrypt L k n a m = Some c \<longrightarrow> length c = length m + tag"
  using laws unfolding wire_laws_def by blast

lemma flipped:
  assumes "aead_encrypt L k n a p = Some c" "p \<noteq> []"
  shows "\<exists>c'. flip_first c = Some c' \<and> aead_decrypt L k n a c' \<noteq> Some []"
proof -
  from tagged[of k n a] obtain tag where
    tag: "0 < tag" "\<And>m c. aead_encrypt L k n a m = Some c \<Longrightarrow> length c = length m + tag" by blast
  with assms(1) obtain x xs where c: "c = x # xs" by (cases c) fastforce+
  have "aead_decrypt L k n a (xor x 0xff # xs) \<noteq> Some []"
  proof
    assume "aead_decrypt L k n a (xor x 0xff # xs) = Some []"
    then have "aead_encrypt L k n a [] = Some (xor x 0xff # xs)" using aead unfolding aead_ok_def by blast
    from tag(2)[OF this] tag(2)[OF assms(1)] assms(2) c show False by simp
  qed
  with c show ?thesis by (simp add: flip_first_def)
qed

text \<open>The check of the flipped byte reports what the cipher does with it.\<close>

lemma n1:
  assumes "runs (tampered_ciphertext_fails L anchor) tr res" "nonces_ok tr"
  shows "\<exists>n out. length n = NONCE_LEN \<and> (GenNonce, RNonce n) \<in> set tr \<and> res = Inr out \<and> co_id out = TamperedCiphertextFails \<and>
    co_status out = (if tamper_rejected L n then Pass else Fail)"
proof -
  obtain p where p: "encode_entry L human_entry = Inr p" "p \<noteq> []" by (rule encodes)
  have b64d: "b64_decode L (b64_encode L b) = Some b" for b using b64 by (simp add: b64_ok_def)
  from assms[unfolded tampered_ciphertext_fails_def Let_def p(1) seal_key_ok try_value_simps] show ?thesis
  proof (rule after_seal, goal_cases)
    case (1 n c t2)
    let ?d = "aead_decrypt L SEAL_KEY_BYTES n (as_bytes (core_bearer_token_key L TOKEN))"
    from flipped[OF 1(3) p(2)] obtain c' where c': "flip_first c = Some c'" "?d c' \<noteq> Some []" by blast
    have rejected: "tamper_rejected L n \<longleftrightarrow> ?d c' = None" by (simp add: tamper_rejected_def p(1) 1(3) c'(1))
    let ?s = "\<lparr>sb_nonce = b64_encode L n, sb_ciphertext = b64_encode L c'\<rparr>"
    note rest = 1(4)[unfolded b64d sealed_bearer.simps option.case try_value_simps c'(1)]
    show ?case
    proof (cases "isl (open_sealed L (BearerSealKey SEAL_KEY_BYTES) TOKEN ?s)")
      case True
      then have lib: "isl (open_sealed L (BearerSealKey SEAL_KEY_BYTES) TOKEN ?s) = True" by simp
      note rest[unfolded lib not_True_eq_False if_False]
      from this 1(1,2) c'(2) show ?thesis
        by (rule after_open) (use 1(1,5) in \<open>auto simp: rejected intro!: exI[of _ n]\<close>)
    next
      case False
      then have "?d c' \<noteq> None" using 1(1) by (cases "?d c'") (auto simp: open_sealed_def b64d Let_def)
      with rest False 1(1,5) show ?thesis by (auto simp: rejected intro!: exI[of _ n])
    qed
  qed
qed

lemma n2:
  assumes "runs (relocated_seal_fails L anchor) tr res" "nonces_ok tr"
  shows "\<exists>ex v. res = Inr (outcome_pass RelocatedSealFails ex v)"
proof -
  obtain p where p: "encode_entry L human_entry = Inr p" by (rule encodes)
  have b64d: "b64_decode L (b64_encode L b) = Some b" for b using b64 by (simp add: b64_ok_def)
  have other: "as_bytes (core_bearer_token_key L OTHER_TOKEN) \<noteq> as_bytes (core_bearer_token_key L TOKEN)"
    using laws by (simp add: wire_laws_def as_bytes_inj)
  from assms[unfolded relocated_seal_fails_def Let_def p seal_key_ok try_value_simps] show ?thesis
  proof (rule after_seal, goal_cases)
    case (1 n c t2)
    have d: "aead_decrypt L SEAL_KEY_BYTES n (as_bytes (core_bearer_token_key L OTHER_TOKEN)) c = None"
    proof (rule ccontr)
      assume "\<not> ?thesis"
      then obtain m where "aead_decrypt L SEAL_KEY_BYTES n (as_bytes (core_bearer_token_key L OTHER_TOKEN)) c = Some m" by blast
      with 1(3) binds other show False unfolding aead_binds_def by blast
    qed
    have "isl (open_sealed L (BearerSealKey SEAL_KEY_BYTES) OTHER_TOKEN \<lparr>sb_nonce = b64_encode L n, sb_ciphertext = b64_encode L c\<rparr>)"
      using d 1(1) by (simp add: open_sealed_def b64d Let_def)
    with 1(4) have "runs (try_step (anchor_open L anchor SEAL_KEY_BYTES OTHER_TOKEN \<lparr>sb_nonce = b64_encode L n, sb_ciphertext = b64_encode L c\<rparr>)
      (\<lambda>opened. Ret (Inr (if \<not> isl opened then
            outcome_fail RelocatedSealFails
              ''a bearer sealed under TOKEN fails to open under a different token (AAD = key-bound, anti-relocation)''
              ''Go opened under the wrong token''
              (''the independent anchor does not bind the AAD to the key '' @ em_dash @ '' relocation is possible'')
          else outcome_pass RelocatedSealFails
            ''a bearer sealed under TOKEN fails to open under a different token (AAD = key-bound, anti-relocation)''
            ''the cross-language seal refuses to open under a different token (AAD binding holds)'')))) t2 res" by simp
    from this 1(1,2) show ?case by (rule after_open) (use d in auto)
  qed
qed

lemma x1: "runs (go_seal_opens_through_lib L anchor) tr res \<Longrightarrow> nonces_ok tr \<Longrightarrow>
    \<exists>ex v. res = Inr (outcome_pass GoSealOpensThroughLib ex v)"
  unfolding go_seal_opens_through_lib_def Let_def seal_key_ok try_value_simps by (blast dest: x1_loop)

lemma x2: "runs (rust_seal_opens_in_go L anchor) tr res \<Longrightarrow> nonces_ok tr \<Longrightarrow>
    \<exists>ex v. res = Inr (outcome_pass RustSealOpensInGo ex v)"
  unfolding rust_seal_opens_in_go_def Let_def seal_key_ok try_value_simps by (blast dest: x2_loop)

text \<open>One check of the battery, and the rest of it.\<close>

lemma after_check:
  assumes "runs (try_step m f) tr res" "nonces_ok tr"
    "\<And>t r. runs m t r \<Longrightarrow> nonces_ok t \<Longrightarrow> \<exists>ex v. r = Inr (outcome_pass i ex v)"
  obtains ex v t2 where "runs (f (outcome_pass i ex v)) t2 res" "nonces_ok t2" "set t2 \<subseteq> set tr"
  using assms(1)
proof (cases rule: runs_try_step)
  case (1 e)
  then show thesis using assms(3)[OF 1(1) assms(2)] by auto
next
  case (2 t1 t2 x)
  then have "nonces_ok t1" "nonces_ok t2" using assms(2) by simp_all
  with assms(3)[OF 2(2)] 2(1,3) that show thesis by auto
qed

lemma after_n1:
  assumes "runs (try_step (tampered_ciphertext_fails L anchor) f) tr res" "nonces_ok tr"
  obtains n out t2 where "length n = NONCE_LEN" "(GenNonce, RNonce n) \<in> set tr" "co_id out = TamperedCiphertextFails"
    "co_status out = (if tamper_rejected L n then Pass else Fail)" "runs (f out) t2 res" "nonces_ok t2"
  using assms(1)
proof (cases rule: runs_try_step)
  case (1 e)
  then show thesis using n1[OF 1(1) assms(2)] by auto
next
  case (2 t1 t2 x)
  then have "nonces_ok t1" "nonces_ok t2" using assms(2) by simp_all
  with n1[OF 2(2)] 2(1,3) that show thesis by auto
qed

lemma battery_passes:
  "runs (run_wire_battery L anchor) tr res \<Longrightarrow> nonces_ok tr \<Longrightarrow>
   \<exists>n r. length n = NONCE_LEN \<and> (GenNonce, RNonce n) \<in> set tr \<and> res = Inr r \<and> map (\<lambda>o1. (co_id o1, co_status o1)) (outcomes r) =
    [(GoSealOpensThroughLib, Pass), (RustSealOpensInGo, Pass), (KvKeyAgrees, Pass),
     (SealedWireDeserializes, Pass), (TamperedCiphertextFails, if tamper_rejected L n then Pass else Fail),
     (RelocatedSealFails, Pass)]"
  unfolding run_wire_battery_def Let_def
  by (erule (1) after_check, erule (1) x1, erule (1) after_check, erule (1) x2, erule (1) after_check, erule x3,
      erule (1) after_check, erule (1) x4, erule (1) after_n1, erule (1) after_check, erule (1) n2)
    (clarsimp split del: if_split, intro exI conjI, assumption, blast, simp)

text \<open>And the sealed value has a ciphertext, so no check panics.\<close>

lemma present: "ciphertext_present L anchor"
  unfolding ciphertext_present_def
proof (intro allI impI, elim conjE)
  fix p tr s assume "runs (anchor_seal L anchor SEAL_KEY_BYTES TOKEN p) tr (Inr s)" "kinded tr"
  from seals[OF length_SEAL_KEY this(1) kinded_nonces[OF this(2)] ] obtain n c where
    c: "aead_encrypt L SEAL_KEY_BYTES n (as_bytes (core_bearer_token_key L TOKEN)) p = Some c"
    "s = \<lparr>sb_nonce = b64_encode L n, sb_ciphertext = b64_encode L c\<rparr>" by auto
  from tagged[of SEAL_KEY_BYTES n "as_bytes (core_bearer_token_key L TOKEN)"] c(1) have "c \<noteq> []" by fastforce
  with c(2) show "b64_decode L (sb_ciphertext s) \<noteq> Some []"
    using b64 by (auto simp: b64_ok_def)
qed

end

end
