(* ===== verification/Kv_Battery.thy ===== *)
theory Kv_Battery
  imports Wire_Battery
begin

text \<open>
  \<open>kv.rs\<close> and \<open>run_full_battery\<close>: the three checks that carry sealed bearers through the
  published-language bucket of a throw-away NATS server, next to values of other owners. The harness
  is asked through requests: a fresh server, puts, and scans of a prefix that decode what they find.
  \<open>bucket_log\<close> says that the scans of a run show what its puts have stored, \<open>refused\<close> that a call was refused.
\<close>

section \<open>The checks\<close>

definition DIRECTORY_USERS_PREFIX :: string where
  "DIRECTORY_USERS_PREFIX = ''identity/users/''"

definition battery_kv_key :: "lib \<Rightarrow> string \<Rightarrow> conformance_error + kv_key" where
  "battery_kv_key L value = map_err KvRefused (kv_key_new L value)"

definition battery_kv_prefix :: "lib \<Rightarrow> string \<Rightarrow> conformance_error + string" where
  "battery_kv_prefix L value = map_err KvRefused (kv_prefix_new L value)"

definition fabric_err :: "fabric_error \<Rightarrow> conformance_error" where
  "fabric_err e = FabricRefused (fabric_error_to_string e)"

fun actor_label :: "actor \<Rightarrow> string" where
  "actor_label (Human _) = ''human''"
| "actor_label (Service _) = ''service''"

text \<open>What a scan of the bearer prefix must show after a put, and the verdict on it.\<close>

definition rides_verdict ::
  "lib \<Rightarrow> string \<Rightarrow> bearer_seal_key \<Rightarrow> string \<Rightarrow> bearer_entry \<Rightarrow> kv_key \<Rightarrow> sealed_bearer \<Rightarrow>
   (kv_key \<times> sealed_bearer) list \<Rightarrow> check_outcome option" where
  "rides_verdict L expected key token entry bearer_key sealed collected =
     (case map_of collected bearer_key of
        None \<Rightarrow> Some (outcome_fail RidesPublishedLanguageConsumer expected
          (show_nat (length collected) @ '' key(s) under the bearer prefix'')
          (''the real published-language reader did not see the '' @ actor_label (be_actor entry) @
           '' bearer key it just published''))
      | Some read_back \<Rightarrow>
          if read_back \<noteq> sealed then
            Some (outcome_fail RidesPublishedLanguageConsumer expected ''envelope changed in transit''
              (''the '' @ actor_label (be_actor entry) @
               '' SealedBearer did not round-trip the real fabric PL transport byte-identically''))
          else (case open_sealed L key token read_back of
             Inr opened \<Rightarrow>
               if opened = entry then None
               else Some (outcome_fail RidesPublishedLanguageConsumer expected
                 (''opened '' @ bearer_entry_debug L opened)
                 ''the PL-transported bearer opened into a different entry'')
           | Inl e \<Rightarrow> Some (outcome_fail RidesPublishedLanguageConsumer expected
               (''open errored: '' @ contract_error_to_string e)
               ''the lib could not open the PL-transported sealed bearer'')))"

fun rides_loop ::
  "lib \<Rightarrow> anchor \<Rightarrow> string \<Rightarrow> bearer_seal_key \<Rightarrow> bearer_entry list \<Rightarrow> (conformance_error + check_outcome) prog" where
  "rides_loop L anchor expected key [] =
     Ret (Inr (outcome_pass RidesPublishedLanguageConsumer expected
       ''the human + service bearers round-tripped the real fabric PL reader and opened through the lib''))"
| "rides_loop L anchor expected key (entry # entries) =
     (let token = (case be_actor entry of Service _ \<Rightarrow> OTHER_TOKEN | _ \<Rightarrow> TOKEN) in
      try_value (encode_entry L entry) (\<lambda>plaintext.
      try_step (anchor_seal L anchor SEAL_KEY_BYTES token plaintext) (\<lambda>sealed.
      try_value (battery_kv_key L (bearer_token_kv_key L token)) (\<lambda>bearer_key.
      pl_put bearer_key sealed (\<lambda>put.
      try_value (map_err fabric_err put) (\<lambda>_.
      try_value (battery_kv_prefix L BEARER_TOKENS_KEY_PREFIX) (\<lambda>pre.
      pl_entries pre (\<lambda>read.
      try_value (map_err fabric_err read) (\<lambda>collected.
        case rides_verdict L expected key token entry bearer_key sealed collected of
          Some out \<Rightarrow> Ret (Inr out)
        | None \<Rightarrow> rides_loop L anchor expected key entries)))))))))"

definition rides_inner :: "lib \<Rightarrow> anchor \<Rightarrow> string \<Rightarrow> (conformance_error + check_outcome) prog" where
  "rides_inner L anchor expected =
     try_value seal_key (\<lambda>key. rides_loop L anchor expected key [human_entry, service_entry])"

definition rides_published_language_consumer ::
  "lib \<Rightarrow> (conformance_error + string) prog \<Rightarrow> (string \<Rightarrow> anchor) \<Rightarrow> (conformance_error + check_outcome) prog" where
  "rides_published_language_consumer L build anchor_at =
     (let expected = ''a Go-sealed bearer published to identity/bearer_tokens/<hash> via the real fabric '' @
        ''PublishedLanguagePublisher is read back by the real PublishedLanguageReader scoped to '' @
        ''the bearer prefix and opened through the lib into the original entry'' in
      try_step build (\<lambda>binary.
        nats_start (bind (rides_inner L (anchor_at binary) expected) (\<lambda>outcome.
          nats_shutdown (Ret outcome)))))"

definition undecodable_verdict ::
  "string \<Rightarrow> kv_key \<Rightarrow> fabric_error + (kv_key \<times> sealed_bearer) list \<Rightarrow> check_outcome" where
  "undecodable_verdict expected garbage_key read =
     (case read of
        Inr collected \<Rightarrow> outcome_fail UndecodableBearerValueFailsClosed expected
          (''entries() returned Ok with '' @ show_nat (length collected) @
           '' key(s) '' @ em_dash @ '' the undecodable value was skipped'')
          ''the fabric scan silently skipped an undecodable cohabiting value instead of failing closed''
      | Inl (Decode subject m) \<Rightarrow>
          if subject = key_str garbage_key then
            outcome_pass UndecodableBearerValueFailsClosed expected
              (''entries() failed closed with FabricError::Decode on '' @ subject)
          else outcome_fail UndecodableBearerValueFailsClosed expected
            (''decode error named a different key: '' @ subject)
            ''the fail-closed decode error did not name the garbage bearer key''
      | Inl other \<Rightarrow> outcome_fail UndecodableBearerValueFailsClosed expected
          (''entries() errored with '' @ fabric_error_to_string other)
          ''the fabric scan failed, but not with the expected FabricError::Decode'')"

definition undecodable_inner :: "lib \<Rightarrow> string \<Rightarrow> (conformance_error + check_outcome) prog" where
  "undecodable_inner L expected =
     now_v7 (\<lambda>u.
     try_value (battery_kv_key L (BEARER_TOKENS_KEY_PREFIX @ uuid_simple L u)) (\<lambda>garbage_key.
     pl_put_json garbage_key (JObj [(''not_a_sealed_bearer'', JBool True)]) (\<lambda>put.
     try_value (map_err fabric_err put) (\<lambda>_.
     try_value (battery_kv_prefix L BEARER_TOKENS_KEY_PREFIX) (\<lambda>pre.
     pl_entries pre (\<lambda>read. Ret (Inr (undecodable_verdict expected garbage_key read))))))))"

definition undecodable_bearer_value_fails_closed :: "lib \<Rightarrow> (conformance_error + check_outcome) prog" where
  "undecodable_bearer_value_fails_closed L =
     (let expected = ''a non-SealedBearer value published under the bearer prefix makes the bearer-scoped '' @
        ''PublishedLanguageReader::<SealedBearer>().entries(prefix) fail closed with a '' @
        ''FabricError::Decode naming the offending key (the scan does NOT silently skip it)'' in
      nats_start (bind (undecodable_inner L expected) (\<lambda>outcome. nats_shutdown (Ret outcome))))"

text \<open>The verdicts on the two scans of the shared bucket; \<open>None\<close>: nothing is wrong so far.\<close>

definition directory_view_verdict :: "string \<Rightarrow> kv_key \<Rightarrow> kv_key \<Rightarrow> (kv_key \<times> json) list \<Rightarrow> check_outcome option" where
  "directory_view_verdict expected bearer_key directory_key directory_view =
     (if map_of directory_view bearer_key \<noteq> None then
        Some (outcome_fail DirectoryPrefixIgnoresBearer expected ''directory reader saw the bearer key''
          (''the identity/users/ prefix leaked into the bearer key space '' @ em_dash @ '' prefixes are not isolating''))
      else if map_of directory_view directory_key = None then
        Some (outcome_fail DirectoryPrefixIgnoresBearer expected ''directory reader missed its own key''
          ''the directory-prefixed reader did not read its own key'')
      else None)"

definition bearer_view_verdict :: "string \<Rightarrow> kv_key \<Rightarrow> kv_key \<Rightarrow> (kv_key \<times> sealed_bearer) list \<Rightarrow> check_outcome" where
  "bearer_view_verdict expected bearer_key directory_key bearer_view =
     (if map_of bearer_view bearer_key = None then
        outcome_fail DirectoryPrefixIgnoresBearer expected ''bearer reader missed the bearer key''
          ''the bearer-prefixed reader did not read the bearer key it published''
      else if map_of bearer_view directory_key \<noteq> None then
        outcome_fail DirectoryPrefixIgnoresBearer expected ''bearer reader saw the directory key''
          ''the bearer prefix leaked into the directory key space''
      else outcome_pass DirectoryPrefixIgnoresBearer expected
        (''the two prefixes cohabit the real PL bucket without cross-reading each other'' @ [CHR 0x27] @ ''s keys''))"

definition directory_prefix_inner :: "lib \<Rightarrow> anchor \<Rightarrow> string \<Rightarrow> (conformance_error + check_outcome) prog" where
  "directory_prefix_inner L anchor expected =
     try_value (encode_entry L human_entry) (\<lambda>plaintext.
     try_step (anchor_seal L anchor SEAL_KEY_BYTES TOKEN plaintext) (\<lambda>sealed.
     try_value (battery_kv_key L (bearer_token_kv_key L TOKEN)) (\<lambda>bearer_key.
     pl_put bearer_key sealed (\<lambda>put.
     try_value (map_err fabric_err put) (\<lambda>_.
     now_v7 (\<lambda>u.
     try_value (battery_kv_key L (DIRECTORY_USERS_PREFIX @ uuid_simple L u)) (\<lambda>directory_key.
     pl_put_json directory_key (JObj [(''email'', JStr ''ada@example.com'')]) (\<lambda>put2.
     try_value (map_err fabric_err put2) (\<lambda>_.
     try_value (battery_kv_prefix L DIRECTORY_USERS_PREFIX) (\<lambda>directory_prefix.
     pl_json_entries directory_prefix (\<lambda>read.
     try_value (map_err fabric_err read) (\<lambda>directory_view.
       case directory_view_verdict expected bearer_key directory_key directory_view of
         Some out \<Rightarrow> Ret (Inr out)
       | None \<Rightarrow>
           try_value (battery_kv_prefix L BEARER_TOKENS_KEY_PREFIX) (\<lambda>bearer_prefix.
           pl_entries bearer_prefix (\<lambda>read2.
           try_value (map_err fabric_err read2) (\<lambda>bearer_view.
             Ret (Inr (bearer_view_verdict expected bearer_key directory_key bearer_view)))))))))))))))))"

definition directory_prefix_ignores_bearer ::
  "lib \<Rightarrow> (conformance_error + string) prog \<Rightarrow> (string \<Rightarrow> anchor) \<Rightarrow> (conformance_error + check_outcome) prog" where
  "directory_prefix_ignores_bearer L build anchor_at =
     (let expected = ''a real PublishedLanguageReader scoped to identity/users/ does NOT pick up a bearer key '' @
        ''sharing the bucket, and a reader scoped to identity/bearer_tokens/ does NOT pick up the '' @
        ''directory key (cohabitation safety)'' in
      try_step build (\<lambda>binary.
        nats_start (bind (directory_prefix_inner L (anchor_at binary) expected) (\<lambda>outcome.
          nats_shutdown (Ret outcome)))))"

section \<open>lib.rs\<close>

definition run_full_battery ::
  "lib \<Rightarrow> (conformance_error + string) prog \<Rightarrow> (string \<Rightarrow> anchor) \<Rightarrow> (conformance_error + conformance_report) prog" where
  "run_full_battery L build anchor_at =
     try_step build (\<lambda>binary.
     try_step (run_wire_battery L (anchor_at binary)) (\<lambda>report.
     try_step (rides_published_language_consumer L build anchor_at) (\<lambda>o1.
     let report = push_outcome report o1 in
     try_step (directory_prefix_ignores_bearer L build anchor_at) (\<lambda>o2.
     let report = push_outcome report o2 in
     try_step (undecodable_bearer_value_fails_closed L) (\<lambda>o3.
     let report = push_outcome report o3 in
       Ret (Inr report))))))"

section \<open>What a scan shows\<close>

text \<open>
  What is known of the bucket after an event: a fresh server is empty, a put that was acknowledged is
  stored, and after a put that was refused nothing is known (it may have been stored).
\<close>

type_synonym bucket = "(kv_key \<times> json) list"

definition pl_set :: "kv_key \<Rightarrow> json \<Rightarrow> bucket \<Rightarrow> bucket" where
  "pl_set k j b = (k, j) # filter (\<lambda>e. fst e \<noteq> k) b"

definition pl_after :: "bucket option \<Rightarrow> event \<Rightarrow> bucket option" where
  "pl_after b e = (case e of
      (NatsStart, _) \<Rightarrow> Some []
    | (PlPut k s, RDone (Inr _)) \<Rightarrow> map_option (pl_set k (sealed_to_json s)) b
    | (PlPutJson k j, RDone (Inr _)) \<Rightarrow> map_option (pl_set k j) b
    | (PlPut k s, RDone (Inl _)) \<Rightarrow> None
    | (PlPutJson k j, RDone (Inl _)) \<Rightarrow> None
    | _ \<Rightarrow> b)"

text \<open>A scan of a prefix: every value under it, decoded; the first that does not decode ends it.\<close>

fun pl_scan :: "lib \<Rightarrow> string \<Rightarrow> (kv_key \<times> json) list \<Rightarrow> fabric_error + (kv_key \<times> sealed_bearer) list" where
  "pl_scan L p [] = Inr []"
| "pl_scan L p ((k, j) # b) =
     (if \<not> prefix p (key_str k) then pl_scan L p b
      else case sealed_of_json L j of
        Inl e \<Rightarrow> Inl (Decode (key_str k) e)
      | Inr s \<Rightarrow> (case pl_scan L p b of Inl e \<Rightarrow> Inl e | Inr m \<Rightarrow> Inr ((k, s) # m)))"

definition pl_json_scan :: "string \<Rightarrow> (kv_key \<times> json) list \<Rightarrow> (kv_key \<times> json) list" where
  "pl_json_scan p b = filter (\<lambda>e. prefix p (key_str (fst e))) b"

text \<open>
  A truthful server: a scan that succeeds shows what is stored under the prefix, decoded, and an error of
  decoding names a key there whose value is no sealed bearer. Any call may be refused with another error.
\<close>

definition undecodable :: "lib \<Rightarrow> string \<Rightarrow> bucket \<Rightarrow> string \<Rightarrow> bool" where
  "undecodable L p b k \<longleftrightarrow> prefix p k \<and> list_ex (\<lambda>(k', j). k' = KvKey k \<and> isl (sealed_of_json L j)) b"

fun truthful :: "lib \<Rightarrow> bucket \<Rightarrow> event \<Rightarrow> bool" where
  "truthful L b (PlEntries p, REntries (Inr m)) =
     (case pl_scan L p b of Inl _ \<Rightarrow> False | Inr m' \<Rightarrow> map_of m = map_of m')"
| "truthful L b (PlEntries p, REntries (Inl (Decode k _))) = undecodable L p b k"
| "truthful L b (PlJsonEntries p, RJsonEntries (Inr m)) = (map_of m = map_of (pl_json_scan p b))"
| "truthful L b e = True"

fun bucket_log :: "lib \<Rightarrow> bucket option \<Rightarrow> event list \<Rightarrow> bool" where
  "bucket_log L b [] = True"
| "bucket_log L b (e # tr) = ((case b of None \<Rightarrow> True | Some c \<Rightarrow> truthful L c e) \<and> bucket_log L (pl_after b e) tr)"

text \<open>A call that the server refuses: an error other than one of decoding.\<close>

fun refusal :: "event \<Rightarrow> bool" where
  "refusal (PlPut k s, RDone (Inl _)) = True"
| "refusal (PlPutJson k j, RDone (Inl _)) = True"
| "refusal (PlEntries p, REntries (Inl e)) = (case e of Decode _ _ \<Rightarrow> False | _ \<Rightarrow> True)"
| "refusal (PlJsonEntries p, RJsonEntries (Inl _)) = True"
| "refusal e = False"

definition refused :: "event list \<Rightarrow> bool" where
  "refused tr \<longleftrightarrow> list_ex refusal tr"

lemma refused_simps [simp]:
  "\<not> refused []" "refused (e # tr) \<longleftrightarrow> refusal e \<or> refused tr" "refused (t1 @ t2) \<longleftrightarrow> refused t1 \<or> refused t2"
  by (simp_all add: refused_def)

lemma bucket_log_append [simp]:
  "bucket_log L b (t1 @ t2) \<longleftrightarrow> bucket_log L b t1 \<and> bucket_log L (foldl pl_after b t1) t2"
  by (induction t1 arbitrary: b) auto

lemma pl_after_simps [simp]:
  "pl_after b (NatsStart, r) = Some []" "pl_after b (PlPut k s, RDone (Inr u)) = map_option (pl_set k (sealed_to_json s)) b"
  "pl_after b (PlPutJson k j, RDone (Inr u)) = map_option (pl_set k j) b" "pl_after b (GenNonce, r) = b" "pl_after b (NowV7, r) = b"
  "pl_after b (PlEntries p, r) = b" "pl_after b (PlJsonEntries p, r) = b" "pl_after b (NatsShutdown, r) = b"
  by (simp_all add: pl_after_def)

text \<open>A bucket that holds sealed bearers only: a scan shows what was put last.\<close>

definition sealed_only :: "(kv_key \<times> json) list \<Rightarrow> bool" where
  "sealed_only b \<longleftrightarrow> (\<forall>(k, j) \<in> set b. \<exists>s. j = sealed_to_json s)"

lemma sealed_only_set: "sealed_only b \<Longrightarrow> sealed_only (pl_set k (sealed_to_json s) b)"
  by (auto simp: sealed_only_def pl_set_def)

lemma sealed_only_decodes: "sealed_only b \<Longrightarrow> \<not> undecodable L p b k"
  by (auto simp: sealed_only_def undecodable_def list_ex_iff)

lemma pl_scan_sealed: "sealed_only b \<Longrightarrow> \<exists>m. pl_scan L p b = Inr m"
  by (induction b) (auto simp: sealed_only_def)

lemma pl_scan_set:
  assumes "sealed_only b" "prefix p (key_str k)"
  shows "\<exists>m. pl_scan L p (pl_set k (sealed_to_json s) b) = Inr ((k, s) # m)"
proof -
  have "sealed_only (filter (\<lambda>e. fst e \<noteq> k) b)" using assms(1) by (auto simp: sealed_only_def)
  then obtain m where "pl_scan L p (filter (\<lambda>e. fst e \<noteq> k) b) = Inr m" using pl_scan_sealed by blast
  with assms(2) show ?thesis by (simp add: pl_set_def)
qed

text \<open>The fabric accepts the keys and prefixes of the contract, and keeps them verbatim.\<close>

definition kv_laws :: "lib \<Rightarrow> bool" where
  "kv_laws L \<longleftrightarrow>
     (\<forall>t. kv_key_new L (bearer_token_kv_key L t) = Inr (KvKey (bearer_token_kv_key L t))) \<and>
     (\<forall>p u. p \<in> {BEARER_TOKENS_KEY_PREFIX, DIRECTORY_USERS_PREFIX} \<longrightarrow>
        kv_key_new L (p @ uuid_simple L u) = Inr (KvKey (p @ uuid_simple L u)) \<and> kv_prefix_new L p = Inr p)"

lemma battery_keys:
  assumes "kv_laws L"
  shows "battery_kv_key L (bearer_token_kv_key L t) = Inr (KvKey (bearer_token_kv_key L t))"
    "battery_kv_key L (BEARER_TOKENS_KEY_PREFIX @ uuid_simple L u) = Inr (KvKey (BEARER_TOKENS_KEY_PREFIX @ uuid_simple L u))"
    "battery_kv_key L (DIRECTORY_USERS_PREFIX @ uuid_simple L u) = Inr (KvKey (DIRECTORY_USERS_PREFIX @ uuid_simple L u))"
    "battery_kv_prefix L BEARER_TOKENS_KEY_PREFIX = Inr BEARER_TOKENS_KEY_PREFIX"
    "battery_kv_prefix L DIRECTORY_USERS_PREFIX = Inr DIRECTORY_USERS_PREFIX"
  using assms by (simp_all add: kv_laws_def battery_kv_key_def battery_kv_prefix_def)

text \<open>The verdict on a check that is run against a truthful server: it passes, unless a call is refused.\<close>

definition verdict :: "check_id \<Rightarrow> event list \<Rightarrow> conformance_error + check_outcome \<Rightarrow> bool" where
  "verdict i tr res \<longleftrightarrow> refused tr \<or> (\<exists>ex v. res = Inr (outcome_pass i ex v))"

lemma verdict_Cons: "verdict i tr res \<Longrightarrow> verdict i (e # tr) res"
  by (auto simp: verdict_def)

lemma verdict_pass [simp]: "verdict i tr (Inr (outcome_pass i ex v))"
  by (auto simp: verdict_def)

lemma verdict_append: "verdict i t2 res \<Longrightarrow> verdict i (t1 @ t2) res"
  by (auto simp: verdict_def)

lemma put_verdict:
  assumes "runs (pl_put k s (\<lambda>put. try_value (map_err fabric_err put) f)) tr res" "nonces_ok tr" "bucket_log L (Some b) tr"
    "\<And>t. nonces_ok t \<Longrightarrow> bucket_log L (Some (pl_set k (sealed_to_json s) b)) t \<Longrightarrow> runs (f ()) t res \<Longrightarrow> verdict i t res"
  shows "verdict i tr res"
proof -
  from assms(1) obtain x t where t: "tr = (PlPut k s, RDone x) # t" "runs (try_value (map_err fabric_err x) f) t res"
    by (auto simp: runs_calls)
  show ?thesis
  proof (cases x)
    case (Inr u)
    with assms(2,3) t show ?thesis by (auto simp: nonces_ok_def intro!: verdict_Cons assms(4))
  qed (simp add: t(1) verdict_def)
qed

lemma put_json_verdict:
  assumes "runs (pl_put_json k j (\<lambda>put. try_value (map_err fabric_err put) f)) tr res" "nonces_ok tr" "bucket_log L (Some b) tr"
    "\<And>t. nonces_ok t \<Longrightarrow> bucket_log L (Some (pl_set k j b)) t \<Longrightarrow> runs (f ()) t res \<Longrightarrow> verdict i t res"
  shows "verdict i tr res"
proof -
  from assms(1) obtain x t where t: "tr = (PlPutJson k j, RDone x) # t" "runs (try_value (map_err fabric_err x) f) t res"
    by (auto simp: runs_calls)
  show ?thesis
  proof (cases x)
    case (Inr u)
    with assms(2,3) t show ?thesis by (auto simp: nonces_ok_def intro!: verdict_Cons assms(4))
  qed (simp add: t(1) verdict_def)
qed

lemma entries_verdict:
  assumes "runs (pl_entries p f) tr res" "nonces_ok tr" "bucket_log L (Some b) tr"
    "\<And>t m m'. pl_scan L p b = Inr m' \<Longrightarrow> map_of m = map_of m' \<Longrightarrow> nonces_ok t \<Longrightarrow> bucket_log L (Some b) t \<Longrightarrow>
       runs (f (Inr m)) t res \<Longrightarrow> verdict i t res"
    "\<And>t k e. undecodable L p b k \<Longrightarrow> nonces_ok t \<Longrightarrow> bucket_log L (Some b) t \<Longrightarrow>
       runs (f (Inl (Decode k e))) t res \<Longrightarrow> verdict i t res"
  shows "verdict i tr res"
proof -
  from assms(1) obtain x t where t: "tr = (PlEntries p, REntries x) # t" "runs (f x) t res" by (auto simp: runs_calls)
  have rest: "nonces_ok t" "bucket_log L (Some b) t" using assms(2,3) t(1) by (auto simp: nonces_ok_def)
  show ?thesis
  proof (cases x)
    case (Inr m)
    with assms(3) t(1) obtain m' where "pl_scan L p b = Inr m'" "map_of m = map_of m'" by (auto split: sum.splits)
    from verdict_Cons[OF assms(4)[OF this rest t(2)[unfolded Inr] ] ] t(1) show ?thesis by simp
  next
    case (Inl e)
    show ?thesis
    proof (cases e)
      case (Decode k e')
      with assms(3) t(1) Inl have "undecodable L p b k" by simp
      from verdict_Cons[OF assms(5)[OF this rest t(2)[unfolded Inl Decode] ] ] t(1) show ?thesis by simp
    qed (simp_all add: t(1) Inl verdict_def)
  qed
qed

lemma json_entries_verdict:
  assumes "runs (pl_json_entries p (\<lambda>r. try_value (map_err fabric_err r) f)) tr res" "nonces_ok tr" "bucket_log L (Some b) tr"
    "\<And>t m. map_of m = map_of (pl_json_scan p b) \<Longrightarrow> nonces_ok t \<Longrightarrow> bucket_log L (Some b) t \<Longrightarrow> runs (f m) t res \<Longrightarrow> verdict i t res"
  shows "verdict i tr res"
proof -
  from assms(1) obtain x t where t: "tr = (PlJsonEntries p, RJsonEntries x) # t" "runs (try_value (map_err fabric_err x) f) t res"
    by (auto simp: runs_calls)
  show ?thesis
  proof (cases x)
    case (Inr m)
    with assms(2,3) t show ?thesis by (auto simp: nonces_ok_def intro!: verdict_Cons assms(4)[of m])
  qed (simp add: t(1) verdict_def)
qed

lemma uuid_verdict:
  assumes "runs (now_v7 f) tr res" "nonces_ok tr" "bucket_log L b tr"
    "\<And>u t. nonces_ok t \<Longrightarrow> bucket_log L b t \<Longrightarrow> runs (f u) t res \<Longrightarrow> verdict i t res"
  shows "verdict i tr res"
  using assms(1-3) by (auto simp: runs_calls nonces_ok_def split: option.splits intro!: verdict_Cons assms(4))

text \<open>Each check starts a server of its own, whose bucket is empty.\<close>

lemma start_verdict:
  assumes "runs (nats_start (bind m (\<lambda>outcome. nats_shutdown (Ret outcome)))) tr res" "nonces_ok tr" "bucket_log L b tr"
    "\<And>t. runs m t res \<Longrightarrow> nonces_ok t \<Longrightarrow> bucket_log L (Some []) t \<Longrightarrow> verdict i t res"
  shows "verdict i tr res"
proof -
  from assms(1) obtain t where t: "tr = (NatsStart, RUnit) # t @ [(NatsShutdown, RUnit)]" "runs m t res"
    by (auto simp: runs_calls runs_bind)
  have "nonces_ok t" "bucket_log L (Some []) t" using assms(2,3) by (auto simp: t(1) nonces_ok_def)
  from assms(4)[OF t(2) this] show ?thesis by (auto simp: verdict_def t(1))
qed

section \<open>The undecodable value\<close>

text \<open>The scan cannot succeed, and the only key it can name is the one of the value that was put.\<close>

lemma k3_inner:
  assumes "kv_laws L" "runs (undecodable_inner L ex) tr res" "nonces_ok tr" "bucket_log L (Some []) tr"
  shows "verdict UndecodableBearerValueFailsClosed tr res"
  using assms(2)[unfolded undecodable_inner_def] assms(3,4)
proof (rule uuid_verdict, goal_cases)
  case (1 u t1)
  let ?k = "KvKey (BEARER_TOKENS_KEY_PREFIX @ uuid_simple L u)" and ?j = "JObj [(''not_a_sealed_bearer'', JBool True)]"
  have scan: "pl_scan L BEARER_TOKENS_KEY_PREFIX (pl_set ?k ?j []) = Inl (Decode (key_str ?k) (serde_error L ?j))"
    by (simp add: pl_set_def sealed_of_json_def closed_struct_def)
  have only: "undecodable L BEARER_TOKENS_KEY_PREFIX (pl_set ?k ?j []) k \<Longrightarrow> k = key_str ?k" for k
    by (auto simp: undecodable_def pl_set_def)
  from 1(3)[unfolded battery_keys[OF assms(1)] try_value_simps] 1(1,2) show ?case
  proof (rule put_json_verdict, goal_cases)
    case (1 t2)
    from 1(3)[unfolded battery_keys[OF assms(1)] try_value_simps] 1(1,2) show ?case
      by (rule entries_verdict) (use scan in \<open>auto simp: undecodable_verdict_def dest!: only\<close>)
  qed
qed

lemma k3:
  assumes "kv_laws L" "runs (undecodable_bearer_value_fails_closed L) tr res" "nonces_ok tr" "bucket_log L b tr"
  shows "verdict UndecodableBearerValueFailsClosed tr res"
  using assms(2)[unfolded undecodable_bearer_value_fails_closed_def Let_def] assms(3,4)
  by (rule start_verdict) (rule k3_inner[OF assms(1)])

section \<open>Bearers next to other values\<close>

text \<open>The anchor is a process of its own: it draws nonces, and does not touch the harness.\<close>

definition only_nonces :: "event list \<Rightarrow> bool" where
  "only_nonces tr \<longleftrightarrow> (\<forall>e \<in> set tr. fst e = GenNonce)"

lemma only_nonces_bucket: "only_nonces tr \<Longrightarrow> foldl pl_after b tr = b"
  by (induction tr arbitrary: b) (auto simp: only_nonces_def)

locale kv_anchor = wire_anchor +
  assumes kv: "kv_laws L"
    and quiet: "length key = 32 \<Longrightarrow> runs (anchor_seal L anchor key t p) tr res \<Longrightarrow> only_nonces tr"
begin

lemma quiet_seal_verdict:
  assumes "runs (try_step (anchor_seal L anchor SEAL_KEY_BYTES t p) f) tr res" "nonces_ok tr" "bucket_log L b tr"
    "\<And>n c t2. length n = NONCE_LEN \<Longrightarrow> nonces_ok t2 \<Longrightarrow> bucket_log L b t2 \<Longrightarrow>
      aead_encrypt L SEAL_KEY_BYTES n (as_bytes (core_bearer_token_key L t)) p = Some c \<Longrightarrow>
      runs (f \<lparr>sb_nonce = b64_encode L n, sb_ciphertext = b64_encode L c\<rparr>) t2 res \<Longrightarrow> verdict i t2 res"
  shows "verdict i tr res"
  using assms(1)
proof (cases rule: runs_try_step)
  case (1 e)
  then show ?thesis using seals[OF length_SEAL_KEY 1(1)] assms(2) by simp
next
  case (2 t1 t2 x)
  then have n: "nonces_ok t1" "nonces_ok t2" using assms(2) by simp_all
  have "bucket_log L b t2" using assms(3) 2(1) only_nonces_bucket[OF quiet[OF length_SEAL_KEY 2(2)] ] by simp
  with n seals[OF length_SEAL_KEY 2(2)] 2(3) have "verdict i t2 res" by (auto intro: assms(4))
  then show ?thesis unfolding 2(1) by (rule verdict_append)
qed

lemma rides_verdict_None:
  assumes "encode_entry L e = Inr p" "length n = NONCE_LEN"
    "aead_encrypt L SEAL_KEY_BYTES n (as_bytes (core_bearer_token_key L t)) p = Some c"
    "s = \<lparr>sb_nonce = b64_encode L n, sb_ciphertext = b64_encode L c\<rparr>" "map_of m k = Some s"
  shows "rides_verdict L ex (BearerSealKey SEAL_KEY_BYTES) t e k s m = None"
proof -
  have "json_to_vec L (bearer_entry_to_json L e) = Inr p" using assms(1)
    by (cases "json_to_vec L (bearer_entry_to_json L e)") (simp_all add: encode_entry_def)
  from encrypted_opens[OF bearer this assms(2), of "BearerSealKey SEAL_KEY_BYTES" t c] assms(3-)
  show ?thesis by (simp add: rides_verdict_def)
qed

lemma k1_loop:
  "runs (rides_loop L anchor ex (BearerSealKey SEAL_KEY_BYTES) es) tr res \<Longrightarrow> nonces_ok tr \<Longrightarrow>
     bucket_log L (Some b) tr \<Longrightarrow> sealed_only b \<Longrightarrow> verdict RidesPublishedLanguageConsumer tr res"
proof (induction es arbitrary: tr b)
  case (Cons e es)
  obtain p where p: "encode_entry L e = Inr p" by (rule encodes)
  let ?t = "case be_actor e of Service _ \<Rightarrow> OTHER_TOKEN | _ \<Rightarrow> TOKEN"
  let ?k = "KvKey (bearer_token_kv_key L ?t)"
  from Cons.prems(1)[unfolded rides_loop.simps Let_def p try_value_simps] Cons.prems(2,3) show ?case
  proof (rule quiet_seal_verdict, goal_cases)
    case (1 n c t2)
    let ?s = "\<lparr>sb_nonce = b64_encode L n, sb_ciphertext = b64_encode L c\<rparr>"
    have "prefix BEARER_TOKENS_KEY_PREFIX (key_str ?k)" by (simp add: bearer_token_kv_key_def)
    from pl_scan_set[OF Cons.prems(4) this] obtain m where
      m: "pl_scan L BEARER_TOKENS_KEY_PREFIX (pl_set ?k (sealed_to_json ?s) b) = Inr ((?k, ?s) # m)" by blast
    note good = sealed_only_set[OF Cons.prems(4), of ?k ?s]
    from 1(5)[unfolded battery_keys[OF kv] try_value_simps] 1(2,3) show ?case
    proof (rule put_verdict, goal_cases)
      case (1 t3)
      from 1(3)[unfolded battery_keys[OF kv] try_value_simps] 1(1,2) show ?case
      proof (rule entries_verdict, goal_cases)
        case (1 t4 m1 m2)
        have "m2 = (?k, ?s) # m" using 1(1) m by simp
        then have "map_of m1 ?k = Some ?s" using 1(2) by simp
        note none = rides_verdict_None[OF p \<open>length n = NONCE_LEN\<close> \<open>aead_encrypt L SEAL_KEY_BYTES n _ p = Some c\<close> refl this]
        from 1(5)[unfolded map_err_simps try_value_simps none option.case] 1(3,4) good show ?case by (rule Cons.IH)
      next
        case (2 t4 k e')
        then show ?case using sealed_only_decodes[OF good] by blast
      qed
    qed
  qed
qed auto

lemma k1_inner:
  "runs (rides_inner L anchor ex) tr res \<Longrightarrow> nonces_ok tr \<Longrightarrow> bucket_log L (Some []) tr \<Longrightarrow>
     verdict RidesPublishedLanguageConsumer tr res"
  unfolding rides_inner_def seal_key_ok try_value_simps by (erule (2) k1_loop) (simp add: sealed_only_def)

lemma prefixes_apart: "\<not> prefix DIRECTORY_USERS_PREFIX (BEARER_TOKENS_KEY_PREFIX @ s)"
  "\<not> prefix BEARER_TOKENS_KEY_PREFIX (DIRECTORY_USERS_PREFIX @ s)"
  by (simp_all add: DIRECTORY_USERS_PREFIX_def BEARER_TOKENS_KEY_PREFIX_def)

lemma k2_inner:
  assumes "runs (directory_prefix_inner L anchor ex) tr res" "nonces_ok tr" "bucket_log L (Some []) tr"
  shows "verdict DirectoryPrefixIgnoresBearer tr res"
proof -
  obtain p where p: "encode_entry L human_entry = Inr p" by (rule encodes)
  let ?bk = "KvKey (bearer_token_kv_key L TOKEN)" and ?d = "JObj [(''email'', JStr ''ada@example.com'')]"
  from assms[unfolded directory_prefix_inner_def p try_value_simps] show ?thesis
  proof (rule quiet_seal_verdict, goal_cases)
    case (1 n c t1)
    let ?s = "\<lparr>sb_nonce = b64_encode L n, sb_ciphertext = b64_encode L c\<rparr>"
    from 1(5)[unfolded battery_keys[OF kv] try_value_simps] 1(2,3) show ?case
    proof (rule put_verdict, goal_cases)
      case (1 t2)
      from 1(3,1,2) show ?case
      proof (rule uuid_verdict, goal_cases)
        case (1 u t3)
        let ?dk = "KvKey (DIRECTORY_USERS_PREFIX @ uuid_simple L u)"
        let ?b = "[(?dk, ?d), (?bk, sealed_to_json ?s)]"
        have ne: "?bk \<noteq> ?dk" unfolding kv_key.inject bearer_token_kv_key_def by (metis prefixI prefixes_apart(1))
        have b: "pl_set ?dk ?d (pl_set ?bk (sealed_to_json ?s) []) = ?b"
          using ne by (simp add: pl_set_def)
        have scans: "pl_json_scan DIRECTORY_USERS_PREFIX ?b = [(?dk, ?d)]"
          "pl_scan L BEARER_TOKENS_KEY_PREFIX ?b = Inr [(?bk, ?s)]"
          using prefixes_apart by (simp_all add: pl_json_scan_def bearer_token_kv_key_def)
        have decodes: "\<not> undecodable L BEARER_TOKENS_KEY_PREFIX ?b k" for k
          using prefixes_apart(2) by (auto simp: undecodable_def)
        from 1(3)[unfolded battery_keys[OF kv] try_value_simps] 1(1,2) show ?case
        proof (rule put_json_verdict, goal_cases)
          case (1 t4)
          from 1(3)[unfolded battery_keys[OF kv] try_value_simps] 1(1,2)[unfolded b] show ?case
          proof (rule json_entries_verdict, goal_cases)
            case (1 t5 m)
            have "directory_view_verdict ex ?bk ?dk m = None"
              using ne 1(1) by (simp add: directory_view_verdict_def scans)
            from 1(4)[unfolded this option.case battery_keys[OF kv] try_value_simps] 1(2,3) show ?case
            proof (rule entries_verdict, goal_cases)
              case (1 t6 m1 m2)
              have "m2 = [(?bk, ?s)]" using 1(1) scans(2) by simp
              then have "map_of m1 = [?bk \<mapsto> ?s]" using 1(2) by simp
              then have "\<exists>v. bearer_view_verdict ex ?bk ?dk m1 = outcome_pass DirectoryPrefixIgnoresBearer ex v"
                using ne unfolding bearer_view_verdict_def by (simp only: fun_upd_def) (auto intro: exI)
              with 1(5) show ?case by auto
            qed (use decodes in blast)
          qed
        qed
      qed
    qed
  qed
qed

end

text \<open>Whatever the anchor replies, the checks of this file end, too.\<close>

context live_anchor
begin


lemma total_rides: "total (rides_loop L anchor ex key es)"
  by (induction es) (auto simp: try_value_def Let_def intro!: total_try never_panics split: sum.split option.split)

lemma total_kv:
  shows "total (rides_inner L anchor ex)" "total (directory_prefix_inner L anchor ex)"
  by (auto simp: rides_inner_def directory_prefix_inner_def try_value_def seal_key_ok
      intro!: total_rides total_try never_panics split: sum.split option.split simp del: rides_loop.simps)

end

lemma k1:
  assumes "\<And>binary. kv_anchor L (anchor_at binary)" "\<forall>t r. runs build t r \<longrightarrow> \<not> isl r"
    "runs (rides_published_language_consumer L build anchor_at) tr res" "nonces_ok tr" "bucket_log L b tr"
  shows "verdict RidesPublishedLanguageConsumer tr res"
  using assms(3)[unfolded rides_published_language_consumer_def Let_def]
proof (cases rule: runs_try_step)
  case (2 t1 t2 binary)
  have "nonces_ok t2" "bucket_log L (foldl pl_after b t1) t2" using assms(4,5) 2(1) by simp_all
  with 2(3) have "verdict RidesPublishedLanguageConsumer t2 res"
    by (rule start_verdict) (rule kv_anchor.k1_inner[OF assms(1)])
  then show ?thesis unfolding 2(1) by (rule verdict_append)
qed (use assms(2) in fastforce)

lemma k2:
  assumes "\<And>binary. kv_anchor L (anchor_at binary)" "\<forall>t r. runs build t r \<longrightarrow> \<not> isl r"
    "runs (directory_prefix_ignores_bearer L build anchor_at) tr res" "nonces_ok tr" "bucket_log L b tr"
  shows "verdict DirectoryPrefixIgnoresBearer tr res"
  using assms(3)[unfolded directory_prefix_ignores_bearer_def Let_def]
proof (cases rule: runs_try_step)
  case (2 t1 t2 binary)
  have "nonces_ok t2" "bucket_log L (foldl pl_after b t1) t2" using assms(4,5) 2(1) by simp_all
  with 2(3) have "verdict DirectoryPrefixIgnoresBearer t2 res"
    by (rule start_verdict) (rule kv_anchor.k2_inner[OF assms(1)])
  then show ?thesis unfolding 2(1) by (rule verdict_append)
qed (use assms(2) in fastforce)

section \<open>The full battery\<close>

text \<open>A run that ends in a report with these statuses, unless a call is refused.\<close>

abbreviation statuses :: "conformance_report \<Rightarrow> (check_id \<times> check_status) list" where
  "statuses r \<equiv> map (\<lambda>o1. (co_id o1, co_status o1)) (outcomes r)"

definition reports :: "event list \<Rightarrow> conformance_error + conformance_report \<Rightarrow> (check_id \<times> check_status) list \<Rightarrow> bool" where
  "reports tr res xs \<longleftrightarrow> refused tr \<or> (\<exists>r. res = Inr r \<and> statuses r = xs)"

lemma check_reports:
  assumes "runs (try_step m f) tr res" "nonces_ok tr" "bucket_log L b tr"
    "\<And>t r b. runs m t r \<Longrightarrow> nonces_ok t \<Longrightarrow> bucket_log L b t \<Longrightarrow> verdict i t r"
    "\<And>ex v t2 b2. runs (f (outcome_pass i ex v)) t2 res \<Longrightarrow> nonces_ok t2 \<Longrightarrow> bucket_log L b2 t2 \<Longrightarrow> reports t2 res xs"
  shows "reports tr res xs"
  using assms(1)
proof (cases rule: runs_try_step)
  case (1 e)
  then show ?thesis using assms(4)[OF 1(1) assms(2,3)] by (auto simp: verdict_def reports_def)
next
  case (2 t1 t2 out)
  then have t: "nonces_ok t1" "nonces_ok t2" "bucket_log L b t1" "bucket_log L (foldl pl_after b t1) t2"
    using assms(2,3) by simp_all
  from assms(4)[OF 2(2) t(1,3)] consider "refused t1" | ex v where "out = outcome_pass i ex v"
    by (auto simp: verdict_def)
  then show ?thesis
  proof cases
    case (2 ex v)
    from assms(5)[OF _ t(2,4)] 2 \<open>runs (f out) t2 res\<close> show ?thesis by (auto simp: reports_def \<open>tr = t1 @ t2\<close>)
  qed (simp add: reports_def 2(1))
qed

lemma kv_checks_pass:
  assumes "\<And>binary. kv_anchor L (anchor_at binary)" "\<forall>t r. runs build t r \<longrightarrow> \<not> isl r"
    "runs (try_step (rides_published_language_consumer L build anchor_at) (\<lambda>o1.
     try_step (directory_prefix_ignores_bearer L build anchor_at) (\<lambda>o2.
     try_step (undecodable_bearer_value_fails_closed L) (\<lambda>o3.
       Ret (Inr (push_outcome (push_outcome (push_outcome report o1) o2) o3)))))) tr res"
    "nonces_ok tr" "bucket_log L b tr"
  shows "reports tr res (statuses report @
       [(RidesPublishedLanguageConsumer, Pass), (DirectoryPrefixIgnoresBearer, Pass),
        (UndecodableBearerValueFailsClosed, Pass)])"
  using assms(3,4,5)
proof (rule check_reports[where i = RidesPublishedLanguageConsumer], goal_cases)
  case (1 t r b)
  from 1 show ?case by (rule k1[OF assms(1,2)])
next
  case (2 e1 v1 t1 b1)
  from 2 show ?case
  proof (rule check_reports[where i = DirectoryPrefixIgnoresBearer], goal_cases)
    case (1 t r b)
    from 1 show ?case by (rule k2[OF assms(1,2)])
  next
    case (2 e2 v2 t2 b2)
    from 2 show ?case
      by (rule check_reports[where i = UndecodableBearerValueFailsClosed])
        (use k3[OF kv_anchor.kv[OF assms(1)] ] in \<open>auto simp: reports_def\<close>)
  qed
qed

lemma full_battery_passes:
  assumes "\<And>binary. kv_anchor L (anchor_at binary)" "\<forall>t r. runs build t r \<longrightarrow> \<not> isl r"
    "runs (run_full_battery L build anchor_at) tr res" "nonces_ok tr" "bucket_log L b tr"
  shows "refused tr \<or> (\<exists>n. length n = NONCE_LEN \<and> (GenNonce, RNonce n) \<in> set tr \<and> reports tr res
    [(GoSealOpensThroughLib, Pass), (RustSealOpensInGo, Pass), (KvKeyAgrees, Pass), (SealedWireDeserializes, Pass),
     (TamperedCiphertextFails, if tamper_rejected L n then Pass else Fail), (RelocatedSealFails, Pass),
     (RidesPublishedLanguageConsumer, Pass), (DirectoryPrefixIgnoresBearer, Pass),
     (UndecodableBearerValueFailsClosed, Pass)])"
  using assms(3)[unfolded run_full_battery_def Let_def]
proof (cases rule: runs_try_step)
  case (2 t1 t2 binary)
  have h2: "nonces_ok t2" "bucket_log L (foldl pl_after b t1) t2" using assms(4,5) 2(1) by simp_all
  have wire: "wire_anchor L (anchor_at binary)" using assms(1) kv_anchor_def by blast
  from 2(3) show ?thesis
  proof (cases rule: runs_try_step)
    case (1 e)
    with wire_anchor.battery_passes[OF wire 1(1)] h2(1) show ?thesis by auto
  next
    case w: (2 t3 t4 report)
    have h4: "nonces_ok t3" "nonces_ok t4" "bucket_log L (foldl pl_after (foldl pl_after b t1) t3) t4"
      using h2 w(1) by simp_all
    from wire_anchor.battery_passes[OF wire w(2) h4(1)] obtain n where n: "length n = NONCE_LEN" "(GenNonce, RNonce n) \<in> set t3"
      "statuses report = [(GoSealOpensThroughLib, Pass), (RustSealOpensInGo, Pass), (KvKeyAgrees, Pass),
        (SealedWireDeserializes, Pass), (TamperedCiphertextFails, if tamper_rejected L n then Pass else Fail),
        (RelocatedSealFails, Pass)]" by auto
    from kv_checks_pass[OF assms(1,2) w(3) h4(2,3)] n(1,3) have "reports tr res
      [(GoSealOpensThroughLib, Pass), (RustSealOpensInGo, Pass), (KvKeyAgrees, Pass), (SealedWireDeserializes, Pass),
       (TamperedCiphertextFails, if tamper_rejected L n then Pass else Fail), (RelocatedSealFails, Pass),
       (RidesPublishedLanguageConsumer, Pass), (DirectoryPrefixIgnoresBearer, Pass),
       (UndecodableBearerValueFailsClosed, Pass)]"
      by (auto simp: reports_def 2(1) w(1))
    with n(1,2) show ?thesis by (auto simp: 2(1) w(1))
  qed
qed (use assms(2) in fastforce)

text \<open>Building the anchor: it ends when the tool chain does, but for the missing directory.\<close>

lemma total_build_anchor:
  assumes "\<forall>program args. total (run program args)" "dir \<noteq> None"
  shows "total (build_anchor L run path_exists dir temp_dir)"
  using assms by (auto simp: build_anchor_def ensure_go_available_def Let_def intro!: total_try total_bind')

lemma build_anchor_panics:
  assumes "runs (ensure_go_available run) tr (Inr ())" "kinded tr"
  shows "\<not> total (build_anchor L run path_exists None temp_dir)"
proof
  assume "total (build_anchor L run path_exists None temp_dir)"
  from total_bindD[OF this[unfolded build_anchor_def try_step_def] assms] show False by simp
qed

lemma total_full_battery:
  assumes "\<And>binary. live_anchor L (anchor_at binary)" "\<And>binary. ciphertext_present L (anchor_at binary)" "total build"
  shows "total (run_full_battery L build anchor_at)"
proof -
  have "total (rides_published_language_consumer L build anchor_at)"
    "total (directory_prefix_ignores_bearer L build anchor_at)"
    using live_anchor.total_kv[OF assms(1)] assms(3)
    by (auto simp: rides_published_language_consumer_def directory_prefix_ignores_bearer_def Let_def
        intro!: total_try total_bind')
  moreover have "total (undecodable_bearer_value_fails_closed L)"
    by (auto simp: undecodable_bearer_value_fails_closed_def undecodable_inner_def try_value_def Let_def
        intro!: total_bind' split: sum.split)
  ultimately show ?thesis
    unfolding run_full_battery_def Let_def
    by (intro total_try assms(3) live_anchor.total_battery[OF assms(1,2)]) auto
qed

end
