(* ===== verification/Go_Conforms.thy ===== *)
theory Go_Conforms
  imports Go_Anchor Kv_Battery
begin

text \<open>
  The Go anchor implements the interface \<open>wire_anchor\<close>: one invocation of it through the pipe and
  the two JSON codecs is one call of \<open>sealBearer\<close>, \<open>openBearer\<close> or \<open>bearerTokenKVKey\<close>, and these
  agree with the contract's \<open>seal\<close>, \<open>open\<close> and \<open>bearer_token_kv_key\<close>.
\<close>

section \<open>One invocation\<close>

definition go_output :: "go_lib \<Rightarrow> go_response \<Rightarrow> process_output" where
  "go_output G r = \<lparr>po_success = True, po_status = ''exit status: 0'',
     po_stdout = go_json_write G (go_response_to_json r) @ [0x0A], po_stderr = []\<rparr>"

definition go_req :: "anchor_request \<Rightarrow> go_request" where
  "go_req q = \<lparr>gr_Op = rq_op q, gr_KeyB64 = (case rq_key_b64 q of None \<Rightarrow> [] | Some k \<Rightarrow> k), gr_Token = rq_token q,
     gr_PlaintextB64 = (case rq_plaintext_b64 q of None \<Rightarrow> [] | Some p \<Rightarrow> p), gr_Sealed = rq_sealed q\<rparr>"

lemma go_emit_output: "go_emit G r = Ret (Finished (go_output G r))"
  by (simp add: go_emit_def go_output_def)

text \<open>What the Rust side makes of a response that the Go side printed.\<close>

definition go_reply :: "string \<Rightarrow> go_response \<Rightarrow> conformance_error + anchor_response" where
  "go_reply op r =
     (if gp_Error r \<noteq> [] \<and> op \<noteq> ''open'' then Inl (AnchorError (gp_Error r)) else Inr (go_reads_back r))"

lemma invoke_go:
  assumes "wire_laws L" "go_agrees L G"
  shows "invoke L (go_main G) q = bind (go_handle G (go_req q)) (\<lambda>run. Ret (invoke_result L (rq_op q) run))"
proof -
  have "\<exists>body. json_to_vec L (anchor_request_to_json q) = Inr body"
    using assms(1) unfolding wire_laws_def by blast
  then obtain body where body: "json_to_vec L (anchor_request_to_json q) = Inr body" ..
  then have "go_json_read G body = Inr (anchor_request_to_json q)" using assms(2) unfolding go_agrees_def by blast
  then have "go_main G body = go_handle G (go_req q)"
    by (simp add: go_main_def go_read_request go_req_def)
  with body show ?thesis by (simp add: invoke_def)
qed

lemma invoke_result_go:
  assumes "go_agrees L G"
  shows "invoke_result L op (Finished (go_output G r)) = go_reply op r"
proof -
  have "json_from_slice L (go_json_write G (go_response_to_json r) @ [0x0A]) = Inr (go_response_to_json r)"
    using assms unfolding go_agrees_def by blast
  then show ?thesis
    by (simp add: invoke_result_def go_output_def json_read_def rust_reads_response go_reply_def go_reads_back_def)
qed

section \<open>The three operations\<close>

lemma go_laws:
  assumes "go_agrees L G"
  shows "go_sha256_hex G t = core_bearer_token_key L t" "go_b64_encode G b = b64_encode L b"
    "go_b64_decode G (b64_encode L b) = Inr b" "b64_encode L b = [] \<longleftrightarrow> b = []"
    "length k = 32 \<Longrightarrow> go_aead_new G k = None"
    "length k = 32 \<Longrightarrow> length n = 12 \<Longrightarrow> aead_encrypt L k n a m = Some (go_aead_seal G k n m a)"
    "length k = 32 \<Longrightarrow> length n = 12 \<Longrightarrow>
       (case aead_decrypt L k n a c of None \<Rightarrow> \<exists>e. go_aead_open G k n c a = Inl e | Some m \<Rightarrow> go_aead_open G k n c a = Inr m)"
proof -
  show "length k = 32 \<Longrightarrow> length n = 12 \<Longrightarrow>
       (case aead_decrypt L k n a c of None \<Rightarrow> \<exists>e. go_aead_open G k n c a = Inl e | Some m \<Rightarrow> go_aead_open G k n c a = Inr m)"
  proof -
    assume "length k = 32" "length n = 12"
    then have "case aead_decrypt L k n a c of
        None \<Rightarrow> isl (go_aead_open G k n c a) | Some m \<Rightarrow> go_aead_open G k n c a = Inr m"
      using assms unfolding go_agrees_def by blast
    then show ?thesis by (auto simp: isl_def split: option.splits)
  qed
qed (use assms in \<open>auto simp: go_agrees_def\<close>)

text \<open>\<open>seal\<close> in Go draws a nonce and answers with the sealing.\<close>

lemma go_seal_runs:
  assumes "wire_laws L" "go_agrees L G" "length key = 32"
  shows "runs (anchor_seal L (go_main G) key t p) tr res \<longleftrightarrow>
    (\<exists>n. tr = [(GenNonce, RNonce n)] \<and> res = Inr \<lparr>sb_nonce = b64_encode L n,
       sb_ciphertext = b64_encode L (go_aead_seal G key n p (as_bytes (core_bearer_token_key L t)))\<rparr>)"
  using assms(3)
  by (simp add: anchor_seal_def invoke_go[OF assms(1,2)] try_step_def bind_assoc go_handle_def go_req_def
      decodeKeyAndPlaintext_def decodeKey_def go_laws[OF assms(2)] sealBearer_def sealKeyLen_def Let_def
      go_emit_output bind_calls invoke_result_go[OF assms(2)] go_reply_def go_reads_back_def go_zero_def ok_or_def
      bearerTokenHash_def runs_simps)

lemma go_open_runs:
  assumes "wire_laws L" "go_agrees L G" "length key = 32" "length n = NONCE_LEN"
    "aead_decrypt L key n (as_bytes (core_bearer_token_key L t)) c \<noteq> Some []"
    "runs (anchor_open L (go_main G) key t \<lparr>sb_nonce = b64_encode L n, sb_ciphertext = b64_encode L c\<rparr>) tr res"
  shows "case aead_decrypt L key n (as_bytes (core_bearer_token_key L t)) c of
    None \<Rightarrow> \<exists>e. res = Inr (Inl e) | Some m \<Rightarrow> res = Inr (Inr m)"
proof -
  have b64: "b64_decode L (b64_encode L b) = Some b" for b
    using assms(1) by (simp add: wire_laws_def bearer_laws_def b64_ok_def)
  note go = go_laws(7)[OF assms(2,3), where n = n and c = c and a = "as_bytes (core_bearer_token_key L t)"] assms(4,5)
  have o1: "openBearer G key t \<lparr>sb_nonce = b64_encode L n, sb_ciphertext = b64_encode L c\<rparr> =
      go_aead_open G key n c (as_bytes (core_bearer_token_key L t))"
    using assms(3,4)
    by (simp add: openBearer_def sealKeyLen_def go_laws[OF assms(2)] go_NonceSize_def NONCE_LEN_def bearerTokenHash_def)
  show ?thesis
    using assms(6) go
    by (auto simp: anchor_open_def invoke_go[OF assms(1,2)] try_step_def bind_assoc go_handle_def go_req_def
        decodeKey_def go_laws(1-6)[OF assms(2)] o1 go_emit_output invoke_result_go[OF assms(2)] go_reply_def
        go_reads_back_def go_zero_def ok_or_def b64 NONCE_LEN_def split: option.splits)
qed

lemma go_key_runs:
  assumes "wire_laws L" "go_agrees L G"
  shows "runs (anchor_kv_key L (go_main G) t) tr res \<longleftrightarrow>
    tr = [] \<and> res = Inr (bearer_token_kv_key L t, core_bearer_token_key L t)"
proof -
  have "well_shaped_hash (core_bearer_token_key L t)" using assms(1) by (simp add: wire_laws_def)
  then have "core_bearer_token_key L t \<noteq> []" by (auto simp: well_shaped_hash_def)
  then show ?thesis
    by (auto simp: anchor_kv_key_def invoke_go[OF assms] try_step_def bind_assoc go_handle_def go_req_def
        go_laws(1)[OF assms(2)] go_emit_output invoke_result_go[OF assms(2)] go_reply_def go_reads_back_def
        go_zero_def ok_or_def bearerTokenKVKey_def bearerTokenHash_def bearer_token_kv_key_def
        go_bearerTokensKeyPrefix_def BEARER_TOKENS_KEY_PREFIX_def)
qed

text \<open>The process itself never panics: every path ends in one line of output.\<close>

lemma total_go_handle: "total (go_handle G req)"
  by (auto simp: go_handle_def go_fail_def go_emit_output decodeKey_def decodeKeyAndPlaintext_def sealBearer_def
      Let_def split: sum.split option.split intro!: total_bind')

lemma total_go_main: "total (go_main G raw)"
  by (simp add: go_main_def go_fail_def go_emit_output total_go_handle split: sum.split)

lemma go_conforms:
  assumes "wire_laws L" "go_agrees L G"
  shows "wire_anchor L (go_main G)"
proof (intro wire_anchor.intro live_anchorI total_go_main wire_anchor_axioms.intro)
  fix key t p n c tr res ores kres s
  show "wire_laws L" by (rule assms(1))
  show "length key = 32 \<Longrightarrow> runs (anchor_seal L (go_main G) key t p) tr res \<Longrightarrow> nonces_ok tr \<Longrightarrow>
      \<exists>n c. length n = NONCE_LEN \<and> (GenNonce, RNonce n) \<in> set tr \<and>
        aead_encrypt L key n (as_bytes (core_bearer_token_key L t)) p = Some c \<and>
        res = Inr \<lparr>sb_nonce = b64_encode L n, sb_ciphertext = b64_encode L c\<rparr>"
    by (auto simp: go_seal_runs[OF assms] go_laws(6)[OF assms(2)] NONCE_LEN_def)
  show "runs (anchor_kv_key L (go_main G) t) tr kres \<Longrightarrow> \<exists>h. kres = Inr (bearer_token_kv_key L t, h)"
    by (simp add: go_key_runs[OF assms])
qed (rule go_open_runs[OF assms])

text \<open>And it leaves the harness alone.\<close>

lemma go_conforms_kv:
  assumes "wire_laws L" "go_agrees L G" "kv_laws L"
  shows "kv_anchor L (go_main G)"
  unfolding kv_anchor_def kv_anchor_axioms_def
  using go_conforms[OF assms(1,2)] assms(3) by (auto simp: go_seal_runs[OF assms(1,2)] only_nonces_def)

end
