(* ===== verification/Reference_Wire.thy ===== *)
theory Reference_Wire
  imports Reference_Lib Go_Conforms
begin

text \<open>
  The reference functions for the two sides of the conformance battery: a JSON text with nested
  objects (the requests to the anchor hold a sealed value), hashes of the published shape, and a
  second library for the Go side with the same formats. Both laws of the battery hold of them, and
  the interface \<open>wire_anchor\<close> is interpreted on the model of the Go anchor.
\<close>

section \<open>A text for every document\<close>

fun jenc :: "json \<Rightarrow> string" and jencs :: "json list \<Rightarrow> string" and jencf :: "(string \<times> json) list \<Rightarrow> string" where
  "jenc JNull = ''z''"
| "jenc (JBool b) = (if b then ''t'' else ''f'')"
| "jenc (JInt n) = ''i'' @ hex (show_int n) @ ''.''"
| "jenc (JStr s) = ''s'' @ hex s @ ''.''"
| "jenc (JArr js) = ''['' @ jencs js"
| "jenc (JObj fs) = ''{'' @ jencf fs"
| "jencs [] = '']''"
| "jencs (j # js) = '','' @ jenc j @ jencs js"
| "jencf [] = ''}''"
| "jencf ((k, j) # fs) = hex k @ ''.'' @ jenc j @ jencf fs"

definition field_text :: "string \<Rightarrow> (string \<times> string) option" where
  "field_text s =
     (if CHR ''.'' \<in> set s
      then map_option (\<lambda>k. (k, tl (dropWhile (\<lambda>c. c \<noteq> CHR ''.'') s))) (unhex (takeWhile (\<lambda>c. c \<noteq> CHR ''.'') s))
      else None)"

text \<open>The reader carries its fuel as a list, one element per character.\<close>

fun jdec :: "unit list \<Rightarrow> string \<Rightarrow> (json \<times> string) option"
and jdecs :: "unit list \<Rightarrow> string \<Rightarrow> (json list \<times> string) option"
and jdecf :: "unit list \<Rightarrow> string \<Rightarrow> ((string \<times> json) list \<times> string) option" where
  "jdec (_ # n) (c # r) =
     (if c = CHR ''z'' then Some (JNull, r)
      else if c = CHR ''t'' then Some (JBool True, r)
      else if c = CHR ''f'' then Some (JBool False, r)
      else if c = CHR ''i'' then
        (case field_text r of None \<Rightarrow> None | Some (t, r') \<Rightarrow> map_option (\<lambda>i. (JInt i, r')) (parse_int t))
      else if c = CHR ''s'' then (case field_text r of None \<Rightarrow> None | Some (t, r') \<Rightarrow> Some (JStr t, r'))
      else if c = CHR ''['' then (case jdecs n r of None \<Rightarrow> None | Some (js, r') \<Rightarrow> Some (JArr js, r'))
      else if c = CHR ''{'' then (case jdecf n r of None \<Rightarrow> None | Some (fs, r') \<Rightarrow> Some (JObj fs, r'))
      else None)"
| "jdec _ _ = None"
| "jdecs (_ # n) (c # r) =
     (if c = CHR '']'' then Some ([], r)
      else (case jdec n r of None \<Rightarrow> None | Some (j, r') \<Rightarrow>
        (case jdecs n r' of None \<Rightarrow> None | Some (js, r'') \<Rightarrow> Some (j # js, r''))))"
| "jdecs _ _ = None"
| "jdecf (_ # n) (c # r) =
     (if c = CHR ''}'' then Some ([], r)
      else (case field_text (c # r) of None \<Rightarrow> None | Some (k, r1) \<Rightarrow>
        (case jdec n r1 of None \<Rightarrow> None | Some (j, r2) \<Rightarrow>
          (case jdecf n r2 of None \<Rightarrow> None | Some (fs, r3) \<Rightarrow> Some ((k, j) # fs, r3)))))"
| "jdecf _ _ = None"

lemma field_text_hex [simp]: "field_text (hex k @ CHR ''.'' # r) = Some (k, r)"
proof -
  have no: "CHR ''.'' \<notin> set (hex k)" by (simp add: not_in_hex letter_def)
  then have "takeWhile (\<lambda>c. c \<noteq> CHR ''.'') (hex k @ CHR ''.'' # r) = hex k"
    "dropWhile (\<lambda>c. c \<noteq> CHR ''.'') (hex k @ CHR ''.'' # r) = CHR ''.'' # r"
    by (auto simp: takeWhile_append dropWhile_append)
  then show ?thesis by (simp add: field_text_def)
qed

lemma hex_start: "hex k @ CHR ''.'' # r = c # r' \<Longrightarrow> c \<noteq> CHR ''}''"
  by (cases k rule: hex.cases) auto

lemma jdec_jenc:
  "length (jenc j) \<le> length n \<Longrightarrow> jdec n (jenc j @ r) = Some (j, r)"
  "length (jencs js) \<le> length n \<Longrightarrow> jdecs n (jencs js @ r) = Some (js, r)"
  "length (jencf fs) \<le> length n \<Longrightarrow> jdecf n (jencf fs @ r) = Some (fs, r)"
proof (induction j and js and fs arbitrary: n r and n r and n r rule: jenc_jencs_jencf.induct)
  case (8 j js)
  then obtain m where "n = () # m" by (cases n) auto
  with 8 show ?case by simp
next
  case (10 k j fs)
  then obtain m where m: "n = () # m" "length (jenc j) \<le> length m" "length (jencf fs) \<le> length m" by (cases n) auto
  obtain c r' where c: "hex k @ CHR ''.'' # jenc j @ jencf fs @ r = c # r'"
    by (cases "hex k @ CHR ''.'' # jenc j @ jencf fs @ r") auto
  have "field_text (c # r') = Some (k, jenc j @ jencf fs @ r)" unfolding c[symmetric] by (rule field_text_hex)
  then show ?case using 10(1)[OF m(2)] 10(2)[OF m(3)] hex_start[OF c] by (simp add: m(1) c)
qed (auto simp: Suc_le_length_iff)

section \<open>The two libraries\<close>

definition wire_from_slice :: "bytes \<Rightarrow> string + json" where
  "wire_from_slice b = (case jdec (map (\<lambda>_. ()) b) (of_bytes b) of
     Some (j, r) \<Rightarrow> if list_all is_ws r then Inr j else Inl ''trailing characters''
   | None \<Rightarrow> Inl ''bad JSON'')"

definition wire_to_vec :: "json \<Rightarrow> string + bytes" where
  "wire_to_vec j = Inr (as_bytes (jenc j))"

definition hex_digit :: "char \<Rightarrow> char" where
  "hex_digit c = (let n = (of_char c :: nat) mod 16 in char_of (if n < 10 then 48 + n else 87 + n))"

definition ref_hash :: "string \<Rightarrow> string" where
  "ref_hash t = take 64 (map hex_digit (hex t) @ replicate 64 CHR ''0'')"

definition wire_lib :: lib where
  "wire_lib = ref_lib\<lparr>json_to_vec := wire_to_vec, json_from_slice := wire_from_slice,
     core_bearer_token_key := ref_hash\<rparr>"

definition ref_go :: go_lib where
  "ref_go = \<lparr>
     go_sha256_hex = ref_hash,
     go_b64_encode = ref_b64,
     go_b64_decode = (\<lambda>s. case ref_unb64 s of None \<Rightarrow> Inl ''illegal base64 data'' | Some b \<Rightarrow> Inr b),
     go_aead_new = (\<lambda>k. if length k = 32 then None else Some ''bad key length''),
     go_aead_seal = (\<lambda>k n m a. ref_seal_header k n a @ m),
     go_aead_open = (\<lambda>k n c a. case ref_decrypt k n a c of None \<Rightarrow> Inl ''message authentication failed'' | Some m \<Rightarrow> Inr m),
     go_json_read = wire_from_slice,
     go_json_write = (\<lambda>j. as_bytes (jenc j)),
     go_type_error = (\<lambda>_. ''cannot unmarshal''),
     go_quote = (\<lambda>s. s)\<rparr>"

section \<open>Their laws\<close>

lemma length_of_bytes [simp]: "length (of_bytes b) = length b" "length (as_bytes s) = length s"
  by (simp_all add: of_bytes_def as_bytes_def)

lemma wire_reads:
  "wire_from_slice (as_bytes (jenc j)) = Inr j" "wire_from_slice (as_bytes (jenc j) @ [0x0A]) = Inr j"
proof -
  have "jdec (map (\<lambda>_. ()) (as_bytes (jenc j))) (jenc j @ []) = Some (j, [])" by (rule jdec_jenc) simp
  then show "wire_from_slice (as_bytes (jenc j)) = Inr j" by (simp add: wire_from_slice_def)
  have newline: "of_bytes [0x0A] = [CHR 0x0A]" by code_simp
  have "of_bytes (as_bytes (jenc j) @ [0x0A]) = jenc j @ [CHR 0x0A]"
    using newline by (simp add: of_bytes_append)
  moreover have "jdec (map (\<lambda>_. ()) (as_bytes (jenc j) @ [0x0A])) (jenc j @ [CHR 0x0A]) = Some (j, [CHR 0x0A])"
    by (rule jdec_jenc) simp
  ultimately show "wire_from_slice (as_bytes (jenc j) @ [0x0A]) = Inr j"
    by (simp add: wire_from_slice_def is_ws_def Let_def del: map_append)
qed

lemma jenc_nonempty: "jenc j \<noteq> []"
  by (cases j) auto

lemma hex_digit_ok: "lower_hex_char (hex_digit c)"
proof -
  define n where "n = (of_char c :: nat) mod 16"
  have n: "n < 16" by (simp add: n_def)
  have "lower_hex_char (char_of (48 + n))" if "n < 10"
    using that by (simp add: lower_hex_char_def is_digit_def Let_def)
  moreover have "lower_hex_char (char_of (87 + n))" if "\<not> n < 10"
    using that n by (simp add: lower_hex_char_def)
  ultimately show ?thesis by (simp add: hex_digit_def n_def[symmetric] Let_def)
qed

lemma ref_hash_shape: "well_shaped_hash (ref_hash t)"
proof -
  have "lower_hex_char (CHR ''0'')" by (simp add: lower_hex_char_def is_digit_def Let_def)
  then have "list_all lower_hex_char (map hex_digit (hex t) @ replicate 64 CHR ''0'')"
    using hex_digit_ok by (auto simp: list_all_iff)
  then have "list_all lower_hex_char (ref_hash t)"
    unfolding ref_hash_def list_all_iff by (meson in_set_takeD)
  then show ?thesis by (simp add: well_shaped_hash_def ref_hash_def)
qed

lemma ref_hash_tokens: "ref_hash OTHER_TOKEN \<noteq> ref_hash TOKEN"
  by code_simp

lemma xor_flip: "xor x 0xff \<noteq> (x :: 8 word)"
proof
  assume "xor x 0xff = x"
  then have "xor x (xor x 0xff) = xor x x" by simp
  then show False by (simp flip: xor.assoc)
qed

lemma ref_flip:
  assumes "ref_encrypt k n a m = Some c"
  shows "\<exists>c'. flip_first c = Some c' \<and> ref_decrypt k n a c' = None"
proof -
  have "ref_seal_header k n a \<noteq> []" by (simp add: ref_seal_header_def as_bytes_def)
  then obtain x h where h: "ref_seal_header k n a = x # h" by (cases "ref_seal_header k n a") auto
  with assms have "c = x # h @ m" by (simp add: ref_encrypt_def)
  with xor_flip[of x] h show ?thesis
    by (intro exI[of _ "xor x 0xff # h @ m"]) (simp add: ref_decrypt_def flip_first_def Let_def)
qed

lemma extra_text_rejected:
  "wire_from_slice (as_bytes (extra_field_text \<lparr>sb_nonce = ref_b64 n, sb_ciphertext = ref_b64 c\<rparr>)) = Inl ''bad JSON''"
proof -
  let ?t = "extra_field_text \<lparr>sb_nonce = ref_b64 n, sb_ciphertext = ref_b64 c\<rparr>"
  have "CHR ''.'' \<notin> set ?t" by (simp add: extra_field_text_def ref_b64_def not_in_hex letter_def)
  moreover obtain u where "?t = CHR ''{'' # CHR 0x22 # u" by (simp add: extra_field_text_def)
  moreover have "jdec k (CHR ''{'' # CHR 0x22 # u) = None" if "CHR ''.'' \<notin> set u" for k u
  proof (cases k)
    case (Cons x m)
    then show ?thesis using that by (cases m) (simp_all add: field_text_def)
  qed simp
  ultimately show ?thesis by (simp add: wire_from_slice_def del: jdec.simps)
qed

lemma wire_lib_same:
  "aead_encrypt wire_lib = aead_encrypt ref_lib" "aead_decrypt wire_lib = aead_decrypt ref_lib"
  "b64_encode wire_lib = b64_encode ref_lib" "b64_decode wire_lib = b64_decode ref_lib"
  "uuid_to_string wire_lib = uuid_to_string ref_lib" "uuid_parse_str wire_lib = uuid_parse_str ref_lib"
  "actor_to_json wire_lib = actor_to_json ref_lib" "actor_of_json wire_lib = actor_of_json ref_lib"
  by (simp_all add: wire_lib_def)

lemma wire_lib_own:
  "json_to_vec wire_lib = wire_to_vec" "json_from_slice wire_lib = wire_from_slice"
  "core_bearer_token_key wire_lib = ref_hash"
  "aead_encrypt wire_lib = ref_encrypt" "aead_decrypt wire_lib = ref_decrypt" "b64_encode wire_lib = ref_b64"
  "b64_decode wire_lib = ref_unb64"
  by (simp_all add: wire_lib_def ref_lib_def)

lemma wire_bearer_laws: "bearer_laws wire_lib" "aead_binds wire_lib"
proof -
  have "json_text_ok wire_lib" by (auto simp: json_text_ok_def wire_lib_own wire_to_vec_def wire_reads)
  then show "bearer_laws wire_lib"
    using ref_aead_ok ref_b64_ok ref_uuid_ok ref_actor_json_ok
    unfolding bearer_laws_def aead_ok_def b64_ok_def uuid_ok_def actor_json_ok_def wire_lib_same by blast
  show "aead_binds wire_lib" using ref_aead_binds unfolding aead_binds_def wire_lib_same by blast
qed

lemma wire_lib_laws: "wire_laws wire_lib"
  unfolding wire_laws_def
proof (intro conjI allI impI)
  show "bearer_laws wire_lib" "aead_binds wire_lib" by (rule wire_bearer_laws)+
  show "\<exists>b. json_to_vec wire_lib j = Inr b \<and> b \<noteq> []" for j
    using jenc_nonempty by (simp add: wire_lib_own wire_to_vec_def as_bytes_def)
  show "aead_encrypt wire_lib k n a m \<noteq> None" for k n a m by (simp add: wire_lib_own ref_encrypt_def)
  show "\<exists>tag > 0. \<forall>m c. aead_encrypt wire_lib k n a m = Some c \<longrightarrow> length c = length m + tag" for k n a
    by (rule exI[of _ "length (ref_seal_header k n a)"])
      (simp add: wire_lib_own ref_encrypt_def, simp add: ref_seal_header_def as_bytes_def)
  show "well_shaped_hash (core_bearer_token_key wire_lib t)" for t unfolding wire_lib_own by (rule ref_hash_shape)
  show "core_bearer_token_key wire_lib OTHER_TOKEN \<noteq> core_bearer_token_key wire_lib TOKEN"
    unfolding wire_lib_own by (rule ref_hash_tokens)
qed (simp add: wire_lib_own extra_text_rejected)

lemma ref_go_agrees: "go_agrees wire_lib ref_go"
proof -
  have "hex s = [] \<longleftrightarrow> s = []" for s by (cases s rule: hex.cases) auto
  then have "ref_b64 b = [] \<longleftrightarrow> b = []" for b by (simp add: ref_b64_def of_bytes_def)
  moreover have "ref_unb64 (ref_b64 b) = Some b" for b by (simp add: ref_unb64_def ref_b64_def)
  ultimately show ?thesis
    by (auto simp: go_agrees_def wire_lib_own ref_go_def wire_to_vec_def wire_reads ref_encrypt_def split: option.split)
qed

lemma wire_kv_laws: "kv_laws wire_lib"
  unfolding kv_laws_def bearer_token_kv_key_def BEARER_TOKENS_KEY_PREFIX_def DIRECTORY_USERS_PREFIX_def
  by (simp add: wire_lib_def ref_lib_def ref_kv_key_def ref_prefix_def)

interpretation go: kv_anchor wire_lib "go_main ref_go"
  by (rule go_conforms_kv[OF wire_lib_laws ref_go_agrees wire_kv_laws])

lemma wire_tamper_rejected: "tamper_rejected wire_lib n"
proof -
  obtain p where p: "encode_entry wire_lib human_entry = Inr p" by (rule go.encodes)
  obtain c where c: "ref_encrypt SEAL_KEY_BYTES n (as_bytes (core_bearer_token_key wire_lib TOKEN)) p = Some c"
    by (simp add: ref_encrypt_def)
  from ref_flip[OF c] p c show ?thesis by (auto simp: tamper_rejected_def wire_lib_own)
qed

section \<open>A harness\<close>

text \<open>A throw-away server with an honest bucket, a clock that stands still and fixed nonces and uuids.\<close>

fun harness :: "request \<Rightarrow> (kv_key \<times> json) list \<Rightarrow> reply \<times> (kv_key \<times> json) list" where
  "harness UtcNow b = (RUtc 0, b)"
| "harness MonoNow b = (RMono 0, b)"
| "harness NowV7 b = (RUuid 5, b)"
| "harness GenNonce b = (RNonce (replicate 12 7), b)"
| "harness (TokPut k v) b = (RDone (Inl (FabricFailure ''no such bucket'')), b)"
| "harness (TokGet k) b = (RTok (Inl (FabricFailure ''no such bucket'')), b)"
| "harness (TokUpdateIf k v n) b = (RDone (Inl (FabricFailure ''no such bucket'')), b)"
| "harness TokStatus b = (RDone (Inl (FabricFailure ''no such bucket'')), b)"
| "harness (FamPut k v) b = (RDone (Inl (FabricFailure ''no such bucket'')), b)"
| "harness (FamGet k) b = (RFam (Inl (FabricFailure ''no such bucket'')), b)"
| "harness (PlGet k) b = (RSealed (Inl (FabricFailure ''not asked here'')), b)"
| "harness (PlPut k s) b = (RDone (Inr ()), pl_set k (sealed_to_json s) b)"
| "harness (PlRetract k) b = (RDone (Inl (FabricFailure ''not asked here'')), b)"
| "harness (JwksRead i) b = (RJwks [], b)"
| "harness (JwksWrite i ks) b = (RUnit, b)"
| "harness (LastRead i) b = (RMono 0, b)"
| "harness (LastWrite i t) b = (RUnit, b)"
| "harness (HttpGet u) b = (RHttp (Inl ''no network''), b)"
| "harness NatsStart b = (RUnit, [])"
| "harness NatsShutdown b = (RUnit, b)"
| "harness (PlPutJson k j) b = (RDone (Inr ()), pl_set k j b)"
| "harness (PlEntries p) b = (REntries (pl_scan wire_lib p b), b)"
| "harness (PlJsonEntries p) b = (RJsonEntries (Inr (pl_json_scan p b)), b)"

lemma pl_scan_error:
  "pl_scan L p b = Inl e \<Longrightarrow> \<exists>k m. e = Decode k m \<and> undecodable L p b k"
proof (induction b)
  case (Cons x b)
  obtain k j where x: "x = (k, j)" by (cases x)
  show ?case
  proof (cases "prefix p (key_str k) \<and> isl (sealed_of_json L j)")
    case True
    with Cons.prems x show ?thesis by (cases k) (auto simp: undecodable_def isl_def split: sum.splits)
  next
    case False
    then have "pl_scan L p b = Inl e" using Cons.prems x by (auto split: if_splits sum.splits)
    from Cons.IH[OF this] x show ?thesis by (auto simp: undecodable_def)
  qed
qed simp

lemma harness_step:
  assumes "harness q b = (r, b')"
  shows "truthful wire_lib b (q, r)" "pl_after (Some b) (q, r) = Some b'" "\<not> refusal (q, r)" "nonces_ok [(q, r)]"
proof -
  have scan: "truthful wire_lib b (PlEntries p, REntries (pl_scan wire_lib p b)) \<and>
      \<not> refusal (PlEntries p, REntries (pl_scan wire_lib p b))" for p
    by (cases "pl_scan wire_lib p b") (auto dest: pl_scan_error)
  show "truthful wire_lib b (q, r)" "pl_after (Some b) (q, r) = Some b'" "\<not> refusal (q, r)" "nonces_ok [(q, r)]"
    using assms scan by (cases q; auto simp: pl_after_def nonces_ok_def NONCE_LEN_def)+
qed

lemma harness_honest: "follows harness b tr b' \<Longrightarrow> bucket_log wire_lib (Some b) tr \<and> \<not> refused tr \<and> nonces_ok tr"
proof (induction rule: follows.induct)
  case (reply q b r b1 tr b')
  with harness_step[OF reply.hyps(1)] show ?case by (auto simp: nonces_ok_def)
qed simp

lemma harness_kinded: "harness q b = (r, b') \<Longrightarrow> well_kinded q r"
  by (cases q) auto

end
