(* ===== verification/Conformance_Properties.thy ===== *)
theory Conformance_Properties
  imports Reference_Wire
begin

text \<open>
  Properties of the conformance battery: the Go anchor of the repository passes it, a pass of a
  check is evidence of what it names, and the codes of the checks.
\<close>

lemma conformant_iff_statuses: "is_conformant r \<longleftrightarrow> (\<forall>x \<in> set (statuses r). snd x \<noteq> Fail)"
  by (auto simp: is_conformant_iff)








text \<open>
  C18. The whole battery on the Go anchor, with a build that succeeds, a fabric that takes the keys of the
  contract and servers whose scans are truthful (a scan that succeeds shows what is stored, an error of
  decoding names a key whose value does not decode; any call may be refused): it runs to the end and does
  not panic, and when no call is refused, it ends in a report of nine checks. Eight of them have passed:
  what Go seals opens through the Rust contract, what Rust seals opens in Go, both derive the same key, the
  envelope is closed, another token is refused, the sealed bearers of a human and of a service come back from the
  published bucket unchanged and open, readers of the two prefixes see their own keys only, and a value that is
  no sealed bearer makes the scan fail on its key. The check of the flipped byte passes if the cipher
  refuses the flipped sealing (of the human entry, under a nonce drawn in the run), and fails if it does not; so the report says conformant in just that case.
\<close>

theorem full_battery_conforms:
  assumes "wire_laws L" "go_agrees L G" "kv_laws L" "total build" "\<forall>t r. runs build t r \<longrightarrow> \<not> isl r"
  shows "total (run_full_battery L build (\<lambda>_. go_main G)) \<and>
    (\<forall>tr res. runs (run_full_battery L build (\<lambda>_. go_main G)) tr res \<and> nonces_ok tr \<and> bucket_log L b tr \<and> \<not> refused tr \<longrightarrow>
      (\<exists>n r. length n = NONCE_LEN \<and> (GenNonce, RNonce n) \<in> set tr \<and> res = Inr r \<and>
        statuses r =
          [(GoSealOpensThroughLib, Pass), (RustSealOpensInGo, Pass), (KvKeyAgrees, Pass),
           (SealedWireDeserializes, Pass), (TamperedCiphertextFails, if tamper_rejected L n then Pass else Fail),
           (RelocatedSealFails, Pass), (RidesPublishedLanguageConsumer, Pass), (DirectoryPrefixIgnoresBearer, Pass),
           (UndecodableBearerValueFailsClosed, Pass)] \<and>
        (is_conformant r \<longleftrightarrow> tamper_rejected L n)))"
proof (intro conjI allI impI)
  note anchor = go_conforms_kv[OF assms(1-3)]
  show "total (run_full_battery L build (\<lambda>_. go_main G))" 
    by (rule total_full_battery[OF _ _ assms(4)])
      (use anchor in \<open>auto simp: kv_anchor_def wire_anchor_def intro: wire_anchor.present\<close>)
  fix tr res
  assume r: "runs (run_full_battery L build (\<lambda>_. go_main G)) tr res \<and> nonces_ok tr \<and> bucket_log L b tr \<and> \<not> refused tr"
  then obtain n where "length n = NONCE_LEN" "(GenNonce, RNonce n) \<in> set tr" "reports tr res
    [(GoSealOpensThroughLib, Pass), (RustSealOpensInGo, Pass), (KvKeyAgrees, Pass), (SealedWireDeserializes, Pass),
     (TamperedCiphertextFails, if tamper_rejected L n then Pass else Fail), (RelocatedSealFails, Pass),
     (RidesPublishedLanguageConsumer, Pass), (DirectoryPrefixIgnoresBearer, Pass),
     (UndecodableBearerValueFailsClosed, Pass)]"
    using full_battery_passes[where anchor_at = "\<lambda>_. go_main G", OF anchor assms(5)] by blast
  with r show "\<exists>n r. length n = NONCE_LEN \<and> (GenNonce, RNonce n) \<in> set tr \<and> res = Inr r \<and>
        statuses r =
          [(GoSealOpensThroughLib, Pass), (RustSealOpensInGo, Pass), (KvKeyAgrees, Pass),
           (SealedWireDeserializes, Pass), (TamperedCiphertextFails, if tamper_rejected L n then Pass else Fail),
           (RelocatedSealFails, Pass), (RidesPublishedLanguageConsumer, Pass), (DirectoryPrefixIgnoresBearer, Pass),
           (UndecodableBearerValueFailsClosed, Pass)] \<and>
        (is_conformant r \<longleftrightarrow> tamper_rejected L n)"
    by (intro exI[of _ n]) (auto simp: reports_def conformant_iff_statuses)
qed

lemma full_battery_conforms_witness:
  "\<exists>r b. exec harness (run_full_battery wire_lib (Ret (Inr ''anchor'')) (\<lambda>_. go_main ref_go)) [] = (Some (Inr r), b) \<and>
     is_conformant r \<and> length (outcomes r) = 9"
proof -
  have build: "total (Ret (Inr ''anchor'' :: conformance_error + string))"
    "\<forall>t r. runs (Ret (Inr ''anchor'' :: conformance_error + string)) t r \<longrightarrow> \<not> isl r" by simp_all
  note t = full_battery_conforms[OF wire_lib_laws ref_go_agrees wire_kv_laws build]
  have "\<exists>res b. exec harness (run_full_battery wire_lib (Ret (Inr ''anchor'')) (\<lambda>_. go_main ref_go)) [] = (Some res, b)"
    by (rule total_exec[OF conjunct1[OF t] ]) (rule harness_kinded)
  then obtain res b where
    x: "exec harness (run_full_battery wire_lib (Ret (Inr ''anchor'')) (\<lambda>_. go_main ref_go)) [] = (Some res, b)"
    by blast
  obtain tr where r: "runs (run_full_battery wire_lib (Ret (Inr ''anchor'')) (\<lambda>_. go_main ref_go)) tr res"
    "follows harness [] tr b"
    using exec_runs[OF x] by (elim exE conjE)
  from harness_honest[OF r(2)] have "bucket_log wire_lib (Some []) tr" "nonces_ok tr" "\<not> refused tr" by blast+
  with conjunct2[OF t] r(1) obtain n r' where r': "res = Inr r'" "is_conformant r' \<longleftrightarrow> tamper_rejected wire_lib n"
    "length (statuses r') = 9" by fastforce
  with x wire_tamper_rejected[of n] show ?thesis by simp
qed

text \<open>
  C40. A pass of the relocation check is evidence, whatever the anchor is: the anchor sealed the entry
  under one token, and both the Rust contract and the anchor were asked to open that very value under
  the other token and refused.
\<close>

theorem relocation_pass_is_evidence:
  assumes "runs (relocated_seal_fails L anchor) tr (Inr out)" "is_pass out"
  shows "\<exists>p sealed e e' t1 t2. encode_entry L human_entry = Inr p \<and> tr = t1 @ t2 \<and>
    runs (anchor_seal L anchor SEAL_KEY_BYTES TOKEN p) t1 (Inr sealed) \<and>
    open_sealed L (BearerSealKey SEAL_KEY_BYTES) OTHER_TOKEN sealed = Inl e \<and>
    runs (anchor_open L anchor SEAL_KEY_BYTES OTHER_TOKEN sealed) t2 (Inr (Inl e'))"
proof (cases "encode_entry L human_entry")
  case (Inr p)
  from assms(1)[unfolded relocated_seal_fails_def Let_def seal_key_ok try_value_simps Inr] show ?thesis
  proof (cases rule: runs_try_step)
    case (2 t1 t2 sealed)
    have lib: "isl (open_sealed L (BearerSealKey SEAL_KEY_BYTES) OTHER_TOKEN sealed)"
      using 2(3) assms(2) by (auto simp: is_pass_def split: if_splits)
    then obtain e where e: "open_sealed L (BearerSealKey SEAL_KEY_BYTES) OTHER_TOKEN sealed = Inl e"
      by (auto simp: isl_def)
    have left: "isl (Inl e :: auth_contract_error + bearer_entry) = True" by simp
    note opened = 2(3)[unfolded e left not_True_eq_False if_False]
    from opened show ?thesis
    proof (cases rule: runs_try_step)
      case inner: (2 t3 t4 res)
      then obtain e' where "t4 = []" "res = Inl e'" using assms(2) by (cases res) (auto simp: is_pass_def)
      then show ?thesis using Inr 2(1,2) e inner(1,2) by blast
    qed simp
  qed simp
qed (use assms(1) in \<open>simp add: relocated_seal_fails_def Let_def seal_key_ok\<close>)

lemma relocation_pass_is_evidence_witness:
  "\<exists>tr out t2 sealed e'. runs (relocated_seal_fails wire_lib (go_main ref_go)) tr (Inr out) \<and> is_pass out \<and>
     runs (anchor_open wire_lib (go_main ref_go) SEAL_KEY_BYTES OTHER_TOKEN sealed) t2 (Inr (Inl e'))"
proof -
  obtain tr res where r: "runs (relocated_seal_fails wire_lib (go_main ref_go)) tr res" "kinded tr"
    using total_runs[OF go.total_n2] by blast
  then obtain ex v where "res = Inr (outcome_pass RelocatedSealFails ex v)" using go.n2 kinded_nonces by blast
  with r(1) have p: "runs (relocated_seal_fails wire_lib (go_main ref_go)) tr (Inr (outcome_pass RelocatedSealFails ex v))"
    "is_pass (outcome_pass RelocatedSealFails ex v)" by (simp_all add: is_pass_def)
  from relocation_pass_is_evidence[OF p] p show ?thesis by blast
qed

text \<open>
  The key check passes exactly when the anchor's key is the contract's and the hash in it has the
  published shape, 64 lowercase hexadecimal digits.
\<close>

theorem key_check_exact:
  assumes "runs (anchor_kv_key L anchor TOKEN) tr (Inr (k, h))" "runs (kv_key_agrees L anchor) tr (Inr out)"
  shows "is_pass out \<longleftrightarrow> k = bearer_token_kv_key L TOKEN \<and> well_shaped_hash (core_bearer_token_key L TOKEN)"
proof -
  from assms(2)[unfolded kv_key_agrees_def] have "out = kv_key_outcome L k"
  proof (cases rule: runs_try_step)
    case (2 t1 t2 x)
    then have r: "runs (anchor_kv_key L anchor TOKEN) tr (Inr x)" "out = kv_key_outcome L (fst x)" by (cases x; simp)+
    from runs_unique[OF assms(1) r(1)] r(2) show ?thesis by auto
  qed simp
  then show ?thesis
    by (simp add: kv_key_outcome_def Let_def is_pass_def bearer_token_kv_key_def strip_prefix_def)
qed

lemma key_check_exact_witness:
  "\<exists>out. runs (kv_key_agrees wire_lib (go_main ref_go)) [] (Inr out) \<and> is_pass out"
proof -
  have k: "runs (anchor_kv_key wire_lib (go_main ref_go) TOKEN) []
      (Inr (bearer_token_kv_key wire_lib TOKEN, core_bearer_token_key wire_lib TOKEN))"
    by (simp add: go_key_runs[OF wire_lib_laws ref_go_agrees])
  then have "runs (kv_key_agrees wire_lib (go_main ref_go)) [] (Inr (kv_key_outcome wire_lib (bearer_token_kv_key wire_lib TOKEN)))"
    unfolding kv_key_agrees_def try_step_def by (intro runs_bindI[where ?t1.0 = "[]" and ?t2.0 = "[]", simplified]) auto
  with key_check_exact[OF k this] wire_lib_laws show ?thesis by (auto simp: wire_laws_def)
qed

end
