(* ===== verification/Unit_Tests.thy ===== *)
theory Unit_Tests
  imports Wire_Battery Config Cookies Jwt
begin

text \<open>
  The unit tests inside the source files, read as what they are: functions that end or panic. A test
  without effects is its assertion; one with effects is a program in which a failed assertion and an
  \<open>unwrap\<close> of an error panic. They are regression tests of the model: what the source's own tests
  expect of the code, the translated code does. Two tests are about other crates and are left out: the
  known vector of the hash, and that the cipher gives two sealings of a text different ciphertexts.
\<close>

definition assert_then :: "bool \<Rightarrow> unit prog" where
  "assert_then b = (if b then Ret () else Panic)"

definition unwrap :: "'e + 'a \<Rightarrow> ('a \<Rightarrow> 'b prog) \<Rightarrow> 'b prog" where
  "unwrap r f = (case r of Inl _ \<Rightarrow> Panic | Inr x \<Rightarrow> f x)"

definition str_contains :: "string \<Rightarrow> string \<Rightarrow> bool" where
  "str_contains s t = list_ex (prefix t) (suffixes s)"

section \<open>src/cookie.rs\<close>

definition insecure_config :: cookie_config where "insecure_config = cookie_config_new False 604800 900"

definition secure_config :: cookie_config where "secure_config = cookie_config_new True 604800 900"

definition insecure_access_cookie_name :: bool where
  "insecure_access_cookie_name \<longleftrightarrow> access_cookie_name insecure_config = ''access_token''"

definition secure_access_cookie_name :: bool where
  "secure_access_cookie_name \<longleftrightarrow> access_cookie_name secure_config = ''__Host-access_token''"

definition insecure_refresh_cookie_name :: bool where
  "insecure_refresh_cookie_name \<longleftrightarrow> refresh_cookie_name insecure_config = ''refresh_token''"

definition secure_refresh_cookie_name :: bool where
  "secure_refresh_cookie_name \<longleftrightarrow> refresh_cookie_name secure_config = ''__Host-refresh_token''"

definition build_access_cookie_insecure :: bool where
  "build_access_cookie_insecure \<longleftrightarrow> build_access_cookie ''jwt'' insecure_config =
     ''access_token=jwt; HttpOnly; SameSite=Strict; Path=/; Max-Age=900''"

definition build_access_cookie_secure :: bool where
  "build_access_cookie_secure \<longleftrightarrow> (let c = build_access_cookie ''jwt'' secure_config in
     prefix ''__Host-access_token=jwt;'' c \<and> str_contains c ''Secure'' \<and> str_contains c ''Max-Age=900'')"

definition build_refresh_cookie_insecure :: bool where
  "build_refresh_cookie_insecure \<longleftrightarrow> build_refresh_cookie ''tok'' insecure_config =
     ''refresh_token=tok; HttpOnly; SameSite=Strict; Path=/; Max-Age=604800''"

definition build_refresh_cookie_secure :: bool where
  "build_refresh_cookie_secure \<longleftrightarrow> (let c = build_refresh_cookie ''tok'' secure_config in
     prefix ''__Host-refresh_token=tok;'' c \<and> str_contains c ''Secure'')"

definition clear_access_cookie_has_zero_max_age :: bool where
  "clear_access_cookie_has_zero_max_age \<longleftrightarrow> (let c = build_clear_access_cookie insecure_config in
     str_contains c ''Max-Age=0'' \<and> prefix ''access_token=;'' c)"

definition clear_refresh_cookie_has_zero_max_age :: bool where
  "clear_refresh_cookie_has_zero_max_age \<longleftrightarrow> (let c = build_clear_refresh_cookie insecure_config in
     str_contains c ''Max-Age=0'' \<and> prefix ''refresh_token=;'' c)"

definition extract_access_cookie_from_headers :: "lib \<Rightarrow> bool" where
  "extract_access_cookie_from_headers L \<longleftrightarrow>
     extract_access_cookie L [COOKIE \<mapsto> ''access_token=jwt123''] insecure_config = Some ''jwt123''"

definition extract_refresh_cookie_from_headers :: "lib \<Rightarrow> bool" where
  "extract_refresh_cookie_from_headers L \<longleftrightarrow>
     extract_refresh_cookie L [COOKIE \<mapsto> ''refresh_token=rt123''] insecure_config = Some ''rt123''"

definition extract_access_cookie_missing_returns_none :: "lib \<Rightarrow> bool" where
  "extract_access_cookie_missing_returns_none L \<longleftrightarrow>
     extract_access_cookie L [COOKIE \<mapsto> ''refresh_token=rt''] insecure_config = None"

definition insecure_session_cookie_name :: "lib \<Rightarrow> bool" where
  "insecure_session_cookie_name L \<longleftrightarrow> session_cookie_name L insecure_config = ''session_id''"

definition secure_session_cookie_name :: "lib \<Rightarrow> bool" where
  "secure_session_cookie_name L \<longleftrightarrow> session_cookie_name L secure_config = ''__Host-session_id''"

definition build_session_cookie_insecure :: "lib \<Rightarrow> bool" where
  "build_session_cookie_insecure L \<longleftrightarrow> (let c = build_session_cookie L ''some-uuid'' insecure_config in
     c = ''session_id=some-uuid; HttpOnly; SameSite=Lax; Path=/'' \<and>
     \<not> str_contains c ''Max-Age'' \<and> \<not> str_contains c ''Secure'')"

definition build_session_cookie_secure :: "lib \<Rightarrow> bool" where
  "build_session_cookie_secure L \<longleftrightarrow> (let c = build_session_cookie L ''some-uuid'' secure_config in
     prefix ''__Host-session_id=some-uuid;'' c \<and> str_contains c ''Secure'' \<and>
     str_contains c ''SameSite=Lax'' \<and> \<not> str_contains c ''Max-Age'')"

definition extract_session_cookie_from_headers :: "lib \<Rightarrow> bool" where
  "extract_session_cookie_from_headers L \<longleftrightarrow>
     extract_session_cookie L [COOKIE \<mapsto> ''session_id=abc-123''] insecure_config = Some ''abc-123''"

definition extract_session_cookie_missing_returns_none :: "lib \<Rightarrow> bool" where
  "extract_session_cookie_missing_returns_none L \<longleftrightarrow>
     extract_session_cookie L [COOKIE \<mapsto> ''access_token=jwt''] insecure_config = None"

definition extract_from_multiple_cookies :: "lib \<Rightarrow> bool" where
  "extract_from_multiple_cookies L \<longleftrightarrow> (let h = [COOKIE \<mapsto> ''access_token=jwt; refresh_token=rt''] in
     extract_access_cookie L h insecure_config = Some ''jwt'' \<and>
     extract_refresh_cookie L h insecure_config = Some ''rt'')"

definition cookie_tests :: "lib \<Rightarrow> bool list" where
  "cookie_tests L =
     [insecure_access_cookie_name, secure_access_cookie_name, insecure_refresh_cookie_name,
      secure_refresh_cookie_name, build_access_cookie_insecure, build_access_cookie_secure,
      build_refresh_cookie_insecure, build_refresh_cookie_secure, clear_access_cookie_has_zero_max_age,
      clear_refresh_cookie_has_zero_max_age, extract_access_cookie_from_headers L,
      extract_refresh_cookie_from_headers L, extract_access_cookie_missing_returns_none L,
      insecure_session_cookie_name L, secure_session_cookie_name L, build_session_cookie_insecure L,
      build_session_cookie_secure L, extract_session_cookie_from_headers L,
      extract_session_cookie_missing_returns_none L, extract_from_multiple_cookies L]"

section \<open>src/config.rs\<close>

definition parse_bool_tests :: "bool list" where
  "parse_bool_tests =
     [parse_bool_value None True, \<not> parse_bool_value None False, parse_bool_value (Some ''true'') False,
      parse_bool_value (Some ''1'') False, \<not> parse_bool_value (Some ''false'') True,
      \<not> parse_bool_value (Some ''0'') True, \<not> parse_bool_value (Some []) True]"

definition environment_parses_all_known_values :: bool where
  "environment_parses_all_known_values \<longleftrightarrow>
     list_all (\<lambda>(raw, expected). environment_parse raw = Inr expected)
       [(''local'', Local), (''dev'', Dev), (''test'', Test), (''uat'', Uat), (''stg'', Staging), (''prod'', Prod)]"

definition environment_rejects_unknown_value :: bool where
  "environment_rejects_unknown_value \<longleftrightarrow> isl (environment_parse ''sandbox'') \<and> isl (environment_parse ''Prod'')"

section \<open>The contract crate: key.rs, entry.rs, destination.rs\<close>

definition from_bytes_accepts_exactly_32_bytes :: bool where
  "from_bytes_accepts_exactly_32_bytes \<longleftrightarrow> \<not> isl (seal_key_from_bytes (replicate 32 7))"

definition from_bytes_rejects_too_short :: bool where
  "from_bytes_rejects_too_short \<longleftrightarrow> seal_key_from_bytes (replicate 16 0) = Inl (InvalidKeyLength 16)"

definition from_bytes_rejects_too_long :: bool where
  "from_bytes_rejects_too_long \<longleftrightarrow> seal_key_from_bytes (replicate 48 0) = Inl (InvalidKeyLength 48)"

definition test_human_entry :: bearer_entry where
  "test_human_entry = \<lparr>be_actor = Human 0x42, be_token_id = 0x7\<rparr>"

definition test_service_entry :: bearer_entry where
  "test_service_entry = \<lparr>be_actor = Service 0x99, be_token_id = 0x1\<rparr>"

text \<open>\<open>to_string\<close>, then \<open>from_str\<close>.\<close>

definition serde_roundtrip :: "lib \<Rightarrow> ('a \<Rightarrow> json) \<Rightarrow> (json \<Rightarrow> string + 'a) \<Rightarrow> 'a \<Rightarrow> bool" where
  "serde_roundtrip L to_json of_json x =
     (case json_to_vec L (to_json x) of
        Inl _ \<Rightarrow> False
      | Inr text \<Rightarrow> (case json_from_slice L text of Inl _ \<Rightarrow> False | Inr j \<Rightarrow> of_json j = Inr x))"

definition human_entry_serde_roundtrip :: "lib \<Rightarrow> bool" where
  "human_entry_serde_roundtrip L \<longleftrightarrow>
     serde_roundtrip L (bearer_entry_to_json L) (bearer_entry_of_json L) test_human_entry"

definition service_entry_serde_roundtrip :: "lib \<Rightarrow> bool" where
  "service_entry_serde_roundtrip L \<longleftrightarrow>
     serde_roundtrip L (bearer_entry_to_json L) (bearer_entry_of_json L) test_service_entry"

definition entry_rejects_unknown_field :: "lib \<Rightarrow> bool" where
  "entry_rejects_unknown_field L \<longleftrightarrow> isl (bearer_entry_of_json L (JObj
     [(''actor'', JObj [(''kind'', JStr ''human''), (''id'', JStr (uuid_to_string L 0))]),
      (''token_id'', JStr (uuid_to_string L 0)), (''evil'', JBool True)]))"

definition kv_key_starts_with_the_prefix :: "lib \<Rightarrow> bool" where
  "kv_key_starts_with_the_prefix L \<longleftrightarrow> prefix BEARER_TOKENS_KEY_PREFIX (bearer_token_kv_key L ''any-token'')"

definition kv_key_reuses_core_auth_hash :: "lib \<Rightarrow> bool" where
  "kv_key_reuses_core_auth_hash L \<longleftrightarrow> bearer_token_kv_key L ''bearer-secret-1'' =
     BEARER_TOKENS_KEY_PREFIX @ core_bearer_token_key L ''bearer-secret-1''"

definition contract_tests :: "lib \<Rightarrow> bool list" where
  "contract_tests L =
     [from_bytes_accepts_exactly_32_bytes, from_bytes_rejects_too_short, from_bytes_rejects_too_long,
      human_entry_serde_roundtrip L, service_entry_serde_roundtrip L, entry_rejects_unknown_field L,
      kv_key_starts_with_the_prefix L, kv_key_reuses_core_auth_hash L]"

section \<open>The contract crate: seal.rs\<close>

definition key_of :: "8 word \<Rightarrow> (bearer_seal_key \<Rightarrow> unit prog) \<Rightarrow> unit prog" where
  "key_of b f = unwrap (seal_key_from_bytes (replicate 32 b)) f"

abbreviation TOKEN_A :: string where "TOKEN_A \<equiv> ''bearer-token-a''"
abbreviation TOKEN_B :: string where "TOKEN_B \<equiv> ''bearer-token-b''"

definition expect_aead_failed :: "auth_contract_error + bearer_entry \<Rightarrow> unit prog" where
  "expect_aead_failed r = (case r of Inl AeadFailed \<Rightarrow> Ret () | _ \<Rightarrow> Panic)"

definition seal_then_open_roundtrips_a_human_entry :: "lib \<Rightarrow> unit prog" where
  "seal_then_open_roundtrips_a_human_entry L =
     key_of 1 (\<lambda>key. bind (seal L key TOKEN_A test_human_entry) (\<lambda>r. unwrap r (\<lambda>sealed.
       unwrap (open_sealed L key TOKEN_A sealed) (\<lambda>opened. assert_then (opened = test_human_entry)))))"

definition seal_then_open_roundtrips_a_service_entry :: "lib \<Rightarrow> unit prog" where
  "seal_then_open_roundtrips_a_service_entry L =
     key_of 2 (\<lambda>key. bind (seal L key TOKEN_A test_service_entry) (\<lambda>r. unwrap r (\<lambda>sealed.
       unwrap (open_sealed L key TOKEN_A sealed) (\<lambda>opened. assert_then (opened = test_service_entry)))))"

definition open_with_a_different_key_fails :: "lib \<Rightarrow> unit prog" where
  "open_with_a_different_key_fails L =
     key_of 3 (\<lambda>key. bind (seal L key TOKEN_A test_human_entry) (\<lambda>r. unwrap r (\<lambda>sealed.
       key_of 4 (\<lambda>other. expect_aead_failed (open_sealed L other TOKEN_A sealed)))))"

definition open_of_tampered_ciphertext_fails :: "lib \<Rightarrow> unit prog" where
  "open_of_tampered_ciphertext_fails L =
     key_of 5 (\<lambda>key. bind (seal L key TOKEN_A test_human_entry) (\<lambda>r. unwrap r (\<lambda>sealed.
       case b64_decode L (sb_ciphertext sealed) of None \<Rightarrow> Panic | Some raw \<Rightarrow>
       (case flip_first raw of None \<Rightarrow> Panic | Some raw \<Rightarrow>
          expect_aead_failed (open_sealed L key TOKEN_A
            \<lparr>sb_nonce = sb_nonce sealed, sb_ciphertext = b64_encode L raw\<rparr>)))))"

definition open_under_a_different_token_fails :: "lib \<Rightarrow> unit prog" where
  "open_under_a_different_token_fails L =
     key_of 8 (\<lambda>key. bind (seal L key TOKEN_A test_human_entry) (\<lambda>r. unwrap r (\<lambda>sealed.
       expect_aead_failed (open_sealed L key TOKEN_B sealed))))"

definition sealed_bearer_serde_json_roundtrips :: "lib \<Rightarrow> unit prog" where
  "sealed_bearer_serde_json_roundtrips L =
     key_of 6 (\<lambda>key. bind (seal L key TOKEN_A test_human_entry) (\<lambda>r. unwrap r (\<lambda>sealed.
       assert_then (serde_roundtrip L sealed_to_json (sealed_of_json L) sealed))))"

section \<open>The publisher crate\<close>

abbreviation PUB_TOKEN :: string where "PUB_TOKEN \<equiv> ''bearer-token-under-test''"
abbreviation PUB_OTHER_TOKEN :: string where "PUB_OTHER_TOKEN \<equiv> ''a-different-bearer-token''"

definition put_bearer_seals_a_human_entry :: "lib \<Rightarrow> unit prog" where
  "put_bearer_seals_a_human_entry L =
     key_of 7 (\<lambda>key. bind (seal L key PUB_TOKEN test_human_entry) (\<lambda>r. unwrap r (\<lambda>sealed.
       unwrap (bearer_kv_key L PUB_TOKEN) (\<lambda>kv_key.
       if key_str kv_key \<noteq> bearer_token_kv_key L PUB_TOKEN then Panic else
       unwrap (open_sealed L key PUB_TOKEN sealed) (\<lambda>opened. assert_then (opened = test_human_entry))))))"

definition put_bearer_seals_a_service_entry :: "lib \<Rightarrow> unit prog" where
  "put_bearer_seals_a_service_entry L =
     key_of 7 (\<lambda>key. bind (seal L key PUB_TOKEN test_service_entry) (\<lambda>r. unwrap r (\<lambda>sealed.
       unwrap (bearer_kv_key L PUB_TOKEN) (\<lambda>kv_key.
       if key_str kv_key \<noteq> bearer_token_kv_key L PUB_TOKEN then Panic else
       unwrap (open_sealed L key PUB_TOKEN sealed) (\<lambda>opened. assert_then (opened = test_service_entry))))))"

definition a_bearer_sealed_for_one_token_does_not_open_as_another :: "lib \<Rightarrow> unit prog" where
  "a_bearer_sealed_for_one_token_does_not_open_as_another L =
     key_of 7 (\<lambda>key. bind (seal L key PUB_TOKEN test_human_entry) (\<lambda>r. unwrap r (\<lambda>sealed.
       if \<not> isl (open_sealed L key PUB_OTHER_TOKEN sealed) then Panic else
       unwrap (bearer_kv_key L PUB_TOKEN) (\<lambda>key_a.
       unwrap (bearer_kv_key L PUB_OTHER_TOKEN) (\<lambda>key_b.
       assert_then (key_str key_a = bearer_token_kv_key L PUB_TOKEN \<and> key_str key_a \<noteq> key_str key_b))))))"

definition the_kv_key_lives_under_the_contract_bearer_prefix :: "lib \<Rightarrow> unit prog" where
  "the_kv_key_lives_under_the_contract_bearer_prefix L =
     unwrap (bearer_kv_key L PUB_TOKEN) (\<lambda>kv_key. assert_then (prefix BEARER_TOKENS_KEY_PREFIX (key_str kv_key)))"

definition bearer_tests :: "lib \<Rightarrow> unit prog list" where
  "bearer_tests L =
     [seal_then_open_roundtrips_a_human_entry L, seal_then_open_roundtrips_a_service_entry L,
      open_with_a_different_key_fails L, open_of_tampered_ciphertext_fails L,
      open_under_a_different_token_fails L, sealed_bearer_serde_json_roundtrips L,
      put_bearer_seals_a_human_entry L, put_bearer_seals_a_service_entry L,
      a_bearer_sealed_for_one_token_does_not_open_as_another L,
      the_kv_key_lives_under_the_contract_bearer_prefix L]"

section \<open>src/jwt.rs\<close>

definition test_service :: jwt_service where
  "test_service = jwt_service_new ''test-secret-key-at-least-32-chars!'' ''test-issuer'' 900 604800"

definition sign_and_verify_access_token :: "lib \<Rightarrow> unit prog" where
  "sign_and_verify_access_token L =
     bind (sign_access_token L test_service ''alice@example.com'') (\<lambda>r. unwrap r (\<lambda>token.
     bind (verify_access_token L test_service token) (\<lambda>v. unwrap v (\<lambda>claims.
       assert_then (ac_sub claims = ''alice@example.com'' \<and> ac_iss claims = ''test-issuer'')))))"

definition verify_access_token_wrong_secret_fails :: "lib \<Rightarrow> unit prog" where
  "verify_access_token_wrong_secret_fails L =
     bind (sign_access_token L test_service ''alice@example.com'') (\<lambda>r. unwrap r (\<lambda>token.
     (let other = jwt_service_new ''other-secret-key-at-least-32-chars!'' ''test-issuer'' 900 604800 in
      bind (verify_access_token L other token) (\<lambda>v. assert_then (isl v)))))"

definition sign_and_verify_refresh_token :: "lib \<Rightarrow> unit prog" where
  "sign_and_verify_refresh_token L =
     bind (sign_refresh_token L test_service ''alice@example.com'') (\<lambda>r. unwrap r (\<lambda>(token, token_id).
     bind (verify_refresh_token L test_service token) (\<lambda>v. unwrap v (\<lambda>claims.
       assert_then (rc_sub claims = ''alice@example.com'' \<and> rc_jti claims = uuid_to_string L token_id)))))"

definition verify_malformed_token_fails :: "lib \<Rightarrow> unit prog" where
  "verify_malformed_token_fails L =
     bind (verify_access_token L test_service ''not-a-jwt'') (\<lambda>v. assert_then (isl v))"

definition expired_access_token_returns_expired_error :: "lib \<Rightarrow> unit prog" where
  "expired_access_token_returns_expired_error L = utc_now (\<lambda>t.
     let now = timestamp t;
         claims = \<lparr>ac_sub = ''alice@example.com'', ac_iss = ''test-issuer'', ac_iat = now - 300, ac_exp = now - 120\<rparr>
     in unwrap (jwt_encode L (as_bytes ''test-secret-key-at-least-32-chars!'') (access_claims_to_json claims)) (\<lambda>token.
        bind (verify_access_token L test_service token) (\<lambda>v.
          case v of Inl Expired \<Rightarrow> Ret () | _ \<Rightarrow> Panic)))"

section \<open>What the tests rely on\<close>

text \<open>Of the session cookie, which another crate names and reads: its names, and that reading it is like the others.\<close>

definition session_ok :: "lib \<Rightarrow> bool" where
  "session_ok L \<longleftrightarrow> (\<forall>secure h.
     core_session_cookie_name L secure = (if secure then ''__Host-session_id'' else ''session_id'') \<and>
     core_extract_session_id L h secure =
       find_map (\<lambda>c. strip_prefix (core_session_cookie_name L secure @ ''='') (trim c)) (split_on CHR '';'' h))"

text \<open>
  Of the cipher and of the signatures the tests observe single values: that a sealing under one test key is
  refused under the other, that the sealing is refused with its first byte flipped, that a token signed with
  one test secret is refused with the other. No library promises that for all keys, so it is asked for
  these keys only; it is what those tests find out, and they say nothing beyond it.
\<close>

definition other_key_refused :: "lib \<Rightarrow> bool" where
  "other_key_refused L \<longleftrightarrow> (\<forall>n p c. json_to_vec L (bearer_entry_to_json L test_human_entry) = Inr p \<and>
     aead_encrypt L (replicate 32 3) n (as_bytes (core_bearer_token_key L TOKEN_A)) p = Some c \<longrightarrow>
     aead_decrypt L (replicate 32 4) n (as_bytes (core_bearer_token_key L TOKEN_A)) c = None)"

definition flipped_refused :: "lib \<Rightarrow> bool" where
  "flipped_refused L \<longleftrightarrow> (\<forall>n p c. json_to_vec L (bearer_entry_to_json L test_human_entry) = Inr p \<and>
     aead_encrypt L (replicate 32 5) n (as_bytes (core_bearer_token_key L TOKEN_A)) p = Some c \<longrightarrow>
     (\<exists>c'. flip_first c = Some c' \<and> aead_decrypt L (replicate 32 5) n (as_bytes (core_bearer_token_key L TOKEN_A)) c' = None))"

definition other_secret_refused :: "lib \<Rightarrow> bool" where
  "other_secret_refused L \<longleftrightarrow> (\<forall>j j' t v acc now.
     jwt_encode L (as_bytes ''test-secret-key-at-least-32-chars!'') j = Inr t \<longrightarrow>
     jwt_decode L (as_bytes ''other-secret-key-at-least-32-chars!'') v acc now t \<noteq> Inr j')"

definition bearer_test_laws :: "lib \<Rightarrow> bool" where
  "bearer_test_laws L \<longleftrightarrow> wire_laws L \<and> other_key_refused L \<and> flipped_refused L \<and>
     (\<forall>t. kv_key_new L (bearer_token_kv_key L t) = Inr (KvKey (bearer_token_kv_key L t))) \<and>
     core_bearer_token_key L TOKEN_B \<noteq> core_bearer_token_key L TOKEN_A \<and>
     core_bearer_token_key L PUB_OTHER_TOKEN \<noteq> core_bearer_token_key L PUB_TOKEN"

text \<open>The claims of the two kinds can be written, and a token that verifies has three parts.\<close>

definition jwt_test_laws :: "lib \<Rightarrow> bool" where
  "jwt_test_laws L \<longleftrightarrow> jwt_ok L \<and> other_secret_refused L \<and>
     (\<forall>key c. \<exists>t. jwt_encode L key (access_claims_to_json c) = Inr t) \<and>
     (\<forall>key c. \<exists>t. jwt_encode L key (refresh_claims_to_json c) = Inr t) \<and>
     (\<forall>key v acc now t j. jwt_decode L key v acc now t = Inr j \<longrightarrow> length (filter (\<lambda>c. c = CHR ''.'') t) = 2)"

text \<open>Two readings of a clock that goes forward, less than a lifetime apart, and long after the epoch.\<close>

definition sane_clock :: "datetime \<Rightarrow> datetime \<Rightarrow> bool" where
  "sane_clock t t' \<longleftrightarrow> 120 \<le> sint (timestamp t) \<and> sint (timestamp t) \<le> sint (timestamp t') \<and>
     sint (timestamp t') \<le> sint (timestamp t) + 900 \<and> sint (timestamp t) + 604800 < 2 ^ 63"

section \<open>They pass\<close>

lemma cookie_tests_pass:
  assumes "http_ok L" "session_ok L"
  shows "list_all (\<lambda>b. b) (cookie_tests L)"
proof -
  have ex: "extract_cookie L [COOKIE \<mapsto> s] n =
      find_map (\<lambda>c. strip_prefix (n @ ''='') (trim c)) (split_on CHR '';'' s)" if "list_all ascii_visible s" for s n
    using assms(1) that by (simp add: extract_cookie_def http_ok_def Let_def)
  have names: "session_cookie_name L insecure_config = ''session_id''" "session_cookie_name L secure_config = ''__Host-session_id''"
    using assms(2) by (simp_all add: session_ok_def session_cookie_name_def insecure_config_def secure_config_def cookie_config_new_def)
  have se: "extract_session_cookie L [COOKIE \<mapsto> s] insecure_config =
      find_map (\<lambda>c. strip_prefix (''session_id='') (trim c)) (split_on CHR '';'' s)" if "list_all ascii_visible s" for s
    using assms that by (simp add: extract_session_cookie_def http_ok_def session_ok_def insecure_config_def cookie_config_new_def)
  have vis: "list_all ascii_visible ''access_token=jwt123''" "list_all ascii_visible ''refresh_token=rt123''"
    "list_all ascii_visible ''refresh_token=rt''" "list_all ascii_visible ''session_id=abc-123''"
    "list_all ascii_visible ''access_token=jwt''" "list_all ascii_visible ''access_token=jwt; refresh_token=rt''"
    by code_simp+
  have digits: "digit_char 0 = CHR ''0''" "digit_char 4 = CHR ''4''" "digit_char 6 = CHR ''6''"
    "digit_char 8 = CHR ''8''" "digit_char 9 = CHR ''9''"
    by code_simp+
  have secs: "show_nat 900 = ''900''" "show_nat 604800 = ''604800''" "show_nat 0 = ''0''"
    by (simp_all add: show_nat.simps digits)
  have built: "build_access_cookie ''jwt'' insecure_config = ''access_token=jwt; HttpOnly; SameSite=Strict; Path=/; Max-Age=900''"
    "build_access_cookie ''jwt'' secure_config = ''__Host-access_token=jwt; HttpOnly; Secure; SameSite=Strict; Path=/; Max-Age=900''"
    "build_refresh_cookie ''tok'' insecure_config = ''refresh_token=tok; HttpOnly; SameSite=Strict; Path=/; Max-Age=604800''"
    "build_refresh_cookie ''tok'' secure_config = ''__Host-refresh_token=tok; HttpOnly; Secure; SameSite=Strict; Path=/; Max-Age=604800''"
    "build_clear_access_cookie insecure_config = ''access_token=; HttpOnly; SameSite=Strict; Path=/; Max-Age=0''"
    "build_clear_refresh_cookie insecure_config = ''refresh_token=; HttpOnly; SameSite=Strict; Path=/; Max-Age=0''"
    by (simp_all add: build_access_cookie_def build_refresh_cookie_def build_clear_access_cookie_def
        build_clear_refresh_cookie_def build_cookie_def access_cookie_name_def refresh_cookie_name_def
        insecure_config_def secure_config_def cookie_config_new_def secs)
  have pure: "insecure_access_cookie_name" "secure_access_cookie_name" "insecure_refresh_cookie_name"
      "secure_refresh_cookie_name"
    by code_simp+
  have build: "build_access_cookie_insecure" "build_access_cookie_secure"
      "build_refresh_cookie_insecure" "build_refresh_cookie_secure" "clear_access_cookie_has_zero_max_age"
      "clear_refresh_cookie_has_zero_max_age"
    unfolding build_access_cookie_insecure_def build_access_cookie_secure_def build_refresh_cookie_insecure_def
      build_refresh_cookie_secure_def clear_access_cookie_has_zero_max_age_def clear_refresh_cookie_has_zero_max_age_def
      built Let_def
    by code_simp+
  have n: "access_cookie_name insecure_config = ''access_token''" "refresh_cookie_name insecure_config = ''refresh_token''"
    by code_simp+
  have extracted: "extract_access_cookie_from_headers L" "extract_refresh_cookie_from_headers L"
    "extract_access_cookie_missing_returns_none L" "extract_session_cookie_from_headers L"
    "extract_session_cookie_missing_returns_none L" "extract_from_multiple_cookies L"
    unfolding extract_access_cookie_from_headers_def extract_refresh_cookie_from_headers_def
      extract_access_cookie_missing_returns_none_def extract_session_cookie_from_headers_def
      extract_session_cookie_missing_returns_none_def extract_from_multiple_cookies_def Let_def
      extract_access_cookie_def extract_refresh_cookie_def n ex[OF vis(1)] ex[OF vis(2)] ex[OF vis(3)] ex[OF vis(6)]
      se[OF vis(4)] se[OF vis(5)]
    by code_simp+
  have sc: "cc_secure insecure_config = False" "cc_secure secure_config = True" by code_simp+
  have session: "insecure_session_cookie_name L" "secure_session_cookie_name L" "build_session_cookie_insecure L"
    "build_session_cookie_secure L"
    unfolding insecure_session_cookie_name_def secure_session_cookie_name_def build_session_cookie_insecure_def
      build_session_cookie_secure_def build_session_cookie_def Let_def names sc if_True if_False
    by code_simp+
  show ?thesis unfolding cookie_tests_def by (simp add: pure build extracted session)
qed

lemma config_tests_pass:
  "list_all (\<lambda>b. b) (parse_bool_tests @ [environment_parses_all_known_values, environment_rejects_unknown_value])"
  by code_simp

lemma serde_roundtrip_ok:
  assumes "wire_laws L" "\<And>x. of_json (to_json x) = Inr x"
  shows "serde_roundtrip L to_json of_json x"
proof -
  from assms(1) obtain b where b: "json_to_vec L (to_json x) = Inr b" unfolding wire_laws_def by blast
  moreover from this have "json_from_slice L b = Inr (to_json x)"
    using assms(1) unfolding wire_laws_def bearer_laws_def json_text_ok_def by blast
  ultimately show ?thesis by (simp add: serde_roundtrip_def assms(2))
qed

lemma contract_tests_pass:
  assumes "wire_laws L"
  shows "list_all (\<lambda>b. b) (contract_tests L)"
proof -
  have "bearer_entry_of_json L (bearer_entry_to_json L e) = Inr e" for e
    using assms by (intro bearer_entry_roundtrip) (simp_all add: wire_laws_def bearer_laws_def)
  then have "human_entry_serde_roundtrip L" "service_entry_serde_roundtrip L"
    unfolding human_entry_serde_roundtrip_def service_entry_serde_roundtrip_def
    by (simp_all add: serde_roundtrip_ok[OF assms])
  moreover have "entry_rejects_unknown_field L"
    by (simp add: entry_rejects_unknown_field_def bearer_entry_of_json_def closed_struct_def)
  moreover have "from_bytes_accepts_exactly_32_bytes" "from_bytes_rejects_too_short" "from_bytes_rejects_too_long"
    by code_simp+
  ultimately show ?thesis
    by (simp add: contract_tests_def kv_key_starts_with_the_prefix_def kv_key_reuses_core_auth_hash_def bearer_token_kv_key_def)
qed

lemma total_seal:
  assumes "wire_laws L" "length (seal_key_bytes key) = 32"
    "\<And>n c p. length n = NONCE_LEN \<Longrightarrow> json_to_vec L (bearer_entry_to_json L e) = Inr p \<Longrightarrow>
      aead_encrypt L (seal_key_bytes key) n (as_bytes (core_bearer_token_key L t)) p = Some c \<Longrightarrow>
      total (f (Inr \<lparr>sb_nonce = b64_encode L n, sb_ciphertext = b64_encode L c\<rparr>))"
  shows "total (bind (seal L key t e) f)"
proof (rule total_bind_kinded)
  show "total (seal L key t e)" by (simp add: seal_def Let_def)
  fix tr x assume r: "runs (seal L key t e) tr x" "kinded tr"
  from assms(1) obtain p where p: "json_to_vec L (bearer_entry_to_json L e) = Inr p" unfolding wire_laws_def by blast
  from r obtain n where n: "tr = [(GenNonce, RNonce n)]" "x = (case aead_encrypt L (seal_key_bytes key) n (as_bytes (core_bearer_token_key L t)) p of
      None \<Rightarrow> Inl AeadFailed | Some c \<Rightarrow> Inr \<lparr>sb_nonce = b64_encode L n, sb_ciphertext = b64_encode L c\<rparr>)"
    by (auto simp: seal_def Let_def p runs_simps)
  with r(2) have len: "length n = NONCE_LEN" by (simp add: NONCE_LEN_def)
  with assms(1,2) obtain c where c: "aead_encrypt L (seal_key_bytes key) n (as_bytes (core_bearer_token_key L t)) p = Some c"
    unfolding wire_laws_def by blast
  from assms(3)[OF len p c] show "total (f x)" by (simp add: n(2) c)
qed

lemma key_of_ok [simp]: "key_of b f = f (BearerSealKey (replicate 32 b))"
  by (simp add: key_of_def unwrap_def seal_key_from_bytes_def BEARER_SEAL_KEY_LEN_def)

lemma unwrap_simps [simp]: "unwrap (Inr x) f = f x" "unwrap (Inl e) f = Panic"
  by (simp_all add: unwrap_def)

lemma assert_simps [simp]: "assert_then True = Ret ()" "total (assert_then b) \<longleftrightarrow> b"
  by (simp_all add: assert_then_def)

lemma not_opened:
  assumes "b64_ok L" "length n = NONCE_LEN"
    "aead_decrypt L (seal_key_bytes key) n (as_bytes (core_bearer_token_key L t)) c = None"
  shows "open_sealed L key t \<lparr>sb_nonce = b64_encode L n, sb_ciphertext = b64_encode L c\<rparr> = Inl AeadFailed"
  using assms by (simp add: open_sealed_def b64_ok_def Let_def)

lemma bearer_tests_pass:
  assumes "bearer_test_laws L"
  shows "list_all total (bearer_tests L)"
proof -
  note laws = assms[unfolded bearer_test_laws_def]
  have wire: "wire_laws L" and bearer: "bearer_laws L" and b64: "b64_ok L" and binds: "aead_binds L"
    and refused: "other_key_refused L" "flipped_refused L"
    using laws by (simp_all add: wire_laws_def bearer_laws_def)
  note rest = laws[THEN conjunct2, THEN conjunct2, THEN conjunct2, THEN conjunct2]
  note ne = conjunct2[OF rest] not_sym[OF conjunct2[OF rest] ]
  have k: "bearer_kv_key L t = Inr (KvKey (bearer_token_kv_key L t))" for t using laws by (simp add: bearer_kv_key_def)
  have len: "length (seal_key_bytes (BearerSealKey (replicate 32 b))) = 32" for b by simp
  note sealed = total_seal[OF wire len]
  have opened: "total (bind (seal L (BearerSealKey (replicate 32 b)) t e) (\<lambda>r. unwrap r (\<lambda>sealed.
      unwrap (open_sealed L (BearerSealKey (replicate 32 b)) t sealed) (\<lambda>opened. assert_then (opened = e)))))" for b t e
    by (rule sealed) (simp add: encrypted_opens[OF bearer])
  have other_key: "total (open_with_a_different_key_fails L)"
    unfolding open_with_a_different_key_fails_def key_of_ok
  proof (rule sealed)
    fix n c p assume "length n = NONCE_LEN" and p: "json_to_vec L (bearer_entry_to_json L test_human_entry) = Inr p"
      and c: "aead_encrypt L (seal_key_bytes (BearerSealKey (replicate 32 3))) n
        (as_bytes (core_bearer_token_key L TOKEN_A)) p = Some c"
    have "aead_decrypt L (seal_key_bytes (BearerSealKey (replicate 32 4))) n (as_bytes (core_bearer_token_key L TOKEN_A)) c = None"
      using refused(1) p c unfolding other_key_refused_def by simp
    from not_opened[OF b64 \<open>length n = NONCE_LEN\<close> this]
    show "total (unwrap (Inr \<lparr>sb_nonce = b64_encode L n, sb_ciphertext = b64_encode L c\<rparr>)
        (\<lambda>sealed. expect_aead_failed (open_sealed L (BearerSealKey (replicate 32 4)) TOKEN_A sealed)))"
      by (simp add: expect_aead_failed_def)
  qed
  have tampered: "total (open_of_tampered_ciphertext_fails L)"
    unfolding open_of_tampered_ciphertext_fails_def key_of_ok
  proof (rule sealed, goal_cases)
    case (1 n c p)
    then obtain c' where "flip_first c = Some c'" "aead_decrypt L (seal_key_bytes (BearerSealKey (replicate 32 5))) n
        (as_bytes (core_bearer_token_key L TOKEN_A)) c' = None"
      using refused(2) unfolding flipped_refused_def by auto
    with not_opened[OF b64 1(1) this(2)] b64 show ?case by (simp add: expect_aead_failed_def b64_ok_def)
  qed
  have elsewhere: "aead_decrypt L k n (as_bytes (core_bearer_token_key L t')) c = None"
    if "aead_encrypt L k n (as_bytes (core_bearer_token_key L t)) p = Some c"
      "core_bearer_token_key L t' \<noteq> core_bearer_token_key L t" for k n t t' p c
    using binds that unfolding aead_binds_def as_bytes_inj[symmetric, of "core_bearer_token_key L t'"] by fastforce
  have other_token: "total (open_under_a_different_token_fails L)"
    unfolding open_under_a_different_token_fails_def key_of_ok
    by (rule sealed) (use laws in \<open>simp add: not_opened[OF b64] elsewhere expect_aead_failed_def\<close>)
  have serde: "total (sealed_bearer_serde_json_roundtrips L)"
    unfolding sealed_bearer_serde_json_roundtrips_def key_of_ok
    by (rule sealed) (simp add: serde_roundtrip_ok[OF wire])
  have put: "total (bind (seal L (BearerSealKey (replicate 32 b)) t e) (\<lambda>r. unwrap r (\<lambda>sealed.
      unwrap (bearer_kv_key L t) (\<lambda>kv_key. if key_str kv_key \<noteq> bearer_token_kv_key L t then Panic else
      unwrap (open_sealed L (BearerSealKey (replicate 32 b)) t sealed) (\<lambda>opened. assert_then (opened = e))))))" for b t e
    by (rule sealed) (simp add: encrypted_opens[OF bearer] k)
  have apart: "total (a_bearer_sealed_for_one_token_does_not_open_as_another L)"
    unfolding a_bearer_sealed_for_one_token_does_not_open_as_another_def key_of_ok
    by (rule sealed) (use ne in \<open>simp add: not_opened[OF b64] elsewhere k bearer_token_kv_key_def\<close>)
  have under: "total (the_kv_key_lives_under_the_contract_bearer_prefix L)"
    by (simp add: the_kv_key_lives_under_the_contract_bearer_prefix_def k bearer_token_kv_key_def)
  show ?thesis
    unfolding bearer_tests_def seal_then_open_roundtrips_a_human_entry_def seal_then_open_roundtrips_a_service_entry_def
      put_bearer_seals_a_human_entry_def put_bearer_seals_a_service_entry_def key_of_ok
    by (simp only: list.pred_inject simp_thms opened other_key tampered other_token serde put apart under)
qed

text \<open>The JWT tests read the clock twice.\<close>

lemma sane_clockD:
  assumes "sane_clock t t'"
  shows "fits t 900" "fits t 604800" "0 \<le> sint (timestamp t')" "sint (timestamp t') \<le> sint (timestamp t) + 905"
    "sint (timestamp t') \<le> sint (timestamp t) + 604805"
  using assms by (auto simp: sane_clock_def fits_def)

lemma sint_back: "120 \<le> sint (x :: i64) \<Longrightarrow> sint (x - 120) = sint x - 120"
proof -
  assume "120 \<le> sint x"
  moreover have "sint x < 2 ^ 63" using sint_range_size[of x] by (simp add: word_size)
  ultimately have "signed_take_bit 63 (sint x - 120) = sint x - 120"
    by (intro signed_take_bit_int_eq_self) simp_all
  then show ?thesis by (simp add: sint_word_ariths)
qed

lemma test_service_fields:
  "js_encoding_key test_service = as_bytes ''test-secret-key-at-least-32-chars!''"
  "js_decoding_key test_service = as_bytes ''test-secret-key-at-least-32-chars!''"
  "js_issuer test_service = ''test-issuer''" "js_access_ttl_secs test_service = 900" "js_refresh_ttl_secs test_service = 604800"
  by (simp_all add: test_service_def jwt_service_new_def)

lemma jwt_tests_pass:
  assumes "jwt_test_laws L" "sane_clock t t'"
  shows "runs (sign_and_verify_access_token L) [(UtcNow, RUtc t), (UtcNow, RUtc t')] ()"
    "runs (verify_access_token_wrong_secret_fails L) [(UtcNow, RUtc t), (UtcNow, RUtc t')] ()"
    "runs (sign_and_verify_refresh_token L) [(NowV7, RUuid u), (UtcNow, RUtc t), (UtcNow, RUtc t')] ()"
    "runs (verify_malformed_token_fails L) [(UtcNow, RUtc t')] ()"
    "runs (expired_access_token_returns_expired_error L) [(UtcNow, RUtc t), (UtcNow, RUtc t')] ()"
proof -
  note laws = assms(1)[unfolded jwt_test_laws_def]
  note ok = conjunct1[OF laws]
  note clock = sane_clockD[OF assms(2)]
  have keys: "js_encoding_key test_service = js_decoding_key test_service" by (simp add: test_service_fields)
  obtain a where a: "runs (sign_access_token L test_service ''alice@example.com'') [(UtcNow, RUtc t)] (Inr a)"
    unfolding runs_sign_access using laws by blast
  obtain r where r: "runs (sign_refresh_token L test_service ''alice@example.com'') [(NowV7, RUuid u), (UtcNow, RUtc t)] (Inr (r, u))"
    unfolding runs_sign_refresh_iff using laws by blast
  have fits: "fits t (js_access_ttl_secs test_service)" "fits t (js_refresh_ttl_secs test_service)"
    using clock(1,2) by (simp_all add: test_service_fields)
  have va: "runs (verify_access_token L test_service a) [(UtcNow, RUtc t')]
      (Inr \<lparr>ac_sub = ''alice@example.com'', ac_iss = ''test-issuer'', ac_iat = timestamp t, ac_exp = timestamp t + 900\<rparr>)"
    using access_verified[OF ok keys a fits(1) clock(3)] clock(4) by (simp add: test_service_fields)
  have signed: "runs (bind (sign_access_token L test_service ''alice@example.com'') f) ((UtcNow, RUtc t) # tr) y"
    if "runs (f (Inr a)) tr y" for f tr and y :: unit using runs_bindI[where f = f, OF a that] by simp
  have verified: "runs (bind (verify_access_token L svc x) f) [(UtcNow, RUtc t')] y"
    if "runs (verify_access_token L svc x) [(UtcNow, RUtc t')] v" "runs (f v) [] y" for svc x f v and y :: unit
    using runs_bindI[where f = f, OF that] by simp
  show "runs (sign_and_verify_access_token L) [(UtcNow, RUtc t), (UtcNow, RUtc t')] ()"
    unfolding sign_and_verify_access_token_def
    by (rule signed, unfold unwrap_simps, rule verified[OF va]) simp
  have refused: "\<exists>e. runs (verify_access_token L svc x) [(UtcNow, RUtc t')] (Inl e)"
    if "\<And>v acc now j. jwt_decode L (js_decoding_key svc) v acc now x \<noteq> Inr j" for svc x
    using that by (auto simp: verify_access_token_def runs_calls split: sum.split)
  have "jwt_decode L (js_decoding_key (jwt_service_new ''other-secret-key-at-least-32-chars!'' ''test-issuer'' 900 604800)) v acc now a \<noteq> Inr j"
    for v acc now j
    using laws a unfolding runs_sign_access other_secret_refused_def test_service_fields by (auto simp: jwt_service_new_def)
  from refused[OF this] obtain e where other:
    "runs (verify_access_token L (jwt_service_new ''other-secret-key-at-least-32-chars!'' ''test-issuer'' 900 604800) a) [(UtcNow, RUtc t')] (Inl e)"
    by blast
  show "runs (verify_access_token_wrong_secret_fails L) [(UtcNow, RUtc t), (UtcNow, RUtc t')] ()"
    unfolding verify_access_token_wrong_secret_fails_def
    by (rule signed, unfold unwrap_simps Let_def, rule verified[OF other]) simp
  have "length (filter (\<lambda>c. c = CHR ''.'') ''not-a-jwt'') \<noteq> 2" by simp
  then have "jwt_decode L key v acc now ''not-a-jwt'' \<noteq> Inr j" for key v acc now j using laws by blast
  from refused[OF this, of test_service] obtain e' where
    "runs (verify_access_token L test_service ''not-a-jwt'') [(UtcNow, RUtc t')] (Inl e')" by blast
  from verified[OF this] show "runs (verify_malformed_token_fails L) [(UtcNow, RUtc t')] ()"
    unfolding verify_malformed_token_fails_def by simp
  have vr: "runs (verify_refresh_token L test_service r) [(UtcNow, RUtc t')]
      (Inr \<lparr>rc_sub = ''alice@example.com'', rc_jti = uuid_to_string L u, rc_iss = ''test-issuer'', rc_iat = timestamp t,
        rc_exp = timestamp t + 604800\<rparr>)"
    using refresh_verified(1)[OF ok keys r fits(2) clock(3)] clock(5) by (simp add: test_service_fields)
  have refreshed: "runs (bind (sign_refresh_token L test_service ''alice@example.com'') f) ((NowV7, RUuid u) # (UtcNow, RUtc t) # tr) y"
    if "runs (f (Inr (r, u))) tr y" for f tr and y :: unit using runs_bindI[where f = f, OF r that] by simp
  have reverified: "runs (bind (verify_refresh_token L test_service r) f) [(UtcNow, RUtc t')] y"
    if "runs (f (Inr \<lparr>rc_sub = ''alice@example.com'', rc_jti = uuid_to_string L u, rc_iss = ''test-issuer'', rc_iat = timestamp t,
        rc_exp = timestamp t + 604800\<rparr>)) [] y" for f and y :: unit
    using runs_bindI[where f = f, OF vr that] by simp
  show "runs (sign_and_verify_refresh_token L) [(NowV7, RUuid u), (UtcNow, RUtc t), (UtcNow, RUtc t')] ()"
    unfolding sign_and_verify_refresh_token_def
    by (rule refreshed, unfold unwrap_simps prod.case, rule reverified) simp
  let ?c = "\<lparr>ac_sub = ''alice@example.com'', ac_iss = ''test-issuer'', ac_iat = timestamp t - 300, ac_exp = timestamp t - 120\<rparr>"
  obtain x where x: "jwt_encode L (js_decoding_key test_service) (access_claims_to_json ?c) = Inr x" using laws by blast
  have early: "120 \<le> sint (timestamp t)" "sint (timestamp t) \<le> sint (timestamp t')"
    using assms(2) by (simp_all add: sane_clock_def)
  have "map_sum map_jwt_error (\<lambda>j. the (access_claims_of_json j)) (jwt_decode L (js_decoding_key test_service)
      (access_validation L test_service) (\<lambda>j. access_claims_of_json j \<noteq> None) (timestamp t') x) =
     (if sint (timestamp t') \<le> sint (ac_exp ?c) + 5 then Inr (the (access_claims_of_json (access_claims_to_json ?c))) else Inl Expired)"
    by (rule decode_by_expiry[OF ok x])
      (use ok clock(3) early claims_shapes(1)[OF ok, of ?c test_service] in \<open>simp_all add: sint_back test_service_fields\<close>)
  then have ve: "runs (verify_access_token L test_service x) [(UtcNow, RUtc t')] (Inl Expired)"
    using early by (simp add: verify_as_map runs_calls sint_back)
  have "runs (unwrap (jwt_encode L (as_bytes ''test-secret-key-at-least-32-chars!'') (access_claims_to_json ?c)) (\<lambda>token.
      bind (verify_access_token L test_service token) (\<lambda>v. case v of Inl Expired \<Rightarrow> Ret () | _ \<Rightarrow> Panic))) [(UtcNow, RUtc t')] ()"
    unfolding x[unfolded test_service_fields] unwrap_simps by (rule verified[OF ve]) simp
  then show "runs (expired_access_token_returns_expired_error L) [(UtcNow, RUtc t), (UtcNow, RUtc t')] ()"
    by (simp add: expired_access_token_returns_expired_error_def runs_calls Let_def)
qed

end
