(* ===== verification/Test_Properties.thy ===== *)
theory Test_Properties
  imports Reference_Wire Unit_Tests
begin

text \<open>
  The unit tests run on the model with the reference library, which has what they rely on: all of them pass.
\<close>

section \<open>The reference library\<close>

lemma wire_lib_texts:
  "header_to_str wire_lib = header_to_str ref_lib" "header_value_parse wire_lib = header_value_parse ref_lib"
  "jwt_encode wire_lib = jwt_encode ref_lib" "jwt_decode wire_lib = jwt_decode ref_lib"
  "jwt_validation_default wire_lib = jwt_validation_default ref_lib"
  "core_session_cookie_name wire_lib = ref_session_name" "core_extract_session_id wire_lib = ref_session_id"
  by (simp_all add: wire_lib_def ref_lib_def)

lemma split_on_length: "length (split_on c s) = Suc (length (filter (\<lambda>x. x = c) s))"
  by (induction s) (auto split: list.splits)

lemma ref_decoded_shape:
  assumes "ref_jwt_decode key v acc now t = Inr j"
  obtains h p where "split_on CHR ''.'' t = [h, p, hex (of_bytes key)]"
proof -
  have "ref_signature_ok key v t" using assms by (auto simp: ref_jwt_decode_def split: if_splits)
  with that show thesis by (auto simp: ref_signature_ok_def split: list.splits)
qed

lemma hex_of_bytes_inj: "hex (of_bytes a) = hex (of_bytes b) \<Longrightarrow> a = b"
  by (metis option.inject unhex_hex as_bytes_of_bytes)

lemma ref_keyed:
  assumes "ref_jwt_encode key j = Inr t" "ref_jwt_decode key' v acc now t = Inr j'"
  shows "key' = key"
proof -
  from assms(1) obtain s where s: "flat j = Some s" "t = ref_token ''h'' s key"
    by (auto simp: ref_jwt_encode_def split: option.splits)
  have "CHR ''.'' \<notin> set s" using flat_token[OF s(1)] by simp
  then have "split_on CHR ''.'' t = [''h'', s, hex (of_bytes key)]" unfolding s(2) by (intro split_ref_token) simp_all
  with assms(2) show ?thesis by (elim ref_decoded_shape) (auto dest: hex_of_bytes_inj)
qed

lemma wire_jwt_test_laws: "jwt_test_laws wire_lib"
proof -
  have "jwt_ok wire_lib"
    using ref_jwt_ok unfolding jwt_ok_def jwt_default_ok_def jwt_complete_def jwt_sound_def jwt_text_ok_def jwt_stable_def
      wire_lib_texts .
  moreover have "\<exists>t. jwt_encode wire_lib key (access_claims_to_json c) = Inr t" for key c
    by (simp add: wire_lib_texts ref_fields ref_jwt_encode_def access_claims_to_json_def)
  moreover have "\<exists>t. jwt_encode wire_lib key (refresh_claims_to_json c) = Inr t" for key c
    by (simp add: wire_lib_texts ref_fields ref_jwt_encode_def refresh_claims_to_json_def)
  moreover have "other_secret_refused wire_lib"
    unfolding other_secret_refused_def
  proof (intro allI impI notI)
    fix j j' t v acc now
    assume "jwt_encode wire_lib (as_bytes ''test-secret-key-at-least-32-chars!'') j = Inr t"
      "jwt_decode wire_lib (as_bytes ''other-secret-key-at-least-32-chars!'') v acc now t = Inr j'"
    then have "as_bytes ''other-secret-key-at-least-32-chars!'' = as_bytes ''test-secret-key-at-least-32-chars!''"
      by (intro ref_keyed) (simp_all add: wire_lib_texts ref_fields)
    then show False by (simp add: as_bytes_inj)
  qed
  moreover have "length (filter (\<lambda>c. c = CHR ''.'') t) = 2" if "jwt_decode wire_lib key v acc now t = Inr j"
    for key v acc now t j
  proof -
    from that have "ref_jwt_decode key v acc now t = Inr j" by (simp add: wire_lib_texts ref_fields)
    then obtain h p where "split_on CHR ''.'' t = [h, p, hex (of_bytes key)]" by (rule ref_decoded_shape)
    with split_on_length[of "CHR ''.''" t] show ?thesis by simp
  qed
  ultimately show ?thesis unfolding jwt_test_laws_def by blast
qed

lemma ref_other_key: "k' \<noteq> k \<Longrightarrow> ref_encrypt k n a m = Some c \<Longrightarrow> ref_decrypt k' n a c = None"
proof (rule ccontr)
  assume ne: "k' \<noteq> k" and "ref_encrypt k n a m = Some c" "ref_decrypt k' n a c \<noteq> None"
  then have c: "c = ref_seal_header k n a @ m" "take (length (ref_seal_header k' n a)) c = ref_seal_header k' n a"
    by (auto simp: ref_encrypt_def ref_decrypt_def Let_def split: if_splits)
  then obtain r where "ref_seal_header k n a @ m = ref_seal_header k' n a @ r" by (metis append_take_drop_id)
  then have "of_bytes (ref_seal_header k n a @ m) = of_bytes (ref_seal_header k' n a @ r)" by simp
  then have "hex (of_bytes k) = hex (of_bytes k')"
    by (simp add: ref_seal_header_def of_bytes_append append_eq_at_sep not_in_hex letter_def)
  with ne show False by (metis hex_of_bytes_inj)
qed

lemma wire_bearer_test_laws: "bearer_test_laws wire_lib"
  unfolding bearer_test_laws_def
proof (intro conjI allI)
  show "kv_key_new wire_lib (bearer_token_kv_key wire_lib t) = Inr (KvKey (bearer_token_kv_key wire_lib t))" for t
    using wire_kv_laws by (simp add: kv_laws_def)
  have "replicate 32 4 \<noteq> (replicate 32 3 :: bytes)" by simp
  from ref_other_key[OF this] show "other_key_refused wire_lib"
    unfolding other_key_refused_def wire_lib_own by blast
  show "flipped_refused wire_lib" unfolding flipped_refused_def wire_lib_own by (blast dest: ref_flip)
  show "core_bearer_token_key wire_lib TOKEN_B \<noteq> core_bearer_token_key wire_lib TOKEN_A"
    "core_bearer_token_key wire_lib PUB_OTHER_TOKEN \<noteq> core_bearer_token_key wire_lib PUB_TOKEN"
    unfolding wire_lib_own by code_simp+
qed (rule wire_lib_laws)

section \<open>The tests pass on it\<close>

lemma wire_http: "http_ok wire_lib" "session_ok wire_lib"
  using ref_http_ok by (simp_all add: http_ok_def session_ok_def wire_lib_texts ref_session_name_def ref_session_id_def)

lemmas reference_unit_tests =
  cookie_tests_pass[OF wire_http] config_tests_pass contract_tests_pass[OF wire_lib_laws]
  bearer_tests_pass[OF wire_bearer_test_laws] jwt_tests_pass[OF wire_jwt_test_laws]

lemma all_unit_tests_pass:
  "list_all (\<lambda>b. b) (cookie_tests wire_lib @ parse_bool_tests @
     [environment_parses_all_known_values, environment_rejects_unknown_value] @ contract_tests wire_lib) \<and>
   list_all total (bearer_tests wire_lib) \<and>
   (\<forall>t t' u. sane_clock t t' \<longrightarrow>
      runs (sign_and_verify_access_token wire_lib) [(UtcNow, RUtc t), (UtcNow, RUtc t')] () \<and>
      runs (verify_access_token_wrong_secret_fails wire_lib) [(UtcNow, RUtc t), (UtcNow, RUtc t')] () \<and>
      runs (sign_and_verify_refresh_token wire_lib) [(NowV7, RUuid u), (UtcNow, RUtc t), (UtcNow, RUtc t')] () \<and>
      runs (verify_malformed_token_fails wire_lib) [(UtcNow, RUtc t')] () \<and>
      runs (expired_access_token_returns_expired_error wire_lib) [(UtcNow, RUtc t), (UtcNow, RUtc t')] ())"
  using reference_unit_tests(1-4) by (simp only: list.pred_inject list_all_append) (blast intro: reference_unit_tests(5-9))

end
