(* ===== verification/Spec2Isabelle.thy ===== *)
theory Spec2Isabelle
  imports Reference_Race Reference_Logout Tickets Liveness Token_Properties Wire_Properties Oidc_Properties
    Start_Properties Endpoint_Properties Conformance_Properties Test_Properties
begin

text \<open>
  svc-auth: the authentication gatekeeper, as a HOL model and the theorems that make it correct.

  \<^bold>\<open>The program.\<close> The service (\<open>src/src/\<close>) answers four endpoints. \<open>POST /auth/token\<close> exchanges an OIDC
  id token for an access JWT and a refresh JWT, both as cookies; \<open>POST /auth/refresh\<close> rotates the refresh
  token; \<open>GET /auth/check\<close> judges a request by its access cookie (renewing the session silently when it
  has expired) or by a sealed bearer token; \<open>POST /auth/logout\<close> revokes the family of the refresh token.
  It keeps no state of its own between requests but the cached keys of the OIDC providers: refresh tokens
  and revoked families are rows of one KV bucket of the fabric, sealed bearers are values of another one,
  into which the publisher crate writes. The contract crate fixes the format of those values, and the
  conformance crate tests another implementation of it (the Go anchor) against the Rust one.

  \<^bold>\<open>How code becomes HOL.\<close> An \<open>async\<close> function is a program (\<open>'a prog\<close> of Effects): it returns, panics, or makes
  a request to the world and goes on with the reply. Every read of a clock, every KV call, every HTTP call,
  every nonce and every uuid is a request. \<open>runs p tr x\<close>: against the replies of the trace \<open>tr\<close> the program
  returns \<open>x\<close>; \<open>steps\<close>: it gets that far; \<open>exec W p w\<close>: it is run alone on a world; \<open>pool_exec\<close>: many programs
  are interleaved, request by request, under an arbitrary schedule. Errors are values (\<open>error + 'a\<close>),
  panics are \<open>Panic\<close>, machine integers are words, structs are records with the fields of the source,
  enums are datatypes. \<open>?\<close> is a case distinction on the result.

  \<^bold>\<open>What is a parameter.\<close> Third-party code is a record of functions, \<open>lib\<close> of External: uuid, the fabric's \<open>KvKey\<close>,
  HTTP header values, base64, the AEAD cipher, serde JSON, jsonwebtoken, the hash and cookie names of
  br-core-auth; \<open>go_lib\<close> of Go\_Anchor is that of the Go side. What the code relies on are named predicates that
  state documented behaviour and appear as hypotheses where they are used: \<open>uuid_ok\<close>, \<open>kv_key_ok\<close>, \<open>http_ok\<close>,
  \<open>jwt_ok\<close> (a claim is compared only if the token has it), \<open>jwt_payload_ok\<close>, \<open>jwt_modular\<close>, \<open>aead_ok\<close>, \<open>aead_binds\<close>, \<open>b64_ok\<close>, \<open>json_text_ok\<close>, \<open>actor_json_ok\<close> (bundled as \<open>answer_laws\<close>, \<open>bearer_laws\<close>,
  \<open>directory_laws\<close>, \<open>wire_laws\<close>, \<open>go_agrees\<close>, \<open>kv_laws\<close>). The fabric is a world with the laws \<open>fabric_ok\<close> (a read is
  current, a write gets a sequence number above all earlier ones, a compare-and-swap succeeds only at its
  revision; calls may fail with the write done or not done, and entries may be evicted at any time, a mark
  of a revoked family only after what is older than it, as a \<open>max_age\<close> does),
  \<open>published_ok\<close> for the bucket of the bearers and \<open>bucket_log\<close> for the harness of the battery (any call may be
  refused; a scan that succeeds is truthful). All of these
  laws hold of the executable Reference\_Lib, Reference\_World and Reference\_Wire, on which the witnesses run.

  \<^bold>\<open>Which theory models which file.\<close>
  \<^item> Auth\_Prelude, External, Effects, Total: rule collections, Rust string operations, third-party data, programs.
  \<^item> Http, Cookies, Jwt, App\_State: \<open>error.rs\<close>, \<open>cookie.rs\<close>, \<open>jwt.rs\<close>, \<open>lib.rs\<close>.
  \<^item> Refresh\_Store: \<open>refresh_store.rs\<close> and \<open>rotation.rs\<close> (\<open>store\<close>, \<open>find_by_id\<close>, \<open>mark_used\<close>, \<open>revoke_family\<close>,
    \<open>is_family_revoked\<close>, \<open>rotate_token\<close>).
  \<^item> Oidc: \<open>oidc_validator.rs\<close>, from the discovery to \<open>verify_id_token\<close>, with the key cache of each provider.
  \<^item> Bearer: the contract crate (\<open>key.rs\<close>, \<open>entry.rs\<close>, \<open>destination.rs\<close>, \<open>seal.rs\<close>, \<open>error.rs\<close>), \<open>bearer_validator.rs\<close>,
    and the publisher crate (\<open>publisher.rs\<close>).
  \<^item> Endpoints: \<open>token.rs\<close>, \<open>refresh.rs\<close>, \<open>auth_check.rs\<close>, \<open>logout.rs\<close>. Config and Boot: \<open>config.rs\<close> and \<open>main.rs\<close>.
  \<^item> Conformance, Anchor, Wire\_Battery, Kv\_Battery: \<open>outcome.rs\<close>, \<open>error.rs\<close>, \<open>fixture.rs\<close>, \<open>anchor.rs\<close>, \<open>wire.rs\<close>, \<open>kv.rs\<close> and
    \<open>lib.rs\<close> of the conformance crate. Go\_Anchor: \<open>main.go\<close>, \<open>key.go\<close> and \<open>sealed.go\<close> of its anchor.
  \<^item> Unit\_Tests: the unit tests inside \<open>cookie.rs\<close>, \<open>config.rs\<close>, \<open>jwt.rs\<close>, the contract crate and \<open>publisher.rs\<close>, as
    programs that panic where the test would; Test\_Properties runs them on the reference library. What some of them
    observe of the cipher and of the signatures is asked for there, so they are regression tests of the model, and
    none of them is stated as a property.

  \<^bold>\<open>What the lemmas show, by group.\<close>
  \<^item> Concurrency of refresh tokens. Discipline: a handler writes only what \<open>token_guard\<close> allows, whatever the replies;
    Fabric: under that discipline the bucket keeps \<open>bucket_inv\<close> in any interleaving; Families: rows under one key
    are of one family; Service (locale \<open>handler_contract\<close>): the routes as a pool, at most one grant per token;
    Revocation: what a logout and a replay bring about, on a bucket that forgets its marks when they are old; Tickets: the bucket is a machine of single-use tickets.
  \<^item> Answers. Renewal: the common core of the two renewing endpoints; Answers (locale \<open>renewing\<close>, with both endpoints as
    interpretations): which response hands out which token; Responses: status and cookies by outcome.
  \<^item> Ends. Totality: no handler panics; Liveness: a handler makes at most sixteen requests (sixteen is what
    \<open>/auth/token\<close> needs when it refreshes the provider's keys), so a task that moves so often is answered.
  \<^item> Bearers. Atomic (locale \<open>atomic_object\<close>): tasks whose last request is their only effect behave, interleaved,
    like a sequential run in the order of those requests; Directory: publisher and validator are
    such tasks on the map from tokens to entries.
  \<^item> Conformance. Locales \<open>live_anchor\<close> (an anchor that may answer anything), \<open>wire_anchor\<close> (one that implements the wire) and
    \<open>kv_anchor\<close> (one that leaves the harness alone); Go\_Conforms proves that the Go anchor is all three.
  \<^item> Properties. This theory and the theories named Properties state the properties, each with its witness.

  \<^bold>\<open>Bounds.\<close> No handler needs fuel: programs are finite trees and the loops of the source run over lists. The
  reference JSON reader of Reference\_Wire carries as fuel one unit per character of its input, and
  \<open>jdec_jenc\<close> proves that enough. TTLs and the cooldown are 64-bit words, and adding a TTL to a time wraps as
  \<open>as i64\<close> and release arithmetic do. uuids are 128-bit words; freshness of a new one is assumed
  as long as some uuid is unused. The demonstration schedules have at most thirty moves.

  \<^bold>\<open>Not modelled.\<close> Log lines and metrics (the Prometheus recorder and the \<open>tracing\<close> calls): no decision reads them. The integration
  tests, and of the unit tests the known vector of SHA-256 and that two sealings of one payload differ, which are
  about other crates. Routing, body extraction and shutdown in axum and tokio: a
  handler is given its headers and its decoded body (or that it had none). The connection to NATS, the
  HTTP client and the listener enter \<open>main_start\<close> by their results. The test harness of the battery is the world
  its requests are answered by. Time limits of the HTTP client are replies. Text is a list of bytes: header
  values and cookies are ASCII, and \<open>to_lowercase\<close> of a provider's name is the ASCII one.
\<close>

section \<open>Refresh tokens under concurrent requests\<close>

text \<open>
  C1. However the service's requests interleave, at most one of two requests that present the
  same refresh token (to \<open>/auth/refresh\<close> or to the silent refresh of \<open>/auth/check\<close>) gets a new one.
\<close>

theorem single_grant:
  assumes "answer_laws L" "kv_key_ok L" "fabric_ok V W" "store_inv L V w"
    "pool_exec W sched (service_pool L S calls) w = (P', w', log)" "vw_uuids V w' \<noteq> UNIV"
    "i \<noteq> j" "P' i = Ret yi" "P' j = Ret yj"
    "presented L S (calls ! i) = Some jwt" "presented L S (calls ! j) = Some jwt"
  shows "granted S yi = None \<or> granted S yj = None"
  using pool_single_grant[OF assms] by (cases "granted S yi") auto

lemma single_grant_witness:
  "\<exists>P' w' log y0 y1 r. demo_result = (P', w', log) \<and> P' 0 = Ret y0 \<and> P' 1 = Ret y1 \<and>
     granted demo_state y0 = Some r \<and> granted demo_state y1 = None"
proof -
  obtain P' w' log y0 y1 r where d: "demo_result = (P', w', log)" "P' 0 = Ret y0" "P' 1 = Ret y1"
    "granted demo_state y0 = Some r" "status y1 = 401" "vw_uuids rw_view w' \<noteq> UNIV" by (rule demo_raced)
  have "granted demo_state y0 = None \<or> granted demo_state y1 = None"
    using single_grant[OF demo_answer_laws ref_kv_key_ok rw_fabric_ok demo_store_inv
        demo_run[unfolded d(1)] d(6) _ d(2,3) demo_presents demo_presents] by simp
  with d show ?thesis by auto
qed

text \<open>
  C2. The token bucket implements single-use tickets: mapped to the machine \<open>ticket_step\<close> (a ticket is
  issued once under a name never used, redeemed at most once, and may be lost at any time), everything
  any number of concurrent requests do to the bucket is a run of that machine.
\<close>

theorem service_refines_tickets:
  assumes "answer_laws L" "kv_key_ok L" "fabric_ok V W" "store_inv L V w"
    "pool_exec W sched (service_pool L S calls) w = (P', w', log)" "vw_uuids V w' \<noteq> UNIV"
  shows "ticket_step\<^sup>*\<^sup>* (tickets_of L V w [] w) (tickets_of L V w log w')"
  by (rule pool_tickets[OF assms])

lemma service_refines_tickets_witness:
  "\<exists>P' w' log. demo_result = (P', w', log) \<and>
     ticket_step\<^sup>*\<^sup>* (tickets_of ref_lib rw_view demo_world [] demo_world) (tickets_of ref_lib rw_view demo_world log w')"
proof -
  obtain P' w' log where d: "demo_result = (P', w', log)" "vw_uuids rw_view w' \<noteq> UNIV" by (rule demo_raced)
  from service_refines_tickets[OF demo_answer_laws ref_kv_key_ok rw_fabric_ok demo_store_inv
      demo_run[unfolded d(1)] d(2)] d(1) show ?thesis by blast
qed

text \<open>
  C3. The invariant of the bucket: after any interleaving every row is stored under its own key, every
  key has been redeemed at most once, a redeemed row is marked as used, and of the rows of a key that
  were there at the start, that any request has read since, or that are there now, all belong to one
  family and one user.
\<close>

theorem bucket_invariant:
  assumes "answer_laws L" "kv_key_ok L" "fabric_ok V W" "store_inv L V w"
    "pool_exec W sched (service_pool L S calls) w = (P', w', log)" "vw_uuids V w' \<noteq> UNIV"
  shows "store_inv L V w' \<and>
    (\<forall>k. length (redemptions k log) \<le> 1 \<and>
      (redemptions k log \<noteq> [] \<longrightarrow> (\<forall>row n. vw_tokens V w' k = Some (row, n) \<longrightarrow> rt_used_at row \<noteq> None)) \<and>
      (\<forall>row row'. observed V w log w' k row \<and> observed V w log w' k row' \<longrightarrow>
         rt_family_id row' = rt_family_id row \<and> rt_email row' = rt_email row))"
proof -
  have uuid: "uuid_ok L" using assms(1) by (simp add: answer_laws_def)
  note valid = service_pool_valid[OF assms(5)]
  have inv: "bucket_inv L V w log w'" by (rule valid_log_bucket_inv[OF uuid assms(2-4) valid assms(6)])
  have fam: "inv_family V w log w'" by (rule valid_log_family[OF uuid assms(2-4) valid assms(6)])
  have "rt_family_id row' = rt_family_id row \<and> rt_email row' = rt_email row"
    if "observed V w log w' k row" "observed V w log w' k row'" for k row row'
    using that fam unfolding inv_family_def same_owner_def by metis
  then show ?thesis using inv unfolding bucket_inv_def inv_rows_def inv_redeemed_def by blast
qed

lemma bucket_invariant_witness:
  "\<exists>P' w' log. demo_result = (P', w', log) \<and> store_inv ref_lib rw_view w' \<and>
     length (redemptions (KvKey ''refresh.1'') log) \<le> 1"
proof -
  obtain P' w' log where d: "demo_result = (P', w', log)" "vw_uuids rw_view w' \<noteq> UNIV" by (rule demo_raced)
  from bucket_invariant[OF demo_answer_laws ref_kv_key_ok rw_fabric_ok demo_store_inv
      demo_run[unfolded d(1)] d(2)] d(1) show ?thesis by blast
qed

text \<open>
  C4. Logging out ends the session: when a logout has revoked the family of a refresh token, no request
  that starts afterwards and presents that token gets a new one, unless its reading of the family fails.
  That holds although the bucket drops the mark of the revocation when it is older than the bucket's
  \<open>max_age\<close>: the row of the token is older than the mark, and is gone before it, so that the update
  of the row fails.
\<close>

theorem logout_ends_session:
  assumes "answer_laws L" "kv_key_ok L" "fabric_ok V W" "store_inv L V w"
    "pool_exec W s1 (service_pool L S calls) w = (P1, w1, l1)" "pool_exec W s2 P1 w1 = (P2, w2, l2)"
    "vw_uuids V w2 \<noteq> UNIV"
    "calls ! i = LogoutCall h" "extract_refresh_cookie L h (as_cookie_config S) = Some jwt"
    "P1 i = Ret yi" "(i, FamPut fk v, RDone (Inr u)) \<in> set l1"
    "by_task j l1 = []" "P2 j = Ret y" "presented L S (calls ! j) = Some jwt"
    "\<forall>fk e. (j, FamGet fk, RFam (Inl e)) \<notin> set l2"
  shows "granted S y = None"
  by (rule pool_logout_refused[OF assms])

lemma logout_ends_session_witness:
  "\<exists>P1 w1 l1 P2 w2 l2 y.
     pool_exec rw_step (replicate 4 0) (service_pool ref_lib demo_state logout_calls) demo_world = (P1, w1, l1) \<and>
     pool_exec rw_step (replicate 4 1) P1 w1 = (P2, w2, l2) \<and>
     P2 1 = Ret y \<and> status y = 401 \<and> granted demo_state y = None"
proof -
  obtain P1 w1 P2 w2 y0 y where
    p: "pool_exec rw_step (replicate 4 0) (service_pool ref_lib demo_state logout_calls) demo_world = (P1, w1, first_log)"
      "pool_exec rw_step (replicate 4 1) P1 w1 = (P2, w2, then_log)"
    and y: "P1 0 = Ret y0" "P2 1 = Ret y" "status y = 401" and n: "rw_uuids w2 = 4"
    by (rule demo_logout)
  obtain fk v u where put: "(0, FamPut fk v, RDone (Inr u)) \<in> set first_log"
    using logout_facts(1) unfolding list_ex_iff is_put_iff by blast
  have free: "vw_uuids rw_view w2 \<noteq> UNIV" by (rule few_uuids) (simp add: n)
  have reads: "\<forall>fk e. (1, FamGet fk, RFam (Inl e)) \<notin> set then_log"
    using logout_facts(2) by (force simp: list_ex_iff is_failed_read_def)
  have c: "logout_calls ! 0 = LogoutCall demo_headers" by (simp add: logout_calls_def)
  have e: "extract_refresh_cookie ref_lib demo_headers (as_cookie_config demo_state) = Some demo_token" by code_simp
  have pr: "presented ref_lib demo_state (logout_calls ! 1) = Some demo_token" by code_simp
  have "granted demo_state y = None"
    by (rule logout_ends_session[OF demo_answer_laws ref_kv_key_ok rw_fabric_ok demo_store_inv p free c e
          y(1) put logout_others(1) y(2) pr reads]) simp
  with p y show ?thesis by blast
qed

text \<open>
  C5. The order of the writes: an entry is marked as used only after the token that replaces it was
  stored, by the same request, for the same family, unused. And until that update nothing is spent: an
  entry for whose key no request has sent an update is still the entry that was there, or has been
  dropped by the bucket, whatever else the requests have done and wherever they have stopped.
\<close>

theorem successor_stored_first:
  assumes "answer_laws L" "kv_key_ok L" "fabric_ok V W" "store_inv L V w"
    "pool_exec W sched (service_pool L S calls) w = (P', w', log)" "vw_uuids V w' \<noteq> UNIV"
  shows "(\<forall>l1 i k v n r l2. log = l1 @ (i, TokUpdateIf k v n, r) # l2 \<longrightarrow>
      (\<exists>k' new. (i, TokPut k' new, RDone (Inr ())) \<in> set l1 \<and> rt_replaced_by v = Some (rt_id new) \<and>
        rt_family_id new = rt_family_id v \<and> rt_used_at new = None \<and> refresh_key L (rt_id new) = Inr k')) \<and>
    (\<forall>k e. vw_tokens V w k = Some e \<and> (\<forall>i v n r. (i, TokUpdateIf k v n, r) \<notin> set log) \<longrightarrow>
      vw_tokens V w' k = Some e \<or> vw_tokens V w' k = None)"
proof (intro conjI allI impI)
  have uuid: "uuid_ok L" using assms(1) by (simp add: answer_laws_def)
  show "vw_tokens V w' k = Some e \<or> vw_tokens V w' k = None"
    if "vw_tokens V w k = Some e \<and> (\<forall>i v n r. (i, TokUpdateIf k v n, r) \<notin> set log)" for k e
    by (rule unspent_until_update[OF uuid assms(2-4) service_pool_valid[OF assms(5)] assms(6)]) (use that in blast)+
  show "\<exists>k' new. (i, TokPut k' new, RDone (Inr ())) \<in> set l1 \<and> rt_replaced_by v = Some (rt_id new) \<and>
      rt_family_id new = rt_family_id v \<and> rt_used_at new = None \<and> refresh_key L (rt_id new) = Inr k'"
    if "log = l1 @ (i, TokUpdateIf k v n, r) # l2" for l1 i k v n r l2
    by (rule successor_first[OF assms(5)[unfolded that] ])
qed

lemma successor_stored_first_witness:
  "\<exists>P' w' log k' new i. demo_result = (P', w', log) \<and> (i, TokPut k' new, RDone (Inr ())) \<in> set log"
proof -
  obtain P' w' log where d: "demo_result = (P', w', log)" "list_ex is_update log" "vw_uuids rw_view w' \<noteq> UNIV"
    by (rule demo_raced)
  from d(2) obtain i k v n r where "(i, TokUpdateIf k v n, r) \<in> set log"
    by (auto simp: list_ex_iff is_update_def split: request.splits)
  then obtain l1 l2 where log: "log = l1 @ (i, TokUpdateIf k v n, r) # l2" by (auto dest: split_list)
  from conjunct1[OF successor_stored_first[OF demo_answer_laws ref_kv_key_ok rw_fabric_ok demo_store_inv
      demo_run[unfolded d(1)] d(3)], rule_format, OF log] obtain k' new where
    "(i, TokPut k' new, RDone (Inr ())) \<in> set l1" by blast
  then have "(i, TokPut k' new, RDone (Inr ())) \<in> set log" by (simp add: log)
  with d(1) show ?thesis by blast
qed

text \<open>
  C6. A replay is detected and ends the family: a renewal that reads a row already used, or that loses
  the compare-and-swap on it, grants nothing, and unless it had failed to sign before or had found
  the family revoked already, it reports the reuse and writes the revocation of the row's family.
\<close>

theorem replay_revokes_family:
  assumes "runs (renewal L S jwt) tr out" "(TokGet k, RTok (Inr (Some (row, n)))) \<in> set tr"
    "if rt_used_at row = None then \<exists>k v m. (TokUpdateIf k v n, RDone (Inl (RevisionConflict m))) \<in> set tr else True"
  shows "(\<forall>a r. out \<noteq> Renewed a r) \<and>
    (out = FamilyRevoked (rt_family_id row) \<or> (\<exists>e. out = SigningFailed e) \<or>
     (out = ReuseDetected (rt_family_id row) \<and>
      (\<forall>fk. revoked_key L (rt_family_id row) = Inr fk \<longrightarrow> (\<exists>v x. (FamPut fk v, RDone x) \<in> set tr))))"
proof -
  have "replayed row n tr" using assms(3) by (auto simp: replayed_def split: if_splits)
  from replay_outcome[OF assms(1,2) this] show ?thesis by auto
qed

definition used_row :: refresh_token where
  "used_row = demo_row\<lparr>rt_used_at := Some 5, rt_replaced_by := Some 9\<rparr>"

definition replay_trace :: "event list" where
  "replay_trace = [(UtcNow, RUtc 1000000000), (TokGet (KvKey ''refresh.1''), RTok (Inr (Some (used_row, 2)))),
     (FamGet (KvKey ''revoked.2''), RFam (Inr None)), (UtcNow, RUtc 1000000000), (NowV7, RUuid 3),
     (UtcNow, RUtc 1000000000), (UtcNow, RUtc 1000000000), (UtcNow, RUtc 1000000000),
     (FamPut (KvKey ''revoked.2'') \<lparr>revoked_at = 1000000000\<rparr>, RDone (Inr ()))]"

lemma replay_revokes_family_witness:
  "runs (renewal ref_lib demo_state demo_token) replay_trace (ReuseDetected 2) \<and>
     (\<exists>v x. (FamPut (KvKey ''revoked.2'') v, RDone x) \<in> set replay_trace)"
proof -
  have r: "runs (renewal ref_lib demo_state demo_token) replay_trace (ReuseDetected 2)"
    unfolding feed_runs by code_simp
  have k: "revoked_key ref_lib (rt_family_id used_row) = Inr (KvKey ''revoked.2'')" by code_simp
  have "(TokGet (KvKey ''refresh.1''), RTok (Inr (Some (used_row, 2)))) \<in> set replay_trace"
    by (simp add: replay_trace_def)
  from replay_revokes_family[OF r this] have
    "\<forall>fk. revoked_key ref_lib (rt_family_id used_row) = Inr fk \<longrightarrow> (\<exists>v x. (FamPut fk v, RDone x) \<in> set replay_trace)"
    by (simp add: used_row_def)
  with k r show ?thesis by blast
qed

text \<open>
  C7. A renewal is granted exactly by these steps, in this order: the token verifies and its id parses;
  the row under that id is read and unused; the family is not reported as revoked; both new tokens are
  signed for the subject of the old; the new row is stored for the same family; and the old row is
  marked as used and replaced, by an update at the revision it was read at.
\<close>

theorem renewal_granted_by:
  "runs (renewal L S jwt) tr (Renewed a r) \<longleftrightarrow>
     (\<exists>claims row n trv jti k trf tra trs u now k1 k2 now'.
        runs (verify_refresh_token L (as_jwt S) jwt) trv (Inr claims) \<and>
        uuid_parse_str L (rc_jti claims) = Some jti \<and> refresh_key L jti = Inr k \<and>
        runs (is_family_revoked L (rt_family_id row)) trf False \<and>
        runs (sign_access_token L (as_jwt S) (rc_sub claims)) tra (Inr a) \<and>
        runs (sign_refresh_token L (as_jwt S) (rc_sub claims)) trs (Inr (r, u)) \<and>
        rt_used_at row = None \<and> refresh_key L u = Inr k1 \<and> refresh_key L (rt_id row) = Inr k2 \<and>
        tr = trv @ [(TokGet k, RTok (Inr (Some (row, n))))] @ trf @ tra @ trs @
          [(UtcNow, RUtc now),
           (TokPut k1 \<lparr>rt_id = u, rt_email = rc_sub claims, rt_family_id = rt_family_id row,
              rt_used_at = None, rt_replaced_by = None, rt_created_at = now\<rparr>, RDone (Inr ())),
           (UtcNow, RUtc now'),
           (TokUpdateIf k2 (row\<lparr>rt_used_at := Some now', rt_replaced_by := Some u\<rparr>) n, RDone (Inr ()))])"
  unfolding renewal_renewed renewed_by_def by (rule refl)

text \<open>
  C8. The identity is preserved: whenever the tokens of a granted renewal are accepted, they speak for
  the subject of the refresh token that was presented (for lifetimes that do not overflow the clock).
\<close>

theorem renewal_preserves_identity:
  assumes "jwt_ok L" "runs (renewal L S jwt) tr (Renewed a r)"
    "\<forall>t. (UtcNow, RUtc t) \<in> set tr \<longrightarrow> fits t (js_access_ttl_secs (as_jwt S)) \<and> fits t (js_refresh_ttl_secs (as_jwt S))"
  shows "\<exists>trv claims. runs (verify_refresh_token L (as_jwt S) jwt) trv (Inr claims) \<and>
    (\<forall>tra c. runs (verify_access_token L (as_jwt S) a) tra (Inr c) \<longrightarrow> ac_sub c = rc_sub claims) \<and>
    (\<forall>trb d. runs (verify_refresh_token L (as_jwt S) r) trb (Inr d) \<longrightarrow> rc_sub d = rc_sub claims)"
proof -
  from assms(2) obtain claims row n where rb: "renewed_by L S jwt tr claims row n a r"
    unfolding renewal_renewed by (elim exE)
  then obtain trv where "runs (verify_refresh_token L (as_jwt S) jwt) trv (Inr claims)" by (rule renewed_redeems)
  with renewed_subject[OF assms(1) rb assms(3)] show ?thesis by blast
qed

lemma renewal_preserves_identity_witness:
  "\<exists>tr a r trv claims. runs (renewal ref_lib demo_state demo_token) tr (Renewed a r) \<and>
     runs (verify_refresh_token ref_lib demo_jwt demo_token) trv (Inr claims) \<and>
     (\<forall>tra c. runs (verify_access_token ref_lib demo_jwt a) tra (Inr c) \<longrightarrow> ac_sub c = rc_sub claims)"
proof -
  obtain tr a r where t: "runs (renewal ref_lib demo_state demo_token) tr (Renewed a r)"
    "\<forall>t. (UtcNow, RUtc t) \<in> set tr \<longrightarrow> 0 \<le> t \<and> t < 1000000000000" by (rule demo_renewed)
  have "fits x 900 \<and> fits x 86400" if "0 \<le> x" "x < 1000000000000" for x
  proof -
    have "0 \<le> x div 1000000000" "x div 1000000000 < 1000" using that by simp_all
    then have "sint (word_of_int (x div 1000000000) :: 64 word) = x div 1000000000"
      unfolding sint_sbintrunc' by (intro signed_take_bit_int_eq_self) simp_all
    with \<open>0 \<le> x div 1000000000\<close> \<open>x div 1000000000 < 1000\<close> show ?thesis by (simp add: fits_def timestamp_def)
  qed
  then have "\<forall>x. (UtcNow, RUtc x) \<in> set tr \<longrightarrow>
      fits x (js_access_ttl_secs (as_jwt demo_state)) \<and> fits x (js_refresh_ttl_secs (as_jwt demo_state))"
    using t(2) by (auto simp: demo_state_def demo_jwt_def jwt_service_new_def)
  from renewal_preserves_identity[OF ref_jwt_ok t(1) this] t(1) show ?thesis
    by (auto simp: demo_state_def)
qed

section \<open>Every request is answered\<close>

text \<open>
  C9. A request that gets to move sixteen times is answered, under any schedule of any other requests
  and whatever the stores, the clocks and the providers reply: no handler panics, waits or loops.
\<close>

theorem every_request_answered:
  assumes "answer_laws L" "fabric_ok V W"
    "pool_exec W sched (service_pool L S calls) w = (P', w', log)" "i < length calls" "16 \<le> count_list sched i"
  shows "\<exists>y. P' i = Ret y"
proof (rule cost_pool[OF _ assms(3)])
  show "\<forall>q w r w'. W q w = (r, w') \<longrightarrow> well_kinded q r" using fabric_okD(1)[OF assms(2)] by blast
  have p: "service_pool L S calls i = serve L S (calls ! i)" using assms(4) by (simp add: service_pool_def)
  show "total (service_pool L S calls i)" unfolding p by (rule total_serve[OF assms(1)])
  show "cost_le (service_pool L S calls i) (count_list sched i)"
    unfolding p by (rule cost_mono[OF cost_serve assms(5)])
qed

lemma every_request_answered_witness:
  "\<exists>y. fst (pool_exec rw_step (replicate 16 0) (service_pool ref_lib demo_state demo_calls) demo_world) 0 = Ret y"
proof -
  obtain P' w' log where
    d: "pool_exec rw_step (replicate 16 0) (service_pool ref_lib demo_state demo_calls) demo_world = (P', w', log)"
    by (metis prod_cases3)
  have "16 \<le> count_list (replicate 16 (0 :: nat)) 0" by code_simp
  moreover have "0 < length demo_calls" by (simp add: demo_calls_def)
  ultimately show ?thesis
    using every_request_answered[OF demo_answer_laws rw_fabric_ok d] unfolding d fst_conv by blast
qed

section \<open>What a failing store means\<close>

text \<open>
  The check of a family, on every reply: revoked only when the revocation was read; a failed read
  and a key that is refused both count as not revoked.
\<close>

theorem family_check_outcomes:
  "runs (is_family_revoked L f) tr b \<longleftrightarrow>
     (case revoked_key L f of
        Inl e \<Rightarrow> tr = [] \<and> \<not> b
      | Inr k \<Rightarrow> \<exists>x. tr = [(FamGet k, RFam x)] \<and>
          b = (case x of Inr (Some _) \<Rightarrow> True | Inr None \<Rightarrow> False | Inl _ \<Rightarrow> False))"
  by (auto simp: runs_is_family_revoked split: sum.splits option.splits)

end
